(* ===== verification/Prelude.thy ===== *)
theory Prelude
  imports Complex_Main "HOL-Library.Multiset"
begin

text \<open>
  What every component shares.

  \<^item> Times are JavaScript epoch milliseconds, so a \<open>Date\<close> is an \<open>int\<close> and
    \<open>new Date(now.getTime() + ms)\<close> is an addition.
  \<^item> A database table of \<^verbatim>\<open>prisma/schema.prisma\<close> is the list of its rows.  The order of
    the list is the order in which the database happens to deliver rows, so a query
    without \<open>orderBy\<close> sees the list as it is, and \<open>orderBy\<close> is a stable sort of it
    (\<open>sort_by\<close>): rows with equal keys come in an order nothing promises.
  \<^item> \<open>updateMany\<close>, \<open>deleteMany\<close> and \<open>count\<close> are one SQL statement each, hence atomic:
    they act on every row the \<open>where\<close> clause accepts and report how many there were.
  \<^item> A comparison with a NULL column is not true (\<open>null_lt\<close>, \<open>null_ge\<close>), as in SQL.
\<close>

named_theorems table_simps \<open>what a table operation does to the rows\<close>

type_synonym time = int

section \<open>Tables\<close>

definition update_many :: "('r \<Rightarrow> bool) \<Rightarrow> ('r \<Rightarrow> 'r) \<Rightarrow> 'r list \<Rightarrow> 'r list \<times> nat" where
  "update_many p f rows =
     (map (\<lambda>r. if p r then f r else r) rows, length (filter p rows))"

definition delete_many :: "('r \<Rightarrow> bool) \<Rightarrow> 'r list \<Rightarrow> 'r list \<times> nat" where
  "delete_many p rows = (filter (\<lambda>r. \<not> p r) rows, length (filter p rows))"

definition count_where :: "('r \<Rightarrow> bool) \<Rightarrow> 'r list \<Rightarrow> nat" where
  "count_where p rows = length (filter p rows)"

definition find_first :: "('r \<Rightarrow> bool) \<Rightarrow> 'r list \<Rightarrow> 'r option" where
  "find_first p rows = List.find p rows"

definition null_lt :: "int option \<Rightarrow> int \<Rightarrow> bool" where
  "null_lt x b = (case x of None \<Rightarrow> False | Some v \<Rightarrow> v < b)"

definition null_ge :: "int option \<Rightarrow> int \<Rightarrow> bool" where
  "null_ge x b = (case x of None \<Rightarrow> False | Some v \<Rightarrow> b \<le> v)"

lemma null_lt_simps [simp]:
  "null_lt None b = False" "null_lt (Some v) b = (v < b)"
  by (simp_all add: null_lt_def)

lemma null_ge_simps [simp]:
  "null_ge None b = False" "null_ge (Some v) b = (b \<le> v)"
  by (simp_all add: null_ge_def)

lemma fst_update_many [table_simps]:
  "fst (update_many p f rows) = map (\<lambda>r. if p r then f r else r) rows"
  by (simp add: update_many_def)

lemma snd_update_many [table_simps]:
  "snd (update_many p f rows) = count_where p rows"
  by (simp add: update_many_def count_where_def)

lemma update_many_pair:
  "update_many p f rows = (map (\<lambda>r. if p r then f r else r) rows, count_where p rows)"
  by (simp add: update_many_def count_where_def)

lemma fst_delete_many [table_simps]: "fst (delete_many p rows) = filter (\<lambda>r. \<not> p r) rows"
  by (simp add: delete_many_def)

lemma snd_delete_many [table_simps]: "snd (delete_many p rows) = count_where p rows"
  by (simp add: delete_many_def count_where_def)

lemma count_where_zero [simp]: "count_where p rows = 0 \<longleftrightarrow> (\<forall>r \<in> set rows. \<not> p r)"
  by (auto simp: count_where_def filter_empty_conv)

lemma count_where_pos: "0 < count_where p rows \<longleftrightarrow> (\<exists>r \<in> set rows. p r)"
  unfolding neq0_conv [symmetric] count_where_zero by blast

lemma count_where_mono:
  "(\<And>r. r \<in> set rows \<Longrightarrow> p r \<Longrightarrow> q r) \<Longrightarrow> count_where p rows \<le> count_where q rows"
  by (induction rows) (auto simp: count_where_def le_SucI)

lemma count_where_Nil [simp]: "count_where p [] = 0"
  by (simp add: count_where_def)

lemma count_where_Cons [simp]:
  "count_where p (r # rows) = (if p r then Suc (count_where p rows) else count_where p rows)"
  by (simp add: count_where_def)

lemma count_where_append [simp]:
  "count_where p (xs @ ys) = count_where p xs + count_where p ys"
  by (simp add: count_where_def)

lemma count_where_map: "count_where p (map f rows) = count_where (\<lambda>r. p (f r)) rows"
  by (induction rows) auto

lemma count_where_cong:
  "(\<And>r. r \<in> set rows \<Longrightarrow> p r = q r) \<Longrightarrow> count_where p rows = count_where q rows"
  by (simp add: count_where_def cong: filter_cong)

lemma count_where_filter_not [simp]: "count_where p (filter (\<lambda>r. \<not> p r) rows) = 0"
  by simp

lemma count_where_delete:
  "count_where (\<lambda>r. p r \<and> q r) rows + count_where p (filter (\<lambda>r. \<not> (p r \<and> q r)) rows)
   = count_where p rows"
  by (induction rows) auto

lemma count_where_disjoint:
  "(\<And>r. \<not> (p r \<and> q r)) \<Longrightarrow>
     count_where (\<lambda>r. p r \<or> q r) rows = count_where p rows + count_where q rows"
  by (induction rows) auto

lemma delete_many_cong:
  "(\<And>r. r \<in> set rows \<Longrightarrow> p r = q r) \<Longrightarrow> delete_many p rows = delete_many q rows"
  by (auto simp: delete_many_def intro!: filter_cong arg_cong [where f = length])

lemma find_first_Some:
  "find_first p rows = Some r \<Longrightarrow> r \<in> set rows \<and> p r"
  by (auto simp: find_first_def find_Some_iff)

lemma find_first_None: "find_first p rows = None \<longleftrightarrow> (\<forall>r \<in> set rows. \<not> p r)"
  by (auto simp: find_first_def find_None_iff)

lemma find_first_append:
  "find_first p (xs @ ys) = (case find_first p xs of None \<Rightarrow> find_first p ys | Some x \<Rightarrow> Some x)"
  by (induction xs) (auto simp: find_first_def)

lemma find_first_single [simp]: "find_first p [x] = (if p x then Some x else None)"
  by (simp add: find_first_def)

section \<open>Rows with a primary key\<close>

text \<open>
  The services address one row by its primary key.  In a table whose keys are distinct a
  \<open>where\<close> clause that fixes the key selects at most one row.
\<close>

definition distinct_keys :: "('r \<Rightarrow> 'k) \<Rightarrow> 'r list \<Rightarrow> bool" where
  "distinct_keys key rows = distinct (map key rows)"

lemma distinct_keys_map:
  "(\<And>r. key (g r) = key r) \<Longrightarrow> distinct_keys key (map g rows) = distinct_keys key rows"
  by (simp add: distinct_keys_def comp_def)

lemma distinct_keys_filter: "distinct_keys key rows \<Longrightarrow> distinct_keys key (filter p rows)"
  by (simp add: distinct_keys_def distinct_map_filter)

lemma distinct_keys_unique:
  "distinct_keys key rows \<Longrightarrow> r \<in> set rows \<Longrightarrow> r' \<in> set rows \<Longrightarrow> key r = key r' \<Longrightarrow> r = r'"
  by (auto simp: distinct_keys_def distinct_map dest: inj_onD)

lemma count_where_key_le_1:
  assumes "distinct_keys key rows" and "\<And>r. p r \<Longrightarrow> key r = k"
  shows "count_where p rows \<le> 1"
  using assms
proof (induction rows)
  case Nil
  then show ?case by simp
next
  case (Cons r rows)
  have d: "distinct_keys key rows" and n: "key r \<notin> key ` set rows"
    using Cons.prems(1) by (auto simp: distinct_keys_def)
  show ?case
  proof (cases "p r")
    case True
    then have "\<forall>x \<in> set rows. \<not> p x" using n Cons.prems(2) by (metis image_eqI)
    then have "count_where p rows = 0" by simp
    with True show ?thesis by simp
  next
    case False
    then show ?thesis using Cons.IH [OF d Cons.prems(2)] by simp
  qed
qed

lemma count_where_update_one:
  assumes d: "distinct_keys key rows" and m: "r \<in> set rows"
    and gk: "\<And>x. key (g x) = key x"
  shows "count_where p (map (\<lambda>x. if key x = key r then g x else x) rows) + (if p r then 1 else 0)
       = count_where p rows + (if p (g r) then 1 else 0)"
  using d m
proof (induction rows)
  case Nil
  then show ?case by simp
next
  case (Cons y ys)
  have d: "distinct_keys key ys" and n: "key y \<notin> key ` set ys"
    using Cons.prems(1) by (auto simp: distinct_keys_def)
  show ?case
  proof (cases "key y = key r")
    case True
    then have yr: "y = r"
      using Cons.prems by (metis distinct_keys_unique list.set_intros(1))
    then have "map (\<lambda>x. if key x = key r then g x else x) ys = ys"
      using n by (intro map_idI) (auto simp: image_iff)
    with yr show ?thesis by simp
  next
    case False
    then have "r \<in> set ys" using Cons.prems(2) by auto
    from Cons.IH [OF d this] False show ?thesis by simp
  qed
qed

section \<open>Sorting by a comparator\<close>

fun insert_by :: "('r \<Rightarrow> 'r \<Rightarrow> bool) \<Rightarrow> 'r \<Rightarrow> 'r list \<Rightarrow> 'r list" where
  "insert_by le x [] = [x]"
| "insert_by le x (y # ys) = (if le x y then x # y # ys else y # insert_by le x ys)"

definition sort_by :: "('r \<Rightarrow> 'r \<Rightarrow> bool) \<Rightarrow> 'r list \<Rightarrow> 'r list" where
  "sort_by le xs = foldr (insert_by le) xs []"

lemma mset_insert_by [simp]: "mset (insert_by le x xs) = add_mset x (mset xs)"
  by (induction xs) auto

lemma sort_by_simps [simp]:
  "sort_by le [] = []" "sort_by le (x # xs) = insert_by le x (sort_by le xs)"
  by (simp_all add: sort_by_def)

lemma mset_sort_by [simp]: "mset (sort_by le xs) = mset xs"
  by (induction xs) auto

lemma set_sort_by [simp]: "set (sort_by le xs) = set xs"
  by (metis mset_sort_by set_mset_mset)

lemma length_sort_by [simp]: "length (sort_by le xs) = length xs"
  by (metis mset_sort_by size_mset)

lemma sort_by_Nil_iff [simp]: "sort_by le xs = [] \<longleftrightarrow> xs = []"
  by (metis length_0_conv length_sort_by)

lemma first_found_least:
  assumes "find_first p xs = Some c" and "sorted_wrt le xs" and "k \<in> set xs" and "p k" and "le c c"
  shows "le c k"
  using assms by (induction xs) (auto simp: find_first_def split: if_splits)

text \<open>Sorting with a total transitive comparator sorts; the contract is the locale below.\<close>

locale total_comparator =
  fixes le :: "'r \<Rightarrow> 'r \<Rightarrow> bool"
  assumes total: "le x y \<or> le y x"
    and trans: "le x y \<Longrightarrow> le y z \<Longrightarrow> le x z"
begin

lemma sorted_insert_by: "sorted_wrt le xs \<Longrightarrow> sorted_wrt le (insert_by le x xs)"
proof (induction xs)
  case Nil
  then show ?case by simp
next
  case (Cons y ys)
  have in_set: "set (insert_by le x ys) = insert x (set ys)"
    by (metis mset_insert_by set_mset_add_mset_insert set_mset_mset)
  show ?case
  proof (cases "le x y")
    case True
    with Cons.prems show ?thesis by (auto intro: trans)
  next
    case False
    then have "le y x" using total by blast
    with Cons False in_set show ?thesis by auto
  qed
qed

lemma sorted_sort_by: "sorted_wrt le (sort_by le xs)"
  by (induction xs) (auto intro: sorted_insert_by)

lemma sort_by_hd_least: "sort_by le xs = x # rest \<Longrightarrow> y \<in> set xs \<Longrightarrow> le x y"
  by (metis set_sort_by set_ConsD sorted_sort_by sorted_wrt.simps(2) total)

lemma sort_by_take_le:
  assumes "x \<in> set (take n (sort_by le xs))" and "y \<in> set (drop n (sort_by le xs))"
  shows "le x y"
  using assms sorted_sort_by [of xs]
  by (metis append_take_drop_id sorted_wrt_append)

end

section \<open>JavaScript sets and strings\<close>

text \<open>
  \<open>Array.from(new Set(xs))\<close>: the first occurrence of each element, in order.  A string
  condition \<open>if (s)\<close> is false for the empty string as well as for null and undefined
  (\<open>truthy\<close>).
\<close>

definition dedup :: "'a list \<Rightarrow> 'a list" where
  "dedup xs = rev (remdups (rev xs))"

lemma set_dedup [simp]: "set (dedup xs) = set xs"
  by (simp add: dedup_def)

lemma distinct_dedup [simp]: "distinct (dedup xs)"
  by (simp add: dedup_def)

lemma dedup_distinct: "distinct xs \<Longrightarrow> dedup xs = xs"
  by (simp add: dedup_def distinct_remdups_id)

definition truthy :: "string option \<Rightarrow> bool" where
  "truthy x = (case x of None \<Rightarrow> False | Some s \<Rightarrow> s \<noteq> [])"

lemma truthy_simps [simp]: "\<not> truthy None" "truthy (Some s) \<longleftrightarrow> s \<noteq> []"
  by (simp_all add: truthy_def)

lemma truthyE [elim]: "truthy x \<Longrightarrow> (\<And>s. x = Some s \<Longrightarrow> s \<noteq> [] \<Longrightarrow> P) \<Longrightarrow> P"
  by (cases x) auto

text \<open>
  Identifiers, scopes, roles and header values are \<open>string\<close>s: their characters are at most
  U+00FF, where the white space of \<open>String.prototype.trim\<close> is the set below.
\<close>

definition js_space :: "char \<Rightarrow> bool" where
  "js_space c \<longleftrightarrow> (of_char c :: nat) \<in> {9, 10, 11, 12, 13, 32, 160}"

definition trim :: "string \<Rightarrow> string" where
  "trim s = rev (dropWhile js_space (rev (dropWhile js_space s)))"

definition startsWith :: "string \<Rightarrow> string \<Rightarrow> bool" where
  "startsWith s pre \<longleftrightarrow> take (length pre) s = pre"

definition endsWith :: "string \<Rightarrow> string \<Rightarrow> bool" where
  "endsWith s suf \<longleftrightarrow> length suf \<le> length s \<and> drop (length s - length suf) s = suf"

definition ascii_upper :: "char \<Rightarrow> char" where
  "ascii_upper c =
     (let n = (of_char c :: nat) in if 97 \<le> n \<and> n \<le> 122 then char_of (n - 32) else c)"

definition ascii_lower :: "char \<Rightarrow> char" where
  "ascii_lower c =
     (let n = (of_char c :: nat) in if 65 \<le> n \<and> n \<le> 90 then char_of (n + 32) else c)"

text \<open>\<open>String.prototype.split\<close> with a one-character separator: never the empty list.\<close>

fun split_on :: "'a \<Rightarrow> 'a list \<Rightarrow> 'a list list" where
  "split_on c [] = [[]]"
| "split_on c (x # xs) =
     (if x = c then [] # split_on c xs
      else (case split_on c xs of [] \<Rightarrow> [[x]] | p # ps \<Rightarrow> (x # p) # ps))"

lemma split_on_ne [simp]: "split_on c xs \<noteq> []"
  by (induction xs) (auto split: list.splits)

lemma split_on_absent: "c \<notin> set xs \<Longrightarrow> split_on c xs = [xs]"
  by (induction xs) auto

lemma split_on_append: "c \<notin> set xs \<Longrightarrow> split_on c (xs @ c # ys) = xs # split_on c ys"
  by (induction xs) auto

fun join_on :: "'a \<Rightarrow> 'a list list \<Rightarrow> 'a list" where
  "join_on c [] = []"
| "join_on c [p] = p"
| "join_on c (p # q # ps) = p @ c # join_on c (q # ps)"

lemma split_join: "ps \<noteq> [] \<Longrightarrow> \<forall>p \<in> set ps. c \<notin> set p \<Longrightarrow> split_on c (join_on c ps) = ps"
proof (induction c ps rule: join_on.induct)
  case (2 c p)
  then show ?case by (simp add: split_on_absent)
next
  case (3 c p q ps)
  then show ?case by (simp add: split_on_append)
qed simp

lemma split_on_append_any: "split_on c (xs @ c # ys) = split_on c xs @ split_on c ys"
proof (induction xs)
  case Nil
  then show ?case by simp
next
  case (Cons x xs)
  obtain p ps where "split_on c xs = p # ps" by (cases "split_on c xs") auto
  with Cons show ?case by simp
qed

section \<open>JavaScript numbers and JSON\<close>

text \<open>
  A number as the code inspects it: a finite double is the rational it denotes.  Only
  comparisons, \<open>Number.isFinite\<close> and \<open>Math.floor\<close> are applied to such values.
\<close>

datatype jsnum = NaN | PosInfinity | NegInfinity | Fin rat

datatype json =
    JNull | JBool bool | JNum rat | JStr string | JArr "json list" | JObj "(string \<times> json) list"

fun json_truthy :: "json \<Rightarrow> bool" where
  "json_truthy JNull = False"
| "json_truthy (JBool b) = b"
| "json_truthy (JNum n) = (n \<noteq> 0)"
| "json_truthy (JStr s) = (s \<noteq> [])"
| "json_truthy (JArr xs) = True"
| "json_truthy (JObj kvs) = True"

text \<open>Text columns are compared by character code.\<close>

fun str_le :: "string \<Rightarrow> string \<Rightarrow> bool" where
  "str_le [] t = True"
| "str_le (a # s) [] = False"
| "str_le (a # s) (b # t) =
     ((of_char a :: nat) < of_char b \<or> (a = b \<and> str_le s t))"

lemma str_le_Nil [simp]: "str_le s [] \<longleftrightarrow> s = []"
  by (cases s) auto

lemma str_le_refl [simp]: "str_le s s"
  by (induction s) auto

lemma str_le_total: "str_le s t \<or> str_le t s"
proof (induction s t rule: str_le.induct)
  case (3 a s b t)
  then show ?case
    by (metis linorder_neqE_nat of_char_eq_iff str_le.simps(3))
qed auto

lemma str_le_trans: "str_le s t \<Longrightarrow> str_le t u \<Longrightarrow> str_le s u"
proof (induction s t arbitrary: u rule: str_le.induct)
  case (3 a s b t)
  then show ?case by (cases u) auto
qed auto

lemma str_le_antisym: "str_le s t \<Longrightarrow> str_le t s \<Longrightarrow> s = t"
  by (induction s t rule: str_le.induct) auto

text \<open>Reading a result page by page until a page is not full.\<close>

function fetch_pages :: "nat \<Rightarrow> 'r list \<Rightarrow> 'r list" where
  "fetch_pages n rows =
     (let batch = take (Suc n) rows
      in if length batch = Suc n then batch @ fetch_pages n (drop (Suc n) rows) else batch)"
  by pat_completeness auto
termination
  by (relation "measure (\<lambda>(n, rows). length rows)") auto

declare fetch_pages.simps [simp del]

lemma fetch_pages_all [simp]: "fetch_pages n rows = rows"
proof (induction n rows rule: fetch_pages.induct)
  case (1 n rows)
  then show ?case by (subst fetch_pages.simps) (auto simp: Let_def)
qed

section \<open>Small facts\<close>

lemma in_set_map_ifD:
  "r' \<in> set (map (\<lambda>r. if p r then f r else r) rows) \<Longrightarrow>
   \<exists>r \<in> set rows. r' = (if p r then f r else r)"
  by auto

lemma filter_take_in_set: "x \<in> set (take n (filter p xs)) \<Longrightarrow> x \<in> set xs \<and> p x"
  by (auto dest: in_set_takeD)

end
