(* ===== verification/Rbac.thy ===== *)
theory Rbac
  imports Prelude
begin

text \<open>
  Roles, permissions and identity templates: \<^verbatim>\<open>src/lib/auth/rbac.ts\<close>,
  \<^verbatim>\<open>src/lib/auth/identity-templates.ts\<close> and \<open>sessionHasPermission\<close> of
  \<^verbatim>\<open>src/lib/auth/authorization.ts\<close>.

  A permission and a role key are the string literals of the source.  A JavaScript set
  made from an array and turned back into one keeps the first occurrence of each element
  (\<open>dedup\<close>).  The lemmas show that the powers of the platform never reach a customer
  session, whatever its identity template lists.
\<close>

type_synonym permission = string
type_synonym role_key = string

section \<open>Permissions and roles\<close>

definition PERMISSIONS :: "permission list" where
  "PERMISSIONS = [
    ''announcement:manage'', ''api-token:manage'', ''audit:read'', ''ai:chat'', ''ai:manage'',
    ''ai:action:approve'', ''ai:ops:read'', ''ai:ops:manage'', ''ai:ops:autonomous'',
    ''backup:create'', ''backup:read'', ''backup:restore'', ''command:approve'',
    ''command:create'', ''command:execute'', ''command:read'', ''cost:read'', ''cost:manage'',
    ''deploy:manage'', ''deploy:read'', ''deploy:run'', ''deploy:export'', ''docker:manage'',
    ''health:read'', ''image:read'', ''image:write'', ''media:manage'',
    ''notification:manage'', ''playbook:manage'', ''playbook:read'', ''playbook:run'',
    ''role:manage'', ''server:read'', ''server:ssh'', ''server:sftp:unrestricted'',
    ''server:write'', ''share:create'', ''share:manage'', ''share:read'', ''snippet:manage'',
    ''storage:delete'', ''storage:manage-node'', ''storage:read'', ''storage:write'',
    ''task:read'', ''team:read'', ''team:manage'', ''ticket:create'', ''ticket:manage'',
    ''ticket:read'', ''user:manage'', ''user:read'']"

definition ALL_PERMISSIONS :: "permission list" where
  "ALL_PERMISSIONS = PERMISSIONS"

definition operator_permissions :: "permission list" where
  "operator_permissions = [
    ''api-token:manage'', ''audit:read'', ''ai:chat'', ''ai:manage'', ''command:create'',
    ''command:execute'', ''command:read'', ''cost:read'', ''cost:manage'', ''deploy:read'',
    ''deploy:run'', ''deploy:export'', ''docker:manage'', ''health:read'', ''media:manage'',
    ''notification:manage'', ''playbook:read'', ''playbook:run'', ''server:read'',
    ''server:ssh'', ''server:write'', ''share:create'', ''share:manage'', ''share:read'',
    ''snippet:manage'', ''storage:read'', ''storage:write'', ''task:read'', ''team:read'',
    ''ticket:create'', ''ticket:manage'', ''ticket:read'', ''user:read'']"

definition viewer_permissions :: "permission list" where
  "viewer_permissions = [
    ''audit:read'', ''command:read'', ''cost:read'', ''deploy:read'', ''health:read'',
    ''server:read'', ''share:read'', ''storage:read'', ''task:read'', ''team:read'',
    ''ticket:create'', ''ticket:read'', ''user:read'']"

definition storage_manager_permissions :: "permission list" where
  "storage_manager_permissions = [
    ''audit:read'', ''command:read'', ''health:read'', ''media:manage'', ''server:read'',
    ''share:create'', ''share:manage'', ''share:read'', ''snippet:manage'', ''storage:delete'',
    ''storage:manage-node'', ''storage:read'', ''storage:write'', ''task:read'', ''team:read'',
    ''ticket:create'', ''ticket:manage'', ''ticket:read'', ''user:read'']"

definition DEFAULT_ROLE_PERMISSIONS :: "role_key \<Rightarrow> permission list option" where
  "DEFAULT_ROLE_PERMISSIONS role =
     (if role = ''admin'' then Some ALL_PERMISSIONS
      else if role = ''operator'' then Some operator_permissions
      else if role = ''viewer'' then Some viewer_permissions
      else if role = ''storage_manager'' then Some storage_manager_permissions
      else None)"

text \<open>
  \<open>key in DEFAULT_ROLE_PERMISSIONS\<close> also holds for the names every JavaScript object
  inherits from \<open>Object.prototype\<close>.  A role row with such a key passes the filter, but
  what it looks up there is a function, which equals no permission string: for
  \<open>includes(permission)\<close> it contributes nothing, and \<open>getPermissionsFromRoles\<close> leaves it out.
\<close>

definition object_prototype_keys :: "string list" where
  "object_prototype_keys =
     [''constructor'', ''__defineGetter__'', ''__defineSetter__'', ''hasOwnProperty'',
      ''__lookupGetter__'', ''__lookupSetter__'', ''isPrototypeOf'', ''propertyIsEnumerable'',
      ''toString'', ''valueOf'', ''__proto__'', ''toLocaleString'']"

definition known_role :: "string \<Rightarrow> bool" where
  "known_role key \<longleftrightarrow> DEFAULT_ROLE_PERMISSIONS key \<noteq> None \<or> key \<in> set object_prototype_keys"

definition role_permissions :: "role_key \<Rightarrow> permission list" where
  "role_permissions role = (case DEFAULT_ROLE_PERMISSIONS role of None \<Rightarrow> [] | Some ps \<Rightarrow> ps)"

definition getPermissionsFromRoles :: "role_key list \<Rightarrow> permission list" where
  "getPermissionsFromRoles roles = dedup (concat (map role_permissions roles))"

datatype ApprovalActorType = Assistant | User_actor

datatype ApprovalActionType =
  Command_execute | Storage_delete | Server_write | Storage_write

definition ASSISTANT_APPROVAL_ACTIONS :: "ApprovalActionType list" where
  "ASSISTANT_APPROVAL_ACTIONS = [Command_execute, Storage_delete, Server_write, Storage_write]"

definition isProtectedByApproval :: "ApprovalActorType \<Rightarrow> ApprovalActionType \<Rightarrow> bool" where
  "isProtectedByApproval actorType actionType =
     (if actorType = User_actor then False
      else actionType \<in> set ASSISTANT_APPROVAL_ACTIONS)"

section \<open>Identity templates\<close>

definition PLATFORM_ONLY_PERMISSIONS :: "permission list" where
  "PLATFORM_ONLY_PERMISSIONS =
     [''announcement:manage'', ''backup:create'', ''backup:read'', ''backup:restore'',
      ''role:manage'', ''team:manage'', ''user:manage'']"

definition CUSTOMER_PERMISSIONS :: "permission list" where
  "CUSTOMER_PERMISSIONS = filter (\<lambda>p. p \<notin> set PLATFORM_ONLY_PERMISSIONS) ALL_PERMISSIONS"

definition CUSTOMER_BASE_PERMISSIONS :: "permission list" where
  "CUSTOMER_BASE_PERMISSIONS = [''team:read'', ''user:read'']"

definition fromRole :: "role_key \<Rightarrow> permission list" where
  "fromRole role = filter (\<lambda>p. p \<notin> set PLATFORM_ONLY_PERMISSIONS) (role_permissions role)"

record identity_template =
  tplId :: string
  tplKey :: string
  tplPermissions :: "permission list"

definition BUILTIN_IDENTITY_TEMPLATES :: "identity_template list" where
  "BUILTIN_IDENTITY_TEMPLATES =
     [\<lparr>tplId = ''identity:customer_admin'', tplKey = ''customer_admin'',
        tplPermissions = CUSTOMER_PERMISSIONS\<rparr>,
      \<lparr>tplId = ''identity:operator'', tplKey = ''operator'',
        tplPermissions = fromRole ''operator''\<rparr>,
      \<lparr>tplId = ''identity:viewer'', tplKey = ''viewer'',
        tplPermissions = fromRole ''viewer''\<rparr>,
      \<lparr>tplId = ''identity:files'', tplKey = ''files'',
        tplPermissions = filter (\<lambda>p. p \<noteq> ''storage:manage-node'') (fromRole ''storage_manager'')\<rparr>]"

definition DEFAULT_IDENTITY_TEMPLATE_ID :: string where
  "DEFAULT_IDENTITY_TEMPLATE_ID = ''identity:viewer''"

definition builtinIdentityTemplate :: "string \<Rightarrow> identity_template option" where
  "builtinIdentityTemplate i = find_first (\<lambda>t. tplId t = i) BUILTIN_IDENTITY_TEMPLATES"

definition normalizeIdentityPermissions :: "string list \<Rightarrow> permission list" where
  "normalizeIdentityPermissions raw = filter (\<lambda>p. p \<in> set raw) CUSTOMER_PERMISSIONS"

definition resolveSessionPermissions ::
  "role_key list \<Rightarrow> permission list \<Rightarrow> string list option \<Rightarrow> permission list" where
  "resolveSessionPermissions roles accountPermissions identityPermissions =
     (if ''admin'' \<in> set roles then accountPermissions
      else case identityPermissions of
        None \<Rightarrow> [''user:read'']
      | Some raw \<Rightarrow> dedup (CUSTOMER_BASE_PERMISSIONS @ normalizeIdentityPermissions raw))"

text \<open>The copy lookup \<open>t\<close> is the caller's: it is the parameter \<open>translate\<close>.\<close>

definition identityTemplateName ::
  "(string \<Rightarrow> string) \<Rightarrow> string \<Rightarrow> string \<Rightarrow> bool \<Rightarrow> string" where
  "identityTemplateName translate i nm isBuiltin =
     (case (if isBuiltin then builtinIdentityTemplate i else None) of
        Some b \<Rightarrow> translate (''identityTemplate.'' @ tplKey b @ ''.name'')
      | None \<Rightarrow> nm)"

section \<open>Sessions and the permission check\<close>

text \<open>
  \<open>SessionPayload\<close> of \<^verbatim>\<open>src/lib/auth/session.ts\<close>.  \<open>permissions\<close> is optional in the
  source; \<open>None\<close> is a session without the field.
\<close>

record session =
  userId :: string
  username :: string
  roles :: "role_key list"
  mustChangePassword :: bool
  currentTeamId :: "string option"
  permissions :: "permission list option"

definition sessionHasPermission :: "session \<Rightarrow> permission \<Rightarrow> bool" where
  "sessionHasPermission s p =
     (if p \<in> set PLATFORM_ONLY_PERMISSIONS then ''admin'' \<in> set (roles s)
      else case permissions s of
        Some ps \<Rightarrow> p \<in> set ps
      | None \<Rightarrow> p \<in> set (getPermissionsFromRoles (roles s)))"

section \<open>Properties\<close>

lemma distinct_PERMISSIONS: "distinct PERMISSIONS"
  by (simp add: PERMISSIONS_def)

lemma customer_not_platform:
  "p \<in> set CUSTOMER_PERMISSIONS \<Longrightarrow> p \<notin> set PLATFORM_ONLY_PERMISSIONS"
  by (simp add: CUSTOMER_PERMISSIONS_def)

lemma customer_or_platform:
  "p \<in> set PERMISSIONS \<longleftrightarrow> p \<in> set CUSTOMER_PERMISSIONS \<or> p \<in> set PLATFORM_ONLY_PERMISSIONS"
proof -
  have "set PLATFORM_ONLY_PERMISSIONS \<subseteq> set PERMISSIONS"
    by (simp add: PLATFORM_ONLY_PERMISSIONS_def PERMISSIONS_def)
  then show ?thesis by (auto simp: CUSTOMER_PERMISSIONS_def ALL_PERMISSIONS_def)
qed

lemma base_not_platform:
  "p \<in> set CUSTOMER_BASE_PERMISSIONS \<Longrightarrow> p \<notin> set PLATFORM_ONLY_PERMISSIONS"
  by (auto simp: CUSTOMER_BASE_PERMISSIONS_def PLATFORM_ONLY_PERMISSIONS_def)

lemma set_normalizeIdentityPermissions:
  "set (normalizeIdentityPermissions raw) = set raw \<inter> set CUSTOMER_PERMISSIONS"
  by (auto simp: normalizeIdentityPermissions_def)

lemma set_resolveSessionPermissions:
  "set (resolveSessionPermissions rs acc ip) =
     (if ''admin'' \<in> set rs then set acc
      else case ip of None \<Rightarrow> {''user:read''}
      | Some raw \<Rightarrow> set CUSTOMER_BASE_PERMISSIONS \<union> (set raw \<inter> set CUSTOMER_PERMISSIONS))"
  by (auto simp: resolveSessionPermissions_def set_normalizeIdentityPermissions split: option.splits)

lemma resolve_no_platform:
  assumes "''admin'' \<notin> set rs" and "p \<in> set (resolveSessionPermissions rs acc ip)"
  shows "p \<notin> set PLATFORM_ONLY_PERMISSIONS"
proof -
  have "''user:read'' \<notin> set PLATFORM_ONLY_PERMISSIONS"
    by (simp add: PLATFORM_ONLY_PERMISSIONS_def)
  with assms show ?thesis
    by (auto simp: set_resolveSessionPermissions split: option.splits
        dest: base_not_platform customer_not_platform)
qed

lemma sessionHasPermission_platform:
  "p \<in> set PLATFORM_ONLY_PERMISSIONS \<Longrightarrow> sessionHasPermission s p \<longleftrightarrow> ''admin'' \<in> set (roles s)"
  by (simp add: sessionHasPermission_def)

lemma role_permissions_subset: "set (role_permissions r) \<subseteq> set PERMISSIONS"
proof -
  have "set operator_permissions \<subseteq> set PERMISSIONS"
    by (simp add: operator_permissions_def PERMISSIONS_def)
  moreover have "set viewer_permissions \<subseteq> set PERMISSIONS"
    by (simp add: viewer_permissions_def PERMISSIONS_def)
  moreover have "set storage_manager_permissions \<subseteq> set PERMISSIONS"
    by (simp add: storage_manager_permissions_def PERMISSIONS_def)
  ultimately show ?thesis
    by (simp add: role_permissions_def DEFAULT_ROLE_PERMISSIONS_def ALL_PERMISSIONS_def)
qed

lemma getPermissionsFromRoles_subset: "set (getPermissionsFromRoles rs) \<subseteq> set PERMISSIONS"
  using role_permissions_subset by (auto simp: getPermissionsFromRoles_def)

lemma getPermissionsFromRoles_admin:
  "''admin'' \<in> set rs \<Longrightarrow> set (getPermissionsFromRoles rs) = set PERMISSIONS"
  using getPermissionsFromRoles_subset [of rs]
  by (auto simp: getPermissionsFromRoles_def role_permissions_def DEFAULT_ROLE_PERMISSIONS_def
      ALL_PERMISSIONS_def intro!: bexI [of _ "''admin''"])

text \<open>What a customer account may do is exactly the base permissions plus what its identity
  template lists among the customer permissions: an account without the admin role gains no
  platform power from its template, whatever the template row in the database contains.\<close>

theorem customer_permissions_exact:
  assumes "''admin'' \<notin> set rs" and "roles s = rs"
    and "permissions s = Some (resolveSessionPermissions rs acc (Some raw))"
  shows "sessionHasPermission s p \<longleftrightarrow>
    p \<in> set CUSTOMER_BASE_PERMISSIONS \<or> (p \<in> set raw \<and> p \<in> set CUSTOMER_PERMISSIONS)"
proof (cases "p \<in> set PLATFORM_ONLY_PERMISSIONS")
  case True
  with assms show ?thesis
    by (auto simp: sessionHasPermission_def dest: base_not_platform customer_not_platform)
next
  case False
  with assms show ?thesis
    by (auto simp: sessionHasPermission_def set_resolveSessionPermissions)
qed

theorem customer_permissions_exact_witness:
  "\<not> sessionHasPermission \<lparr>userId = ''u1'', username = ''ann'', roles = [''viewer''],
     mustChangePassword = False, currentTeamId = Some ''t1'',
     permissions = Some (resolveSessionPermissions [''viewer''] [''user:manage'']
       (Some [''user:manage'', ''server:ssh'']))\<rparr> ''user:manage''"
  by (subst customer_permissions_exact [where rs = "[''viewer'']" and acc = "[''user:manage'']"
        and raw = "[''user:manage'', ''server:ssh'']"])
    (simp_all add: CUSTOMER_BASE_PERMISSIONS_def CUSTOMER_PERMISSIONS_def PLATFORM_ONLY_PERMISSIONS_def)

end
