(* ===== verification/Errors.thy ===== *)
theory Errors
  imports Prelude
begin

text \<open>
  The typed application errors of \<^verbatim>\<open>src/lib/errors.ts\<close>.  A service that throws returns
  \<open>Inl\<close> of one of them.  The message is the literal or the translation key the code
  passes; its wording in a language is not modelled.
\<close>

datatype app_error =
    AuthError string
  | ForbiddenError string
  | NotFoundError string
  | ValidationError string
  | ConflictError string
  | RateLimitError string
  | BusinessError string int
  | UploadOutcomeUnknownError string

fun errorCode :: "app_error \<Rightarrow> string" where
  "errorCode (AuthError _) = ''AUTH_REQUIRED''"
| "errorCode (ForbiddenError _) = ''FORBIDDEN''"
| "errorCode (NotFoundError _) = ''NOT_FOUND''"
| "errorCode (ValidationError _) = ''VALIDATION_FAILED''"
| "errorCode (ConflictError _) = ''CONFLICT''"
| "errorCode (RateLimitError _) = ''RATE_LIMITED''"
| "errorCode (BusinessError _ _) = ''BUSINESS_RULE_FAILED''"
| "errorCode (UploadOutcomeUnknownError _) = ''UPLOAD_OUTCOME_UNKNOWN''"

fun errorStatus :: "app_error \<Rightarrow> int" where
  "errorStatus (AuthError _) = 401"
| "errorStatus (ForbiddenError _) = 403"
| "errorStatus (NotFoundError _) = 404"
| "errorStatus (ValidationError _) = 400"
| "errorStatus (ConflictError _) = 409"
| "errorStatus (RateLimitError _) = 429"
| "errorStatus (BusinessError _ s) = s"
| "errorStatus (UploadOutcomeUnknownError _) = 409"

text \<open>A result is an error or a value; a later step runs only after a success.\<close>

type_synonym 'a result = "app_error + 'a"

definition bind_result :: "'a result \<Rightarrow> ('a \<Rightarrow> 'b result) \<Rightarrow> 'b result" where
  "bind_result r k = (case r of Inl e \<Rightarrow> Inl e | Inr x \<Rightarrow> k x)"

lemma bind_result_simps [simp]:
  "bind_result (Inl e) k = Inl e" "bind_result (Inr x) k = k x"
  by (simp_all add: bind_result_def)

lemma bind_result_Inr: "bind_result r k = Inr y \<longleftrightarrow> (\<exists>x. r = Inr x \<and> k x = Inr y)"
  by (cases r) auto

end
