(* ===== verification/Team_Scope.thy ===== *)
theory Team_Scope
  imports Rbac Errors
begin

text \<open>
  Tenant scoping: \<^verbatim>\<open>src/lib/auth/team-scope.ts\<close> and
  \<^verbatim>\<open>src/lib/server/resource-access.ts\<close>.

  A scope function returns a fragment of a Prisma \<open>where\<close> clause.  The fragment is a value
  of \<open>scope\<close> (or \<open>server_scope\<close>, \<open>user_scope\<close>), and an \<open>admits\<close> function says which rows
  the fragment accepts.  What every scope promises its callers is the locale \<open>tenant_scope\<close>:
  outside the "all customers" mode of an administrator only rows of the session's own
  customer are visible.
\<close>

section \<open>Scopes\<close>

definition isGlobalTeamManager :: "session \<Rightarrow> bool" where
  "isGlobalTeamManager s \<longleftrightarrow> ''admin'' \<in> set (roles s)"

definition seesAllCustomers :: "session \<Rightarrow> bool" where
  "seesAllCustomers s \<longleftrightarrow> isGlobalTeamManager s \<and> \<not> truthy (currentTeamId s)"

text \<open>\<open>{}\<close>, \<open>{ teamId }\<close> and \<open>{ id }\<close>.\<close>

datatype scope = AllRows | TeamRows string | IdRows string

fun scope_admits :: "scope \<Rightarrow> string \<Rightarrow> string option \<Rightarrow> bool" where
  "scope_admits AllRows rowId rowTeam = True"
| "scope_admits (TeamRows t) rowId rowTeam = (rowTeam = Some t)"
| "scope_admits (IdRows i) rowId rowTeam = (rowId = i)"

definition no_active_team :: string where
  "no_active_team = ''__no_active_team__''"

definition teamWhere :: "session \<Rightarrow> scope" where
  "teamWhere s =
     (if seesAllCustomers s then AllRows
      else case currentTeamId s of
        Some t \<Rightarrow> if t \<noteq> [] then TeamRows t else TeamRows no_active_team
      | None \<Rightarrow> TeamRows no_active_team)"

text \<open>\<open>{ OR: [{ teamId: null }, { team: { deletedAt: null } }] }\<close> on a row's team and that
  team's deletion time.\<close>

definition liveCustomerRowsWhere :: "string option \<Rightarrow> time option \<Rightarrow> bool" where
  "liveCustomerRowsWhere rowTeam teamDeletedAt \<longleftrightarrow> rowTeam = None \<or> teamDeletedAt = None"

definition strictCustomerScope :: "string \<Rightarrow> session \<Rightarrow> scope" where
  "strictCustomerScope kind s =
     (if seesAllCustomers s then AllRows
      else case currentTeamId s of
        Some t \<Rightarrow> if t \<noteq> [] then TeamRows t
                   else IdRows (''__unassigned_'' @ kind @ ''_require_team_manage__'')
      | None \<Rightarrow> IdRows (''__unassigned_'' @ kind @ ''_require_team_manage__''))"

definition commandRequestTeamWhere :: "session \<Rightarrow> scope" where
  "commandRequestTeamWhere = strictCustomerScope ''command_requests''"

definition syncJobTeamWhere :: "session \<Rightarrow> scope" where
  "syncJobTeamWhere = strictCustomerScope ''sync_jobs''"

definition deploymentRunTeamWhere :: "session \<Rightarrow> scope" where
  "deploymentRunTeamWhere = strictCustomerScope ''deployments''"

definition playbookTeamWhere :: "session \<Rightarrow> scope" where
  "playbookTeamWhere = strictCustomerScope ''playbooks''"

definition imageTeamWhere :: "session \<Rightarrow> scope" where
  "imageTeamWhere = strictCustomerScope ''images''"

definition storageNodeTeamWhere :: "session \<Rightarrow> scope" where
  "storageNodeTeamWhere = strictCustomerScope ''storage_nodes''"

definition shareLinkTeamWhere :: "session \<Rightarrow> scope" where
  "shareLinkTeamWhere = strictCustomerScope ''share_links''"

lemmas strict_scopes = commandRequestTeamWhere_def syncJobTeamWhere_def deploymentRunTeamWhere_def
  playbookTeamWhere_def imageTeamWhere_def storageNodeTeamWhere_def shareLinkTeamWhere_def

section \<open>Servers\<close>

datatype ServerAccessCapability = Read | Connect | Manage | FileRead | FileWrite | FileDelete

record server_access =
  saUserId :: string
  canRead :: bool
  canConnect :: bool
  canManage :: bool
  canFileRead :: bool
  canFileWrite :: bool
  canFileDelete :: bool

datatype server_origin = CUSTOMER | PLATFORM

record server_row =
  srvId :: string
  srvTeamId :: "string option"
  srvEnabled :: bool
  srvOrigin :: server_origin
  srvUserAccess :: "server_access list"

fun SERVER_ACCESS_FIELDS :: "ServerAccessCapability \<Rightarrow> server_access \<Rightarrow> bool" where
  "SERVER_ACCESS_FIELDS Read = canRead"
| "SERVER_ACCESS_FIELDS Connect = canConnect"
| "SERVER_ACCESS_FIELDS Manage = canManage"
| "SERVER_ACCESS_FIELDS FileRead = canFileRead"
| "SERVER_ACCESS_FIELDS FileWrite = canFileWrite"
| "SERVER_ACCESS_FIELDS FileDelete = canFileDelete"

text \<open>No access row of the user, or one that grants the capability.\<close>

definition serverAccessWhere :: "string \<Rightarrow> ServerAccessCapability \<Rightarrow> server_row \<Rightarrow> bool" where
  "serverAccessWhere uid cap r \<longleftrightarrow>
     (\<forall>a \<in> set (srvUserAccess r). saUserId a \<noteq> uid) \<or>
     (\<exists>a \<in> set (srvUserAccess r). saUserId a = uid \<and> SERVER_ACCESS_FIELDS cap a)"

datatype server_scope =
    Servers scope
  | TeamServersWithAccess string string ServerAccessCapability
  | ServersOfOrigin server_scope server_origin

fun server_admits :: "server_scope \<Rightarrow> server_row \<Rightarrow> bool" where
  "server_admits (Servers sc) r = scope_admits sc (srvId r) (srvTeamId r)"
| "server_admits (TeamServersWithAccess t uid cap) r =
     (srvTeamId r = Some t \<and> serverAccessWhere uid cap r)"
| "server_admits (ServersOfOrigin sc origin) r = (server_admits sc r \<and> srvOrigin r = origin)"

definition unassigned_servers :: string where
  "unassigned_servers = ''__unassigned_servers_require_team_manage__''"

definition serverTeamWhere :: "session \<Rightarrow> ServerAccessCapability \<Rightarrow> server_scope" where
  "serverTeamWhere s capability =
     (if seesAllCustomers s then Servers AllRows
      else case currentTeamId s of
        Some t \<Rightarrow>
          if t \<noteq> [] then
            (if isGlobalTeamManager s then Servers (TeamRows t)
             else TeamServersWithAccess t (userId s) capability)
          else Servers (IdRows unassigned_servers)
      | None \<Rightarrow> Servers (IdRows unassigned_servers))"

definition serverProfileTeamWhere :: "session \<Rightarrow> server_scope" where
  "serverProfileTeamWhere s =
     (let scope = serverTeamWhere s Manage
      in if isGlobalTeamManager s then scope else ServersOfOrigin scope CUSTOMER)"

text \<open>The session of \<open>serverOriginData\<close> may lack its fields.\<close>

definition serverOriginData ::
  "string option \<Rightarrow> role_key list option \<Rightarrow> server_origin \<times> string option" where
  "serverOriginData uid rs =
     (let byCustomer = (case rs of None \<Rightarrow> False | Some xs \<Rightarrow> ''admin'' \<notin> set xs)
      in (if byCustomer then CUSTOMER else PLATFORM, uid))"

section \<open>Users\<close>

datatype user_scope = AllUsers | SelfOrTeam string string | SelfOnly string

fun user_admits :: "user_scope \<Rightarrow> string \<Rightarrow> string option \<Rightarrow> bool" where
  "user_admits AllUsers uid memberOf = True"
| "user_admits (SelfOrTeam me t) uid memberOf = (uid = me \<or> memberOf = Some t)"
| "user_admits (SelfOnly me) uid memberOf = (uid = me)"

definition userDirectoryWhere :: "session \<Rightarrow> user_scope" where
  "userDirectoryWhere s =
     (if isGlobalTeamManager s then AllUsers
      else case currentTeamId s of
        Some t \<Rightarrow> if t \<noteq> [] then SelfOrTeam (userId s) t else SelfOnly (userId s)
      | None \<Rightarrow> SelfOnly (userId s))"

text \<open>\<open>members\<close> is the \<open>TeamMember\<close> table: pairs of team and user.\<close>

definition assertUserInActorScope ::
  "(string \<times> string) list \<Rightarrow> session \<Rightarrow> string \<Rightarrow> unit result" where
  "assertUserInActorScope members s uid =
     (if isGlobalTeamManager s then Inr ()
      else if uid = userId s then Inr ()
      else case currentTeamId s of
        None \<Rightarrow> Inl (NotFoundError ''backend.team.userNotFound'')
      | Some t \<Rightarrow>
          if t = [] then Inl (NotFoundError ''backend.team.userNotFound'')
          else if (t, uid) \<in> set members then Inr ()
          else Inl (NotFoundError ''backend.team.userNotFound''))"

definition teamCreateData :: "session \<Rightarrow> string result" where
  "teamCreateData s =
     (case currentTeamId s of
        None \<Rightarrow> Inl (ForbiddenError ''backend.team.activeTeamRequired'')
      | Some t \<Rightarrow> if t = [] then Inl (ForbiddenError ''backend.team.activeTeamRequired'') else Inr t)"

definition teamAccessFilter :: "session \<Rightarrow> scope option" where
  "teamAccessFilter s =
     (if seesAllCustomers s then None
      else case currentTeamId s of
        Some t \<Rightarrow> if t \<noteq> [] then Some (TeamRows t) else Some (TeamRows no_active_team)
      | None \<Rightarrow> Some (TeamRows no_active_team))"

section \<open>The contract of a tenant scope\<close>

text \<open>
  \<open>genuine\<close> excludes the rows whose id or team is one of the sentinels the code uses for
  "match nothing"; no identifier the database generates has that form.
\<close>

locale tenant_scope =
  fixes visible :: "session \<Rightarrow> 'row \<Rightarrow> bool"
    and team_of :: "'row \<Rightarrow> string option"
    and genuine :: "'row \<Rightarrow> bool"
  assumes confined: "\<not> seesAllCustomers s \<Longrightarrow> genuine r \<Longrightarrow> visible s r \<Longrightarrow>
      truthy (currentTeamId s) \<and> team_of r = currentTeamId s"
begin

lemma quarantined: "\<not> seesAllCustomers s \<Longrightarrow> genuine r \<Longrightarrow> team_of r = None \<Longrightarrow> \<not> visible s r"
  using confined by fastforce

lemma isolated:
  assumes "\<not> seesAllCustomers s" "\<not> seesAllCustomers s'" "genuine r"
    and "visible s r" "visible s' r"
  shows "currentTeamId s = currentTeamId s'"
  using assms confined by metis

lemma no_team_sees_nothing:
  "\<not> isGlobalTeamManager s \<Longrightarrow> \<not> truthy (currentTeamId s) \<Longrightarrow> genuine r \<Longrightarrow> \<not> visible s r"
  using confined by (auto simp: seesAllCustomers_def)

lemma listing_confined:
  assumes "\<not> seesAllCustomers s" and "\<forall>r \<in> set rows. genuine r"
  shows "\<forall>r \<in> set (filter (visible s) rows). team_of r = currentTeamId s"
  using assms confined by auto

end

definition genuine_id :: "string \<Rightarrow> bool" where
  "genuine_id i \<longleftrightarrow> take 2 i \<noteq> ''__''"

definition genuine_row :: "string \<times> string option \<Rightarrow> bool" where
  "genuine_row r \<longleftrightarrow> genuine_id (fst r) \<and> (\<forall>t. snd r = Some t \<longrightarrow> genuine_id t)"

definition row_visible :: "(session \<Rightarrow> scope) \<Rightarrow> session \<Rightarrow> string \<times> string option \<Rightarrow> bool" where
  "row_visible sc s r = scope_admits (sc s) (fst r) (snd r)"

lemma sentinel_not_genuine [simp]:
  "\<not> genuine_id no_active_team" "\<not> genuine_id (CHR ''_'' # CHR ''_'' # x)"
  "\<not> genuine_id unassigned_servers"
  by (simp_all add: genuine_id_def no_active_team_def unassigned_servers_def)

interpretation team_rows: tenant_scope "row_visible teamWhere" snd genuine_row
  by unfold_locales
    (auto simp: row_visible_def teamWhere_def genuine_row_def
      split: option.splits if_splits)

interpretation strict_rows: tenant_scope "row_visible (strictCustomerScope kind)" snd genuine_row
  by unfold_locales
    (auto simp: row_visible_def strictCustomerScope_def genuine_row_def
      split: option.splits if_splits)

definition genuine_server :: "server_row \<Rightarrow> bool" where
  "genuine_server r \<longleftrightarrow> genuine_id (srvId r)"

definition server_visible :: "ServerAccessCapability \<Rightarrow> session \<Rightarrow> server_row \<Rightarrow> bool" where
  "server_visible cap s r = server_admits (serverTeamWhere s cap) r"

interpretation servers: tenant_scope "server_visible cap" srvTeamId genuine_server
  by unfold_locales
    (auto simp: server_visible_def serverTeamWhere_def genuine_server_def
      split: option.splits if_splits)

definition profile_visible :: "session \<Rightarrow> server_row \<Rightarrow> bool" where
  "profile_visible s r = server_admits (serverProfileTeamWhere s) r"

interpretation profiles: tenant_scope profile_visible srvTeamId genuine_server
  by unfold_locales
    (auto simp: profile_visible_def serverProfileTeamWhere_def serverTeamWhere_def genuine_server_def
      Let_def split: option.splits if_splits)

section \<open>Lemmas\<close>

lemma teamAccessFilter_teamWhere:
  "teamWhere s = (case teamAccessFilter s of None \<Rightarrow> AllRows | Some sc \<Rightarrow> sc)"
  by (auto simp: teamWhere_def teamAccessFilter_def split: option.splits)

lemma directory_agrees:
  assumes "\<And>t u. (t, u) \<in> set members \<longleftrightarrow> memberOf u = Some t"
  shows "assertUserInActorScope members s uid = Inr () \<longleftrightarrow>
         user_admits (userDirectoryWhere s) uid (memberOf uid)"
  using assms by (auto simp: assertUserInActorScope_def userDirectoryWhere_def split: option.splits)

lemma profile_needs_customer_origin:
  "\<not> isGlobalTeamManager s \<Longrightarrow> profile_visible s r \<Longrightarrow> srvOrigin r = CUSTOMER \<and> server_visible Manage s r"
  by (simp add: profile_visible_def server_visible_def serverProfileTeamWhere_def Let_def)

section \<open>Properties\<close>

definition tenant_scopes :: "(session \<Rightarrow> scope) list" where
  "tenant_scopes =
     [teamWhere, commandRequestTeamWhere, syncJobTeamWhere, deploymentRunTeamWhere,
      playbookTeamWhere, imageTeamWhere, storageNodeTeamWhere, shareLinkTeamWhere]"

lemma tenant_scopes_confined:
  assumes "sc \<in> set tenant_scopes" and "\<not> seesAllCustomers s" and "genuine_row r"
    and "row_visible sc s r"
  shows "truthy (currentTeamId s) \<and> snd r = currentTeamId s"
proof -
  have "sc = teamWhere \<or> (\<exists>kind. sc = strictCustomerScope kind)"
    using assms(1) by (auto simp: tenant_scopes_def strict_scopes)
  then show ?thesis
    using assms(2-4) team_rows.confined strict_rows.confined by blast
qed

text \<open>C6. Customers are isolated from each other: under every tenant scope of the code two sessions
  of different customers (neither an administrator viewing all customers) never both reach one
  record, and neither reaches a record no customer owns; for servers this holds for every
  capability.\<close>

theorem tenant_isolation:
  assumes "\<not> seesAllCustomers s" and "\<not> seesAllCustomers s'"
    and "currentTeamId s \<noteq> currentTeamId s'"
    and "sc \<in> set tenant_scopes" and "genuine_row r" and "genuine_server srv"
  shows "\<not> (row_visible sc s r \<and> row_visible sc s' r)
    \<and> \<not> (server_admits (serverTeamWhere s cap) srv \<and> server_admits (serverTeamWhere s' cap) srv)
    \<and> (snd r = None \<longrightarrow> \<not> row_visible sc s r)
    \<and> (srvTeamId srv = None \<longrightarrow> \<not> server_admits (serverTeamWhere s cap) srv)"
proof (intro conjI)
  show "\<not> (row_visible sc s r \<and> row_visible sc s' r)"
    using tenant_scopes_confined assms by metis
  show "\<not> (server_admits (serverTeamWhere s cap) srv \<and> server_admits (serverTeamWhere s' cap) srv)"
    using servers.isolated [of s s' srv cap] assms by (auto simp: server_visible_def)
  show "snd r = None \<longrightarrow> \<not> row_visible sc s r"
    using tenant_scopes_confined [of sc s r] assms by auto
  show "srvTeamId srv = None \<longrightarrow> \<not> server_admits (serverTeamWhere s cap) srv"
    using servers.quarantined [of s srv cap] assms by (auto simp: server_visible_def)
qed

definition sample_session :: "string \<Rightarrow> string \<Rightarrow> session" where
  "sample_session u t = \<lparr>userId = u, username = u, roles = [''viewer''], mustChangePassword = False,
     currentTeamId = Some t, permissions = Some [''server:read'']\<rparr>"

theorem tenant_isolation_witness:
  "\<not> (row_visible storageNodeTeamWhere (sample_session ''u1'' ''t1'') (''n1'', Some ''t1'')
      \<and> row_visible storageNodeTeamWhere (sample_session ''u2'' ''t2'') (''n1'', Some ''t1''))"
  using tenant_isolation [of "sample_session ''u1'' ''t1''" "sample_session ''u2'' ''t2''"
      storageNodeTeamWhere "(''n1'', Some ''t1'')"
      "\<lparr>srvId = ''s1'', srvTeamId = None, srvEnabled = True, srvOrigin = CUSTOMER, srvUserAccess = []\<rparr>"]
  by (simp add: sample_session_def seesAllCustomers_def isGlobalTeamManager_def tenant_scopes_def
      genuine_row_def genuine_id_def genuine_server_def)

end
