(* ===== verification/Api_Access.thy ===== *)
theory Api_Access
  imports Team_Scope
begin

text \<open>
  API tokens and who may act for whom: \<^verbatim>\<open>src/lib/api-token/service.ts\<close>,
  \<^verbatim>\<open>src/lib/api-token/authorization.ts\<close>, \<^verbatim>\<open>src/lib/auth/bearer-token.ts\<close> and
  \<^verbatim>\<open>src/lib/auth/command-execution-authz.ts\<close>.

  The state is the part of the database these modules read and write.  \<open>digest\<close> (node's
  \<open>createHash\<close>) and the random token are parameters.  The lemmas show that a bearer
  credential never carries more than its owner has, than its scopes say and than its
  customer covers, and that it carries no platform power at all.
\<close>

section \<open>Accounts\<close>

datatype user_status = ACTIVE | DISABLED | PENDING_PASSWORD_RESET

record team_row =
  tmId :: string
  tmDeletedAt :: "time option"

text \<open>A membership with the rows it joins: its team and its identity template.\<close>

record membership =
  mbTeamId :: string
  mbTeamDeletedAt :: "time option"
  mbPermissions :: "string list"

record user_row =
  uId :: string
  uUsername :: string
  uStatus :: user_status
  uMustChangePassword :: bool
  uCurrentTeamId :: "string option"
  uMembership :: "membership option"
  uRoleKeys :: "string list"
  uPasswordHash :: string
  uSessionEpoch :: int

record api_token =
  atId :: string
  atName :: string
  atTokenHash :: string
  atTokenPrefix :: string
  atTokenSuffix :: string
  atScopes :: "string list"
  atExpiresAt :: "time option"
  atLastUsedAt :: "time option"
  atRevokedAt :: "time option"
  atCreatedBy :: string
  atTeamId :: "string option"

record auth_db =
  dbUsers :: "user_row list"
  dbTeams :: "team_row list"
  dbTokens :: "api_token list"

definition find_user :: "auth_db \<Rightarrow> string \<Rightarrow> user_row option" where
  "find_user db i = find_first (\<lambda>u. uId u = i) (dbUsers db)"

definition find_team :: "auth_db \<Rightarrow> string \<Rightarrow> team_row option" where
  "find_team db i = find_first (\<lambda>t. tmId t = i) (dbTeams db)"

definition live_membership :: "user_row \<Rightarrow> membership option" where
  "live_membership u =
     (case uMembership u of
        None \<Rightarrow> None
      | Some m \<Rightarrow> if mbTeamDeletedAt m = None then Some m else None)"

section \<open>Scopes\<close>

definition PUBLIC_TOKEN_SCOPES :: "string list" where
  "PUBLIC_TOKEN_SCOPES = [''status:read'']"

definition tokenAllowsPermission :: "string list \<Rightarrow> permission \<Rightarrow> bool" where
  "tokenAllowsPermission scopes p \<longleftrightarrow>
     p \<in> set scopes \<or> (endsWith p '':read'' \<and> ''read'' \<in> set scopes)"

definition apiTokenScopeAllowedForSession :: "string \<Rightarrow> session \<Rightarrow> bool" where
  "apiTokenScopeAllowedForSession scope s =
     (if scope = ''read'' then True
      else if scope \<in> set PUBLIC_TOKEN_SCOPES then True
      else if scope \<notin> set PERMISSIONS then False
      else sessionHasPermission s scope)"

definition ALLOWED_API_TOKEN_SCOPES :: "string list" where
  "ALLOWED_API_TOKEN_SCOPES =
     [''read'', ''server:read'', ''storage:read'', ''storage:write'', ''storage:delete'',
      ''health:read'', ''status:read'', ''image:read'', ''image:write'']"

definition isAllowedApiTokenScope :: "string \<Rightarrow> bool" where
  "isAllowedApiTokenScope scope \<longleftrightarrow> scope \<in> set ALLOWED_API_TOKEN_SCOPES"

definition normalizeScopes :: "string list option \<Rightarrow> string list result" where
  "normalizeScopes scopes =
     (let normalized = dedup (filter (\<lambda>s. s \<noteq> [])
            (map trim (case scopes of None \<Rightarrow> [''read''] | Some ss \<Rightarrow> ss)));
          invalid = filter (\<lambda>s. \<not> isAllowedApiTokenScope s) normalized
      in if invalid \<noteq> [] then Inl (ValidationError ''backend.api-token.unsupportedScope'')
         else Inr (take 20 (if normalized \<noteq> [] then normalized else [''read''])))"

section \<open>The owner's session\<close>

text \<open>The customer the session acts in: \<open>isAdmin\<close> and \<open>membership\<close> are already known.\<close>

definition tokenOwnerTeam ::
  "auth_db \<Rightarrow> user_row \<Rightarrow> bool \<Rightarrow> string option \<Rightarrow> string option" where
  "tokenOwnerTeam db user isAdmin boundTeamId =
     (if isAdmin then
        (let teamId = (case boundTeamId of Some t \<Rightarrow> Some t | None \<Rightarrow> uCurrentTeamId user);
             team = (if truthy teamId then find_team db (the teamId) else None)
         in case team of
              Some t \<Rightarrow> if tmDeletedAt t = None then teamId else None
            | None \<Rightarrow> None)
      else
        (case live_membership user of
           Some m \<Rightarrow>
             if \<not> truthy boundTeamId \<or> boundTeamId = Some (mbTeamId m)
             then Some (mbTeamId m) else None
         | None \<Rightarrow> None))"

definition loadApiTokenOwnerSession ::
  "auth_db \<Rightarrow> string \<Rightarrow> string option \<Rightarrow> session option" where
  "loadApiTokenOwnerSession db uid boundTeamId =
     (case find_user db uid of
        None \<Rightarrow> None
      | Some user \<Rightarrow>
          if uStatus user = DISABLED \<or> uMustChangePassword user then None
          else
            let rs = filter known_role (uRoleKeys user);
                accountPermissions = getPermissionsFromRoles rs;
                isAdmin = (''admin'' \<in> set rs);
                currentTeam = tokenOwnerTeam db user isAdmin boundTeamId
            in if truthy boundTeamId \<and> currentTeam \<noteq> boundTeamId then None
               else Some \<lparr>userId = uId user, username = uUsername user, roles = rs,
                      mustChangePassword = False, currentTeamId = currentTeam,
                      permissions = Some (resolveSessionPermissions rs accountPermissions
                        (if isAdmin then None
                         else map_option mbPermissions (live_membership user)))\<rparr>)"

definition loadJobOwnerSession :: "auth_db \<Rightarrow> string \<Rightarrow> string option \<Rightarrow> session option" where
  "loadJobOwnerSession db uid teamId =
     (if truthy teamId then loadApiTokenOwnerSession db uid teamId
      else case loadApiTokenOwnerSession db uid None of
        None \<Rightarrow> None
      | Some account \<Rightarrow>
          if ''admin'' \<in> set (roles account) then Some (account\<lparr>currentTeamId := None\<rparr>)
          else Some account)"

definition loadExecutionActor :: "auth_db \<Rightarrow> string option \<Rightarrow> string option \<Rightarrow> session option" where
  "loadExecutionActor db createdBy teamId =
     (if truthy createdBy then loadJobOwnerSession db (the createdBy) teamId else None)"

text \<open>\<open>assertRequesterMayExecuteCommand\<close>: \<open>Inl reason\<close> is \<open>{ ok: false, reason }\<close>.\<close>

definition assertRequesterMayExecuteCommand ::
  "auth_db \<Rightarrow> server_row list \<Rightarrow> string \<Rightarrow> string option \<Rightarrow> string option \<Rightarrow> bool option
     \<Rightarrow> string + unit" where
  "assertRequesterMayExecuteCommand db serverRows requesterId teamId serverId requireExecutePermission =
     (case loadApiTokenOwnerSession db requesterId None of
        None \<Rightarrow> Inl ''command requester is disabled or no longer valid''
      | Some accountSession \<Rightarrow>
          let platformAdmin = sessionHasPermission accountSession ''team:manage''
          in if \<not> platformAdmin \<and> \<not> truthy teamId
             then Inl ''command target has no customer''
             else case loadJobOwnerSession db requesterId teamId of
               None \<Rightarrow> Inl ''command requester is no longer a member of the target team''
             | Some teamSession \<Rightarrow>
                 if requireExecutePermission \<noteq> Some False
                    \<and> \<not> sessionHasPermission teamSession ''command:execute''
                 then Inl (if platformAdmin then ''command requester lacks command:execute permission''
                           else ''command requester lacks command:execute permission in the target team'')
                 else if truthy serverId \<and>
                   find_first (\<lambda>r. srvId r = the serverId \<and> srvEnabled r
                     \<and> server_admits (serverTeamWhere teamSession Connect) r) serverRows = None
                 then Inl ''command target is disabled or no longer accessible to the requester''
                 else Inr ())"

section \<open>Token life cycle\<close>

definition createApiToken ::
  "(string \<Rightarrow> string) \<Rightarrow> string \<Rightarrow> string \<Rightarrow> auth_db \<Rightarrow> string \<Rightarrow> string \<Rightarrow> string
     \<Rightarrow> string list option \<Rightarrow> time option \<Rightarrow> (auth_db \<times> string \<times> api_token) result" where
  "createApiToken digest randomPart newId db uid teamId nm scopes expiresAt =
     (let name = trim nm in
      if name = [] then Inl (ValidationError ''backend.api-token.tokenNameIsRequired'')
      else if teamId = [] then Inl (ForbiddenError ''backend.api-token.activeCustomerRequired'')
      else
        let team = find_team db teamId;
            owner = find_user db uid;
            ownerIsAdmin = (case owner of None \<Rightarrow> False | Some u \<Rightarrow> ''admin'' \<in> set (uRoleKeys u));
            teamLive = (case team of None \<Rightarrow> False | Some t \<Rightarrow> tmDeletedAt t = None);
            ownerInTeam = (case owner of None \<Rightarrow> False
                           | Some u \<Rightarrow> map_option mbTeamId (uMembership u) = Some teamId)
        in if \<not> teamLive \<or> owner = None \<or> (\<not> ownerIsAdmin \<and> \<not> ownerInTeam)
           then Inl (ForbiddenError ''backend.api-token.activeCustomerRequired'')
           else
             let token = ''whr_'' @ randomPart in
             bind_result (normalizeScopes scopes) (\<lambda>ss.
               let record = \<lparr>atId = newId, atName = name, atTokenHash = digest token,
                     atTokenPrefix = take 8 token, atTokenSuffix = drop (length token - 6) token,
                     atScopes = ss, atExpiresAt = expiresAt, atLastUsedAt = None,
                     atRevokedAt = None, atCreatedBy = uid, atTeamId = Some teamId\<rparr>
               in Inr (db\<lparr>dbTokens := dbTokens db @ [record]\<rparr>, token, record)))"

definition revokeApiToken :: "auth_db \<Rightarrow> time \<Rightarrow> string \<Rightarrow> string \<Rightarrow> auth_db result" where
  "revokeApiToken db now uid tokenId =
     (case update_many (\<lambda>t. atId t = tokenId \<and> atCreatedBy t = uid)
             (\<lambda>t. t\<lparr>atRevokedAt := Some now\<rparr>) (dbTokens db) of
        (rows, n) \<Rightarrow>
          if n = 0 then Inl (NotFoundError ''backend.api-token.tokenNotFound'')
          else Inr (db\<lparr>dbTokens := rows\<rparr>))"

definition LAST_USED_AT_TOUCH_MIN_MS :: int where
  "LAST_USED_AT_TOUCH_MIN_MS = 5 * 60 * 1000"

record verified_token =
  vtUserId :: string
  vtTeamId :: string
  vtScopes :: "string list"
  vtTokenId :: string

definition verifyApiToken ::
  "(string \<Rightarrow> string) \<Rightarrow> auth_db \<Rightarrow> time \<Rightarrow> string \<Rightarrow> auth_db \<times> verified_token option" where
  "verifyApiToken digest db now token =
     (case find_first (\<lambda>t. atTokenHash t = digest token) (dbTokens db) of
        None \<Rightarrow> (db, None)
      | Some record \<Rightarrow>
          if atRevokedAt record \<noteq> None \<or> \<not> truthy (atTeamId record) then (db, None)
          else case find_user db (atCreatedBy record) of
            None \<Rightarrow> (db, None)
          | Some creator \<Rightarrow>
              if uStatus creator = DISABLED then (db, None)
              else if (case atExpiresAt record of None \<Rightarrow> False | Some e \<Rightarrow> e \<le> now) then (db, None)
              else
                let lastUsedMs = (case atLastUsedAt record of None \<Rightarrow> 0 | Some l \<Rightarrow> l);
                    db' = (if LAST_USED_AT_TOUCH_MIN_MS \<le> now - lastUsedMs
                           then db\<lparr>dbTokens := fst (update_many (\<lambda>t. atId t = atId record)
                                  (\<lambda>t. t\<lparr>atLastUsedAt := Some now\<rparr>) (dbTokens db))\<rparr>
                           else db)
                in (db', Some \<lparr>vtUserId = atCreatedBy record, vtTeamId = the (atTeamId record),
                              vtScopes = atScopes record, vtTokenId = atId record\<rparr>))"

section \<open>Bearer authentication\<close>

text \<open>
  The authorization header is matched by \<^verbatim>\<open>/^Bearer\s+/i\<close> and its token taken by
  \<^verbatim>\<open>/^Bearer\s+(.+)$/i\<close> and trimmed.  The dot matches no line break, and a value that is
  only white space gives an empty token.
\<close>

definition hasBearerAuthorization :: "string option \<Rightarrow> bool" where
  "hasBearerAuthorization hdr =
     (let h = (case hdr of None \<Rightarrow> [] | Some x \<Rightarrow> x)
      in map ascii_lower (take 6 h) = ''bearer'' \<and> drop 6 h \<noteq> [] \<and> js_space (hd (drop 6 h)))"

definition bearerToken :: "string \<Rightarrow> string" where
  "bearerToken h =
     (let rest = dropWhile js_space (drop 6 h)
      in if CHR 0x0A \<in> set rest \<or> CHR 0x0D \<in> set rest then [] else trim rest)"

definition SAFE_TOKEN_METHODS :: "string list" where
  "SAFE_TOKEN_METHODS = [''GET'', ''HEAD'', ''OPTIONS'']"

record bearer_auth =
  baSession :: session
  baScopes :: "string list"
  baTokenId :: string

text \<open>
  \<open>None\<close> falls back to the session cookie, \<open>Inl\<close> is the response with its status, \<open>Inr\<close> the
  authenticated bearer.
\<close>

definition authenticateBearerForPermissions ::
  "(string \<Rightarrow> string) \<Rightarrow> auth_db \<Rightarrow> time \<Rightarrow> string \<Rightarrow> string option \<Rightarrow> permission list
     \<Rightarrow> auth_db \<times> (int + bearer_auth) option" where
  "authenticateBearerForPermissions digest db now method hdr requiredPermissions =
     (if \<not> hasBearerAuthorization hdr then (db, None)
      else
        let token = bearerToken (the hdr);
            (db', verified) = (if token \<noteq> [] then verifyApiToken digest db now token else (db, None))
        in case verified of
             None \<Rightarrow> (db', Some (Inl 401))
           | Some v \<Rightarrow>
               (case loadApiTokenOwnerSession db' (vtUserId v) (Some (vtTeamId v)) of
                  None \<Rightarrow> (db', Some (Inl 401))
                | Some ownerSession \<Rightarrow>
                    let readOnlyRequest = (map ascii_upper method \<in> set SAFE_TOKEN_METHODS);
                        granted = filter (\<lambda>p. (readOnlyRequest \<or> \<not> endsWith p '':read'')
                            \<and> tokenAllowsPermission (vtScopes v) p
                            \<and> sessionHasPermission ownerSession p) requiredPermissions
                    in if granted = [] then (db', Some (Inl 403))
                       else (db', Some (Inr \<lparr>baSession = ownerSession\<lparr>roles := [],
                                permissions := Some granted\<rparr>,
                              baScopes = vtScopes v, baTokenId = vtTokenId v\<rparr>))))"

definition verifyBearerToken ::
  "(string \<Rightarrow> string) \<Rightarrow> auth_db \<Rightarrow> time \<Rightarrow> string \<Rightarrow> string option \<Rightarrow> permission
     \<Rightarrow> auth_db \<times> bearer_auth option" where
  "verifyBearerToken digest db now method hdr requiredScope =
     (if requiredScope = [] then (db, None)
      else case authenticateBearerForPermissions digest db now method hdr [requiredScope] of
        (db', Some (Inr a)) \<Rightarrow> (db', Some a)
      | (db', _) \<Rightarrow> (db', None))"

section \<open>Lemmas\<close>

lemma endsWith_append: "endsWith s suf \<longleftrightarrow> (\<exists>pre. s = pre @ suf)"
  by (auto simp: endsWith_def) (metis append_take_drop_id)

lemma truthy_eq_some: "truthy x \<Longrightarrow> x = Some (the x)"
  by (cases x) auto

lemma load_owner_SomeE:
  assumes "loadApiTokenOwnerSession db uid b = Some s"
  obtains user where "find_user db uid = Some user" "uStatus user \<noteq> DISABLED"
    "\<not> uMustChangePassword user" "userId s = uId user" "roles s = filter known_role (uRoleKeys user)"
    "permissions s = Some (resolveSessionPermissions (roles s) (getPermissionsFromRoles (roles s))
       (if ''admin'' \<in> set (roles s) then None else map_option mbPermissions (live_membership user)))"
    "currentTeamId s = tokenOwnerTeam db user (''admin'' \<in> set (roles s)) b"
    "truthy b \<longrightarrow> currentTeamId s = b"
proof -
  obtain user where u: "find_user db uid = Some user"
    using assms by (auto simp: loadApiTokenOwnerSession_def split: option.splits)
  note * = assms [unfolded loadApiTokenOwnerSession_def u option.case Let_def]
  from * have ok: "uStatus user \<noteq> DISABLED" "\<not> uMustChangePassword user"
    by (metis option.distinct(1))+
  from * ok show ?thesis
    by (intro that [OF u]) (auto split: if_split_asm)
qed

lemma load_owner_bound_team:
  "loadApiTokenOwnerSession db uid b = Some s \<Longrightarrow> truthy b \<Longrightarrow> currentTeamId s = b"
  by (elim load_owner_SomeE) simp

lemma load_owner_customer_team:
  assumes "loadApiTokenOwnerSession db uid b = Some s" and "''admin'' \<notin> set (roles s)"
  shows "\<exists>user. find_user db uid = Some user \<and>
    (currentTeamId s = None \<or> currentTeamId s = map_option mbTeamId (live_membership user))"
  using assms(2) by (rule_tac load_owner_SomeE [OF assms(1)])
    (auto simp: tokenOwnerTeam_def split: option.splits if_splits)

lemma load_job_bound_team:
  assumes "loadJobOwnerSession db uid b = Some s" and "truthy b"
  shows "currentTeamId s = b"
  using assms by (auto simp: loadJobOwnerSession_def dest: load_owner_bound_team)

lemma load_job_user:
  assumes "loadJobOwnerSession db uid b = Some s"
  obtains user where "find_user db uid = Some user" "uStatus user \<noteq> DISABLED"
    "\<not> uMustChangePassword user" "userId s = uId user" "roles s = filter known_role (uRoleKeys user)"
proof -
  obtain s' where s': "\<exists>b'. loadApiTokenOwnerSession db uid b' = Some s'"
    "userId s = userId s'" "roles s = roles s'"
    using assms by (fastforce simp: loadJobOwnerSession_def split: if_splits option.splits)
  then obtain b' where "loadApiTokenOwnerSession db uid b' = Some s'" by blast
  then show ?thesis
    by (rule load_owner_SomeE) (auto intro: that simp: s'(2,3))
qed

lemma verify_creator:
  assumes "verifyApiToken digest db now token = (db', Some v)"
  obtains tok where "tok \<in> set (dbTokens db)" "atTokenHash tok = digest token"
    "atRevokedAt tok = None" "atTeamId tok = Some (vtTeamId v)" "vtTeamId v \<noteq> []"
    "vtScopes v = atScopes tok" "vtTokenId v = atId tok" "vtUserId v = atCreatedBy tok"
    "\<forall>e. atExpiresAt tok = Some e \<longrightarrow> now < e"
proof -
  from assms obtain tok where r:
    "find_first (\<lambda>t. atTokenHash t = digest token) (dbTokens db) = Some tok"
    "atRevokedAt tok = None" "truthy (atTeamId tok)"
    "\<not> (case atExpiresAt tok of None \<Rightarrow> False | Some e \<Rightarrow> e \<le> now)"
    "v = \<lparr>vtUserId = atCreatedBy tok, vtTeamId = the (atTeamId tok),
       vtScopes = atScopes tok, vtTokenId = atId tok\<rparr>"
    by (auto simp: verifyApiToken_def Let_def split: option.splits if_splits)
  from r(1) have "tok \<in> set (dbTokens db)" "atTokenHash tok = digest token"
    by (auto dest: find_first_Some)
  with r show ?thesis
    by (intro that [of tok]) (auto split: option.splits)
qed

lemma bearer_success:
  assumes "authenticateBearerForPermissions digest db now method hdr req = (db', Some (Inr a))"
  obtains v owner where
    "verifyApiToken digest db now (bearerToken (the hdr)) = (db', Some v)"
    "loadApiTokenOwnerSession db' (vtUserId v) (Some (vtTeamId v)) = Some owner"
    "baSession a = owner\<lparr>roles := [], permissions := Some (filter (\<lambda>p.
        (map ascii_upper method \<in> set SAFE_TOKEN_METHODS \<or> \<not> endsWith p '':read'')
        \<and> tokenAllowsPermission (vtScopes v) p \<and> sessionHasPermission owner p) req)\<rparr>"
    "baScopes a = vtScopes v" "baTokenId a = vtTokenId v"
  using assms
  by (auto simp: authenticateBearerForPermissions_def Let_def
      split: if_splits prod.splits option.splits)

section \<open>Properties\<close>

text \<open>C7. A request authenticated by an API token may do only what the route asked for, the token's
  scopes allow and the owner may do now; it holds no platform power, and on a request that is
  not GET, HEAD or OPTIONS it holds no read permission.\<close>

theorem bearer_permissions_bounded:
  assumes "authenticateBearerForPermissions digest db now method hdr req = (db', Some (Inr a))"
    and "sessionHasPermission (baSession a) p"
  shows "p \<in> set req \<and> tokenAllowsPermission (baScopes a) p
    \<and> p \<notin> set PLATFORM_ONLY_PERMISSIONS
    \<and> (map ascii_upper method \<in> set SAFE_TOKEN_METHODS \<or> \<not> endsWith p '':read'')
    \<and> (\<exists>tok owner. tok \<in> set (dbTokens db) \<and> atTokenHash tok = digest (bearerToken (the hdr))
        \<and> atScopes tok = baScopes a
        \<and> loadApiTokenOwnerSession db' (atCreatedBy tok) (atTeamId tok) = Some owner
        \<and> sessionHasPermission owner p)"
proof (rule bearer_success [OF assms(1)])
  fix v owner
  assume v: "verifyApiToken digest db now (bearerToken (the hdr)) = (db', Some v)"
    and o: "loadApiTokenOwnerSession db' (vtUserId v) (Some (vtTeamId v)) = Some owner"
    and a: "baSession a = owner\<lparr>roles := [], permissions := Some (filter (\<lambda>p.
        (map ascii_upper method \<in> set SAFE_TOKEN_METHODS \<or> \<not> endsWith p '':read'')
        \<and> tokenAllowsPermission (vtScopes v) p \<and> sessionHasPermission owner p) req)\<rparr>"
    and sc: "baScopes a = vtScopes v"
  have np: "p \<notin> set PLATFORM_ONLY_PERMISSIONS"
    using assms(2) by (auto simp: a sessionHasPermission_platform)
  have "p \<in> set req \<and> tokenAllowsPermission (vtScopes v) p \<and> sessionHasPermission owner p
    \<and> (map ascii_upper method \<in> set SAFE_TOKEN_METHODS \<or> \<not> endsWith p '':read'')"
    using assms(2) np by (auto simp: a sessionHasPermission_def split: if_splits)
  moreover obtain tok where "tok \<in> set (dbTokens db)"
    "atTokenHash tok = digest (bearerToken (the hdr))" "atTeamId tok = Some (vtTeamId v)"
    "vtScopes v = atScopes tok" "vtUserId v = atCreatedBy tok"
    using verify_creator [OF v] by metis
  ultimately show ?thesis using np o sc by auto
qed

definition sample_db :: auth_db where
  "sample_db = \<lparr>dbUsers = [\<lparr>uId = ''u1'', uUsername = ''ann'', uStatus = ACTIVE,
       uMustChangePassword = False, uCurrentTeamId = None,
       uMembership = Some \<lparr>mbTeamId = ''t1'', mbTeamDeletedAt = None,
         mbPermissions = [''storage:read'', ''storage:write'']\<rparr>,
       uRoleKeys = [''viewer''], uPasswordHash = ''h'', uSessionEpoch = 0\<rparr>],
     dbTeams = [\<lparr>tmId = ''t1'', tmDeletedAt = None\<rparr>],
     dbTokens = [\<lparr>atId = ''k1'', atName = ''ci'', atTokenHash = ''whr_abc'', atTokenPrefix = ''whr_abc'',
       atTokenSuffix = ''hr_abc'', atScopes = [''read''], atExpiresAt = Some 100,
       atLastUsedAt = None, atRevokedAt = None, atCreatedBy = ''u1'', atTeamId = Some ''t1''\<rparr>]\<rparr>"

definition sample_bearer :: "auth_db \<times> (int + bearer_auth) option" where
  "sample_bearer = authenticateBearerForPermissions (\<lambda>s. s) sample_db 50 ''GET''
     (Some ''Bearer whr_abc'') [''storage:read'', ''storage:write'']"

lemma sample_bearer_eq:
  "sample_bearer = (sample_db, Some (Inr \<lparr>baSession = \<lparr>userId = ''u1'', username = ''ann'', roles = [],
     mustChangePassword = False, currentTeamId = Some ''t1'', permissions = Some [''storage:read'']\<rparr>,
     baScopes = [''read''], baTokenId = ''k1''\<rparr>))"
  by code_simp

theorem bearer_permissions_bounded_witness:
  "\<exists>a. snd sample_bearer = Some (Inr a) \<and> sessionHasPermission (baSession a) ''storage:read''
     \<and> tokenAllowsPermission (baScopes a) ''storage:read''
     \<and> \<not> sessionHasPermission (baSession a) ''storage:write''"
proof -
  let ?a = "\<lparr>baSession = \<lparr>userId = ''u1'', username = ''ann'', roles = [],
     mustChangePassword = False, currentTeamId = Some ''t1'', permissions = Some [''storage:read'']\<rparr>,
     baScopes = [''read''], baTokenId = ''k1''\<rparr>"
  have run: "authenticateBearerForPermissions (\<lambda>s. s) sample_db 50 ''GET''
     (Some ''Bearer whr_abc'') [''storage:read'', ''storage:write''] = (sample_db, Some (Inr ?a))"
    using sample_bearer_eq by (simp only: sample_bearer_def)
  have "sessionHasPermission (baSession ?a) ''storage:read''"
    and "\<not> sessionHasPermission (baSession ?a) ''storage:write''"
    by (simp_all add: sessionHasPermission_def PLATFORM_ONLY_PERMISSIONS_def)
  with bearer_permissions_bounded [OF run this(1)] show ?thesis
    by (auto simp: sample_bearer_eq)
qed

text \<open>C16. A bearer session never leaves the customer its token is bound to: it is never in the "all
  customers" mode, and every record, server included, that a tenant scope lets it reach belongs
  to that customer.\<close>

theorem bearer_tenant_confined:
  assumes "authenticateBearerForPermissions digest db now method hdr req = (db', Some (Inr a))"
  shows "\<exists>tok \<in> set (dbTokens db). atTokenHash tok = digest (bearerToken (the hdr))
    \<and> atRevokedAt tok = None \<and> \<not> seesAllCustomers (baSession a)
    \<and> currentTeamId (baSession a) = atTeamId tok
    \<and> (\<forall>sc \<in> set tenant_scopes. \<forall>r. genuine_row r \<longrightarrow> row_visible sc (baSession a) r \<longrightarrow>
         snd r = atTeamId tok)
    \<and> (\<forall>cap srv. genuine_server srv \<longrightarrow> server_visible cap (baSession a) srv \<longrightarrow>
         srvTeamId srv = atTeamId tok)"
proof (rule bearer_success [OF assms])
  fix v owner
  assume v: "verifyApiToken digest db now (bearerToken (the hdr)) = (db', Some v)"
    and o: "loadApiTokenOwnerSession db' (vtUserId v) (Some (vtTeamId v)) = Some owner"
    and s: "baSession a = owner\<lparr>roles := [], permissions := Some (filter (\<lambda>p.
        (map ascii_upper method \<in> set SAFE_TOKEN_METHODS \<or> \<not> endsWith p '':read'')
        \<and> tokenAllowsPermission (vtScopes v) p \<and> sessionHasPermission owner p) req)\<rparr>"
  have a: "currentTeamId (baSession a) = currentTeamId owner" "roles (baSession a) = []"
    by (simp_all add: s)
  obtain tok where tok: "tok \<in> set (dbTokens db)"
    "atTokenHash tok = digest (bearerToken (the hdr))" "atRevokedAt tok = None"
    "atTeamId tok = Some (vtTeamId v)" "vtTeamId v \<noteq> []"
    using verify_creator [OF v] by metis
  have team: "currentTeamId (baSession a) = atTeamId tok"
    using load_owner_bound_team [OF o] tok a by simp
  have nsee: "\<not> seesAllCustomers (baSession a)"
    using a by (simp add: seesAllCustomers_def isGlobalTeamManager_def)
  have "snd r = atTeamId tok"
    if "sc \<in> set tenant_scopes" "genuine_row r" "row_visible sc (baSession a) r" for sc r
    using tenant_scopes_confined [OF that(1) nsee that(2,3)] team by simp
  moreover have "srvTeamId srv = atTeamId tok"
    if "genuine_server srv" "server_visible cap (baSession a) srv" for cap srv
    using servers.confined [OF nsee that] team by simp
  ultimately show ?thesis using tok team nsee by blast
qed

theorem bearer_tenant_confined_witness:
  "\<exists>a. snd sample_bearer = Some (Inr a) \<and> \<not> seesAllCustomers (baSession a)
     \<and> row_visible teamWhere (baSession a) (''n1'', Some ''t1'')"
proof -
  have run: "authenticateBearerForPermissions (\<lambda>s. s) sample_db 50 ''GET''
     (Some ''Bearer whr_abc'') [''storage:read'', ''storage:write'']
     = (sample_db, Some (Inr (the (case snd sample_bearer of Some (Inr a) \<Rightarrow> Some a))))"
    using sample_bearer_eq by (simp only: sample_bearer_def) simp
  from bearer_tenant_confined [OF run] have "\<not> seesAllCustomers
     (baSession (the (case snd sample_bearer of Some (Inr a) \<Rightarrow> Some a)))" by blast
  then show ?thesis
    by (simp add: sample_bearer_eq row_visible_def teamWhere_def)
qed

text \<open>A token that was created verifies: right after \<open>createApiToken\<close> succeeds (its hash being
  new and its owner not disabled) the returned secret authenticates as its owner, in the
  customer it was created for, with the normalised scopes, until it expires.\<close>

theorem created_token_verifies:
  assumes created: "createApiToken digest rnd newId db uid teamId nm scopes expiresAt = Inr (db', token, tok)"
    and fresh: "\<forall>t \<in> set (dbTokens db). atTokenHash t \<noteq> digest token"
    and owner: "find_user db uid = Some u" "uStatus u \<noteq> DISABLED"
    and valid: "\<forall>e. expiresAt = Some e \<longrightarrow> now < e"
  shows "\<exists>ss. normalizeScopes scopes = Inr ss
    \<and> snd (verifyApiToken digest db' now token) =
        Some \<lparr>vtUserId = uid, vtTeamId = teamId, vtScopes = ss, vtTokenId = newId\<rparr>"
proof -
  from created obtain ss where ss: "normalizeScopes scopes = Inr ss" and ne: "teamId \<noteq> []"
    and db': "db' = db\<lparr>dbTokens := dbTokens db @ [tok]\<rparr>"
    and tok: "atTokenHash tok = digest token" "atRevokedAt tok = None" "atTeamId tok = Some teamId"
      "atCreatedBy tok = uid" "atExpiresAt tok = expiresAt" "atScopes tok = ss" "atId tok = newId"
    by (auto simp: createApiToken_def Let_def bind_result_Inr split: if_splits)
  have "find_first (\<lambda>t. atTokenHash t = digest token) (dbTokens db) = None"
    using fresh by (simp add: find_first_None)
  then have "find_first (\<lambda>t. atTokenHash t = digest token) (dbTokens db') = Some tok"
    using tok(1) by (simp add: db' find_first_append)
  moreover have "find_user db' uid = Some u"
    using owner(1) by (simp add: db' find_user_def)
  moreover have "\<not> (case expiresAt of None \<Rightarrow> False | Some e \<Rightarrow> e \<le> now)"
    using valid by (auto split: option.splits)
  ultimately show ?thesis
    using ss tok ne owner(2) by (simp add: verifyApiToken_def Let_def)
qed

definition sample_created :: "(auth_db \<times> string \<times> api_token) result" where
  "sample_created = createApiToken (\<lambda>s. s) ''xyz123'' ''k2'' sample_db ''u1'' ''t1'' '' deploy ''
     (Some ['' read '', ''storage:read'', ''read'']) (Some 90)"

theorem created_token_verifies_witness:
  "\<exists>db' tok. sample_created = Inr (db', ''whr_xyz123'', tok) \<and>
     snd (verifyApiToken (\<lambda>s. s) db' 60 ''whr_xyz123'') =
       Some \<lparr>vtUserId = ''u1'', vtTeamId = ''t1'', vtScopes = [''read'', ''storage:read''], vtTokenId = ''k2''\<rparr>"
proof -
  have c: "\<exists>db' tok. sample_created = Inr (db', ''whr_xyz123'', tok)"
    by (rule exI [of _ "fst (projr sample_created)"], rule exI [of _ "snd (snd (projr sample_created))"])
      code_simp
  then obtain db' tok where run: "createApiToken (\<lambda>s. s) ''xyz123'' ''k2'' sample_db ''u1'' ''t1'' '' deploy ''
     (Some ['' read '', ''storage:read'', ''read'']) (Some 90) = Inr (db', ''whr_xyz123'', tok)"
    by (auto simp: sample_created_def)
  have ns: "normalizeScopes (Some ['' read '', ''storage:read'', ''read'']) = Inr [''read'', ''storage:read'']"
    by code_simp
  have "\<forall>t \<in> set (dbTokens sample_db). atTokenHash t \<noteq> ''whr_xyz123''"
    by (simp add: sample_db_def)
  moreover have "find_user sample_db ''u1'' = Some (hd (dbUsers sample_db))"
    "uStatus (hd (dbUsers sample_db)) \<noteq> DISABLED"
    by (simp_all add: sample_db_def find_user_def find_first_def)
  ultimately show ?thesis
    using created_token_verifies [OF run, of _ 60] ns run by (auto simp: sample_created_def)
qed

text \<open>Revocation is final and immediate: once \<open>revokeApiToken\<close> succeeds, the token it names
  never verifies again, at any later time, and only its owner could revoke it.\<close>

theorem revoked_token_dead:
  assumes rev: "revokeApiToken db now uid tokenId = Inr db'"
    and keys: "distinct_keys atId (dbTokens db)" "distinct_keys atTokenHash (dbTokens db)"
    and tok: "tok \<in> set (dbTokens db)" "atId tok = tokenId" "atTokenHash tok = digest secret"
  shows "atCreatedBy tok = uid \<and> verifyApiToken digest db' later secret = (db', None)"
proof -
  let ?hit = "\<lambda>t. atId t = tokenId \<and> atCreatedBy t = uid"
  let ?g = "\<lambda>t. if ?hit t then t\<lparr>atRevokedAt := Some now\<rparr> else t"
  from rev have db': "db' = db\<lparr>dbTokens := map ?g (dbTokens db)\<rparr>"
    and "\<exists>t0 \<in> set (dbTokens db). ?hit t0"
    by (auto simp: revokeApiToken_def update_many_pair split: if_splits)
  then obtain t0 where t0: "t0 \<in> set (dbTokens db)" "?hit t0" by blast
  then have own: "atCreatedBy tok = uid"
    using distinct_keys_unique [OF keys(1) tok(1) t0(1)] tok(2) by simp
  have "atRevokedAt t \<noteq> None"
    if "find_first (\<lambda>t. atTokenHash t = digest secret) (dbTokens db') = Some t" for t
  proof -
    from find_first_Some [OF that] obtain r where r: "r \<in> set (dbTokens db)" "t = ?g r"
      and h: "atTokenHash t = digest secret" by (auto simp: db')
    then have "atTokenHash r = atTokenHash tok" using tok(3) by (auto split: if_splits)
    then have "r = tok" using distinct_keys_unique [OF keys(2) r(1) tok(1)] by simp
    with r(2) own tok(2) show ?thesis by simp
  qed
  then show ?thesis
    using own by (auto simp: verifyApiToken_def split: option.splits)
qed

theorem revoked_token_dead_witness:
  "\<exists>db'. revokeApiToken sample_db 40 ''u1'' ''k1'' = Inr db'
     \<and> verifyApiToken (\<lambda>s. s) db' 50 ''whr_abc'' = (db', None)"
proof -
  have "\<exists>db'. revokeApiToken sample_db 40 ''u1'' ''k1'' = Inr db'"
    by (simp add: revokeApiToken_def sample_db_def update_many_def)
  then obtain db' where run: "revokeApiToken sample_db 40 ''u1'' ''k1'' = Inr db'" by blast
  have k: "distinct_keys atId (dbTokens sample_db)" "distinct_keys atTokenHash (dbTokens sample_db)"
    "hd (dbTokens sample_db) \<in> set (dbTokens sample_db)" "atId (hd (dbTokens sample_db)) = ''k1''"
    "atTokenHash (hd (dbTokens sample_db)) = ''whr_abc''"
    by (simp_all add: sample_db_def distinct_keys_def)
  from revoked_token_dead [where digest = "\<lambda>s. s" and secret = "''whr_abc''" and later = 50,
      OF run k] run show ?thesis by blast
qed

lemma may_execute_facts:
  assumes ok: "assertRequesterMayExecuteCommand db srvs req teamId serverId need = Inr ()"
  shows "\<exists>user ses. find_user db req = Some user \<and> uStatus user \<noteq> DISABLED \<and> \<not> uMustChangePassword user
    \<and> loadJobOwnerSession db req teamId = Some ses
    \<and> (need \<noteq> Some False \<longrightarrow> sessionHasPermission ses ''command:execute'')
    \<and> (''admin'' \<notin> set (roles ses) \<longrightarrow> truthy teamId \<and> currentTeamId ses = teamId)
    \<and> (truthy serverId \<longrightarrow> (\<exists>srv \<in> set srvs. srvId srv = the serverId \<and> srvEnabled srv
          \<and> server_visible Connect ses srv
          \<and> (''admin'' \<notin> set (roles ses) \<longrightarrow> genuine_server srv \<longrightarrow> srvTeamId srv = teamId)))"
proof -
  obtain acc where acc: "loadApiTokenOwnerSession db req None = Some acc"
    using ok by (auto simp: assertRequesterMayExecuteCommand_def split: option.splits)
  note o1 = ok [unfolded assertRequesterMayExecuteCommand_def acc option.case Let_def]
  from o1 have g: "sessionHasPermission acc ''team:manage'' \<or> truthy teamId"
    by (auto split: if_splits)
  with o1 obtain ses where ses: "loadJobOwnerSession db req teamId = Some ses"
    by (auto split: option.splits if_splits)
  from o1 g ses have need: "need \<noteq> Some False \<Longrightarrow> sessionHasPermission ses ''command:execute''"
    by (auto split: if_splits)
  from o1 g ses have srv: "truthy serverId \<Longrightarrow> find_first (\<lambda>r. srvId r = the serverId \<and> srvEnabled r
      \<and> server_admits (serverTeamWhere ses Connect) r) srvs \<noteq> None"
    by (auto split: if_splits)
  obtain user where user: "find_user db req = Some user" "uStatus user \<noteq> DISABLED"
    "\<not> uMustChangePassword user" "roles ses = filter known_role (uRoleKeys user)"
    using load_job_user [OF ses] by metis
  have adm: "sessionHasPermission acc ''team:manage'' \<longleftrightarrow> ''admin'' \<in> set (roles ses)"
  proof -
    have "roles acc = filter known_role (uRoleKeys user)"
      using user(1) by (rule_tac load_owner_SomeE [OF acc]) simp
    then show ?thesis
      using user(4) by (simp add: sessionHasPermission_def PLATFORM_ONLY_PERMISSIONS_def)
  qed
  have team: "''admin'' \<notin> set (roles ses) \<Longrightarrow> truthy teamId \<and> currentTeamId ses = teamId"
    using g adm load_job_bound_team [OF ses] by blast
  have "\<exists>srv \<in> set srvs. srvId srv = the serverId \<and> srvEnabled srv \<and> server_visible Connect ses srv
          \<and> (''admin'' \<notin> set (roles ses) \<longrightarrow> genuine_server srv \<longrightarrow> srvTeamId srv = teamId)"
    if "truthy serverId"
  proof -
    from srv [OF that] obtain r where r: "r \<in> set srvs" "srvId r = the serverId" "srvEnabled r"
      "server_visible Connect ses r"
      by (auto simp: server_visible_def find_first_None)
    have "srvTeamId r = teamId" if "''admin'' \<notin> set (roles ses)" "genuine_server r"
      using servers.confined [of ses r Connect] that r(4) team
      by (auto simp: seesAllCustomers_def isGlobalTeamManager_def)
    with r show ?thesis by blast
  qed
  with user ses need team show ?thesis by blast
qed

text \<open>C17. Background work runs a command only with the rights its requester has now: when the check
  passes, the requester's account is enabled and needs no password change, the session it acts
  with holds \<open>command:execute\<close> (where that is required), an account without the admin role acts in
  the command's own customer, and the target server is enabled and reachable for it.\<close>

theorem requester_may_execute_sound:
  assumes ok: "assertRequesterMayExecuteCommand db srvs req teamId serverId need = Inr ()"
  shows "\<exists>user ses. find_user db req = Some user \<and> uStatus user \<noteq> DISABLED \<and> \<not> uMustChangePassword user
    \<and> loadJobOwnerSession db req teamId = Some ses
    \<and> (need \<noteq> Some False \<longrightarrow> sessionHasPermission ses ''command:execute'')
    \<and> (''admin'' \<notin> set (roles ses) \<longrightarrow> truthy teamId \<and> currentTeamId ses = teamId)
    \<and> (truthy serverId \<longrightarrow> (\<exists>srv \<in> set srvs. srvId srv = the serverId \<and> srvEnabled srv
          \<and> server_visible Connect ses srv
          \<and> (''admin'' \<notin> set (roles ses) \<longrightarrow> genuine_server srv \<longrightarrow> srvTeamId srv = teamId)))"
  using ok by (rule may_execute_facts)

definition exec_db :: auth_db where
  "exec_db = sample_db\<lparr>dbUsers := map (\<lambda>u. u\<lparr>uMembership := Some \<lparr>mbTeamId = ''t1'',
     mbTeamDeletedAt = None, mbPermissions = [''command:execute'']\<rparr>\<rparr>) (dbUsers sample_db)\<rparr>"

definition exec_server :: server_row where
  "exec_server = \<lparr>srvId = ''s1'', srvTeamId = Some ''t1'', srvEnabled = True, srvOrigin = PLATFORM,
     srvUserAccess = []\<rparr>"

theorem requester_may_execute_sound_witness:
  "\<exists>ses. loadJobOwnerSession exec_db ''u1'' (Some ''t1'') = Some ses
     \<and> sessionHasPermission ses ''command:execute''"
proof -
  have "assertRequesterMayExecuteCommand exec_db [exec_server] ''u1'' (Some ''t1'') (Some ''s1'') None = Inr ()"
    by code_simp
  from requester_may_execute_sound [OF this] show ?thesis by auto
qed

end
