(* ===== verification/Session.thy ===== *)
theory Session
  imports Api_Access "HOL-Library.Countable"
begin

text \<open>
  Session cookies and pending second-factor tokens: \<^verbatim>\<open>src/lib/auth/session.ts\<close> over the
  primitives of \<^verbatim>\<open>src/lib/auth/hmac-token.ts\<close>.

  Outside the code are HMAC-SHA256 and base64url of JSON: the functions \<open>hmac\<close>,
  \<open>encode\<close> and \<open>decode\<close> of the environment, with \<open>lawful_env\<close> as what the code relies on
  (decoding undoes encoding, and neither an encoded payload nor a signature is empty or
  holds a dot).  The lemmas show when a token authenticates and that a password change, a
  raised session epoch and a missing second factor each stop it.
\<close>

section \<open>Tokens\<close>

text \<open>
  The JSON object in a token: a \<open>SessionPayload\<close> with the envelope's fields; the last four are
  optional in the source.
\<close>

record envelope =
  ePayload :: session
  eIss :: string
  eAud :: string
  eIat :: time
  eExp :: time
  eCfp :: "string option"
  eSep :: "int option"
  ePending2fa :: bool
  eNonce :: "string option"
  eRemember :: bool

record sess_env =
  hmac :: "string \<Rightarrow> string \<Rightarrow> string"
  encode :: "envelope \<Rightarrow> string"
  decode :: "string \<Rightarrow> envelope option"
  sessionSecret :: string
  issuer :: string
  audience :: string
  sessionTtlSeconds :: int
  rememberTtlSeconds :: int

definition lawful_env :: "sess_env \<Rightarrow> bool" where
  "lawful_env env \<longleftrightarrow>
     (\<forall>e. decode env (encode env e) = Some e) \<and>
     (\<forall>e. encode env e \<noteq> [] \<and> CHR ''.'' \<notin> set (encode env e)) \<and>
     (\<forall>p k. hmac env p k \<noteq> [] \<and> CHR ''.'' \<notin> set (hmac env p k))"

datatype session_error = App app_error | JsonSyntaxError

definition signHmacToken :: "sess_env \<Rightarrow> envelope \<Rightarrow> string" where
  "signHmacToken env e =
     (let encodedPayload = encode env e
      in encodedPayload @ ''.'' @ hmac env encodedPayload (sessionSecret env))"

definition verifyHmacTokenSignature :: "sess_env \<Rightarrow> string \<Rightarrow> string \<Rightarrow> bool" where
  "verifyHmacTokenSignature env encodedPayload signature \<longleftrightarrow>
     signature = hmac env encodedPayload (sessionSecret env)"

text \<open>\<open>const [encodedPayload, providedSignature] = token.split(".")\<close>; a missing part is empty here.\<close>

definition token_parts :: "string \<Rightarrow> string \<times> string" where
  "token_parts token =
     (case split_on CHR ''.'' token of
        a # b # _ \<Rightarrow> (a, b) | [a] \<Rightarrow> (a, []) | [] \<Rightarrow> ([], []))"

definition credentialFingerprint :: "sess_env \<Rightarrow> string \<Rightarrow> string" where
  "credentialFingerprint env passwordHash =
     take 22 (hmac env (''session-credential:'' @ passwordHash) (sessionSecret env))"

record credential_binding =
  cbFingerprint :: string
  cbEpoch :: int

definition captureSessionCredentialBinding :: "sess_env \<Rightarrow> user_row \<Rightarrow> credential_binding" where
  "captureSessionCredentialBinding env u =
     \<lparr>cbFingerprint = credentialFingerprint env (uPasswordHash u), cbEpoch = uSessionEpoch u\<rparr>"

definition credentialBindingMatches ::
  "sess_env \<Rightarrow> credential_binding \<Rightarrow> user_row option \<Rightarrow> bool" where
  "credentialBindingMatches env b user =
     (case user of
        None \<Rightarrow> False
      | Some u \<Rightarrow> uStatus u \<noteq> DISABLED
          \<and> cbFingerprint b = credentialFingerprint env (uPasswordHash u)
          \<and> cbEpoch b = uSessionEpoch u)"

text \<open>\<open>binding\<close> is what the weak map holds for the session object, if anything.\<close>

definition assertSessionCredentialBinding ::
  "sess_env \<Rightarrow> credential_binding option \<Rightarrow> user_row \<Rightarrow> unit result" where
  "assertSessionCredentialBinding env binding u =
     (case binding of
        None \<Rightarrow> Inl (AuthError ''backend.auth.sessionCredentialsChanged'')
      | Some b \<Rightarrow>
          if cbFingerprint b \<noteq> credentialFingerprint env (uPasswordHash u)
             \<or> cbEpoch b \<noteq> uSessionEpoch u
          then Inl (AuthError ''backend.auth.sessionCredentialsChanged'')
          else Inr ())"

definition bumpUserSessionEpoch :: "auth_db \<Rightarrow> string \<Rightarrow> auth_db" where
  "bumpUserSessionEpoch db uid =
     db\<lparr>dbUsers := fst (update_many (\<lambda>u. uId u = uid)
          (\<lambda>u. u\<lparr>uSessionEpoch := uSessionEpoch u + 1\<rparr>) (dbUsers db))\<rparr>"

section \<open>Minting and verifying a session\<close>

record token_options =
  toRemember :: bool
  toBinding :: "credential_binding option"
  toExpiresAt :: "time option"

definition token_ttl_ms :: "sess_env \<Rightarrow> time \<Rightarrow> token_options \<Rightarrow> int" where
  "token_ttl_ms env now opts =
     (case toExpiresAt opts of
        Some t \<Rightarrow>
          if t \<noteq> 0 then max 1000 (min (t - now) (rememberTtlSeconds env * 1000))
          else (if toRemember opts then rememberTtlSeconds env else sessionTtlSeconds env) * 1000
      | None \<Rightarrow> (if toRemember opts then rememberTtlSeconds env else sessionTtlSeconds env) * 1000)"

definition sessionEnvelope ::
  "sess_env \<Rightarrow> user_row option \<Rightarrow> time \<Rightarrow> session \<Rightarrow> token_options \<Rightarrow> envelope" where
  "sessionEnvelope env credentialOwner now payload opts =
     \<lparr>ePayload = payload, eIss = issuer env, eAud = audience env, eIat = now,
      eExp = now + token_ttl_ms env now opts,
      eCfp = map_option (\<lambda>u. credentialFingerprint env (uPasswordHash u)) credentialOwner,
      eSep = Some (case credentialOwner of None \<Rightarrow> 0 | Some u \<Rightarrow> uSessionEpoch u),
      ePending2fa = False, eNonce = None, eRemember = False\<rparr>"

definition createSessionToken ::
  "sess_env \<Rightarrow> auth_db \<Rightarrow> time \<Rightarrow> session \<Rightarrow> token_options \<Rightarrow> string result" where
  "createSessionToken env db now payload opts =
     (let credentialOwner = find_user db (userId payload)
      in if (case toBinding opts of None \<Rightarrow> False
             | Some b \<Rightarrow> \<not> credentialBindingMatches env b credentialOwner)
         then Inl (AuthError ''backend.auth.sessionCredentialsChanged'')
         else Inr (signHmacToken env (sessionEnvelope env credentialOwner now payload opts)))"

text \<open>The checks of \<open>verifySessionToken\<close> up to the database read.\<close>

definition sessionEnvelopeOf :: "sess_env \<Rightarrow> time \<Rightarrow> string \<Rightarrow> session_error + envelope" where
  "sessionEnvelopeOf env now token =
     (let (encodedPayload, providedSignature) = token_parts token
      in if encodedPayload = [] \<or> providedSignature = []
         then Inl (App (AuthError ''invalid.session.token.format''))
         else if \<not> verifyHmacTokenSignature env encodedPayload providedSignature
         then Inl (App (AuthError ''invalid.session.token.signature''))
         else case decode env encodedPayload of
           None \<Rightarrow> Inl JsonSyntaxError
         | Some e \<Rightarrow>
             if eIss e \<noteq> issuer env \<or> eAud e \<noteq> audience env
             then Inl (App (AuthError ''invalid.session.token.audience''))
             else if ePending2fa e
             then Inl (App (AuthError ''pending.2fa.token.is.not.a.session''))
             else if eExp e \<le> now
             then Inl (App (AuthError ''session.token.expired''))
             else Inr e)"

definition sessionCurrentTeam :: "auth_db \<Rightarrow> user_row \<Rightarrow> role_key list \<Rightarrow> envelope \<Rightarrow> string option" where
  "sessionCurrentTeam db user rs e =
     (if ''admin'' \<in> set rs then
        (if truthy (currentTeamId (ePayload e)) then
           (case find_team db (the (currentTeamId (ePayload e))) of
              Some t \<Rightarrow> if tmDeletedAt t = None then Some (tmId t) else None
            | None \<Rightarrow> None)
         else None)
      else map_option mbTeamId (live_membership user))"

definition verifySessionToken ::
  "sess_env \<Rightarrow> auth_db \<Rightarrow> time \<Rightarrow> string \<Rightarrow> session_error + (session \<times> credential_binding)" where
  "verifySessionToken env db now token =
     (case sessionEnvelopeOf env now token of
        Inl err \<Rightarrow> Inl err
      | Inr e \<Rightarrow>
          (case find_user db (userId (ePayload e)) of
             None \<Rightarrow> Inl (App (AuthError ''session.user.is.disabled.or.no.longer.exists''))
           | Some user \<Rightarrow>
               if uStatus user = DISABLED
               then Inl (App (AuthError ''session.user.is.disabled.or.no.longer.exists''))
               else if eCfp e \<noteq> Some (credentialFingerprint env (uPasswordHash user))
               then Inl (App (AuthError ''backend.auth.sessionCredentialsChanged''))
               else if (case eSep e of None \<Rightarrow> 0 | Some n \<Rightarrow> n) \<noteq> uSessionEpoch user
               then Inl (App (AuthError ''backend.auth.sessionCredentialsChanged''))
               else
                 let rs = filter known_role (uRoleKeys user);
                     isAdmin = (''admin'' \<in> set rs);
                     s = \<lparr>userId = uId user, username = uUsername user, roles = rs,
                          mustChangePassword = uMustChangePassword user,
                          currentTeamId = sessionCurrentTeam db user rs e,
                          permissions = Some (resolveSessionPermissions rs (getPermissionsFromRoles rs)
                            (if isAdmin then None else map_option mbPermissions (live_membership user)))\<rparr>
                 in Inr (s, captureSessionCredentialBinding env user)))"

text \<open>\<open>sessionTokenExpiresAt\<close> reads the expiry without verifying.\<close>

definition sessionTokenExpiresAt :: "sess_env \<Rightarrow> time \<Rightarrow> string option \<Rightarrow> time option" where
  "sessionTokenExpiresAt env now token =
     (let encodedPayload = fst (token_parts (case token of None \<Rightarrow> [] | Some t \<Rightarrow> t))
      in if encodedPayload = [] then None
         else case decode env encodedPayload of
           None \<Rightarrow> None
         | Some e \<Rightarrow> if now < eExp e then Some (eExp e) else None)"

definition reissueSessionForTeam ::
  "sess_env \<Rightarrow> auth_db \<Rightarrow> time \<Rightarrow> string \<Rightarrow> string option \<Rightarrow> session_error + (string \<times> int)" where
  "reissueSessionForTeam env db now token teamId =
     (case verifySessionToken env db now token of
        Inl err \<Rightarrow> Inl err
      | Inr _ \<Rightarrow>
          let encodedPayload = fst (token_parts token)
          in if encodedPayload = [] then Inl (App (AuthError ''invalid.session.token.format''))
             else case decode env encodedPayload of
               None \<Rightarrow> Inl JsonSyntaxError
             | Some e \<Rightarrow>
                 Inr (signHmacToken env (e\<lparr>ePayload := (ePayload e)\<lparr>currentTeamId := teamId\<rparr>\<rparr>),
                      max 1 (- ((- (eExp e - now)) div 1000))))"

section \<open>Pending second factor\<close>

definition PENDING_2FA_TTL_MS :: int where
  "PENDING_2FA_TTL_MS = 5 * 60 * 1000"

definition pending_audience :: "sess_env \<Rightarrow> string" where
  "pending_audience env = audience env @ ''-pending-2fa''"

definition createPending2faToken ::
  "sess_env \<Rightarrow> auth_db \<Rightarrow> time \<Rightarrow> string \<Rightarrow> session \<Rightarrow> bool \<Rightarrow> credential_binding option
     \<Rightarrow> string result" where
  "createPending2faToken env db now nonce payload remember binding =
     (let owner = find_user db (userId payload) in
      case owner of
        None \<Rightarrow> Inl (AuthError ''backend.auth.sessionCredentialsChanged'')
      | Some user \<Rightarrow>
          if uStatus user = DISABLED
             \<or> (case binding of None \<Rightarrow> False | Some b \<Rightarrow> \<not> credentialBindingMatches env b owner)
          then Inl (AuthError ''backend.auth.sessionCredentialsChanged'')
          else
            let b = captureSessionCredentialBinding env user
            in Inr (signHmacToken env
                 \<lparr>ePayload = payload, eIss = issuer env, eAud = pending_audience env, eIat = now,
                  eExp = now + PENDING_2FA_TTL_MS, eCfp = Some (cbFingerprint b),
                  eSep = Some (cbEpoch b), ePending2fa = True, eNonce = Some nonce,
                  eRemember = remember\<rparr>))"

text \<open>The pending session: the payload without permissions, with the binding it was made for.\<close>

record pending_session =
  psPayload :: session
  psRemember :: bool
  psBinding :: credential_binding

definition verifyPending2faToken ::
  "sess_env \<Rightarrow> auth_db \<Rightarrow> time \<Rightarrow> string \<Rightarrow> pending_session option" where
  "verifyPending2faToken env db now token =
     (let (encodedPayload, providedSignature) = token_parts token
      in if encodedPayload = [] \<or> providedSignature = [] then None
         else if \<not> verifyHmacTokenSignature env encodedPayload providedSignature then None
         else case decode env encodedPayload of
           None \<Rightarrow> None
         | Some e \<Rightarrow>
             if eIss e \<noteq> issuer env \<or> eAud e \<noteq> pending_audience env then None
             else if eExp e \<le> now then None
             else if \<not> ePending2fa e then None
             else (case (eCfp e, eSep e) of
               (Some cfp, Some sep) \<Rightarrow>
                 if \<bar>sep\<bar> > 2 ^ 53 - 1 then None
                 else
                   let b = \<lparr>cbFingerprint = cfp, cbEpoch = sep\<rparr>
                   in if \<not> credentialBindingMatches env b (find_user db (userId (ePayload e))) then None
                      else Some \<lparr>psPayload = (ePayload e)\<lparr>permissions := None\<rparr>,
                             psRemember = eRemember e, psBinding = b\<rparr>
             | _ \<Rightarrow> None))"

section \<open>Lemmas\<close>

lemma token_parts_sign:
  assumes "lawful_env env"
  shows "token_parts (signHmacToken env e) = (encode env e, hmac env (encode env e) (sessionSecret env))"
  using assms
  by (simp add: lawful_env_def signHmacToken_def token_parts_def Let_def split_on_append
      split_on_absent)

lemma sessionEnvelopeOf_sign:
  assumes "lawful_env env"
  shows "sessionEnvelopeOf env now (signHmacToken env e) =
    (if eIss e \<noteq> issuer env \<or> eAud e \<noteq> audience env
     then Inl (App (AuthError ''invalid.session.token.audience''))
     else if ePending2fa e then Inl (App (AuthError ''pending.2fa.token.is.not.a.session''))
     else if eExp e \<le> now then Inl (App (AuthError ''session.token.expired''))
     else Inr e)"
  using assms
  by (simp add: sessionEnvelopeOf_def token_parts_sign verifyHmacTokenSignature_def)
    (simp add: lawful_env_def)

lemma sessionEnvelopeOf_Inr:
  assumes "sessionEnvelopeOf env now token = Inr e"
  shows "decode env (fst (token_parts token)) = Some e
    \<and> snd (token_parts token) = hmac env (fst (token_parts token)) (sessionSecret env)
    \<and> eIss e = issuer env \<and> eAud e = audience env \<and> \<not> ePending2fa e \<and> now < eExp e"
  using assms
  by (auto simp: sessionEnvelopeOf_def verifyHmacTokenSignature_def split: prod.splits if_splits option.splits)

lemma verifySessionToken_Inr:
  assumes "verifySessionToken env db now token = Inr (s, b)"
  obtains e user where "sessionEnvelopeOf env now token = Inr e"
    "find_user db (userId (ePayload e)) = Some user" "uStatus user \<noteq> DISABLED"
    "eCfp e = Some (credentialFingerprint env (uPasswordHash user))"
    "(case eSep e of None \<Rightarrow> 0 | Some n \<Rightarrow> n) = uSessionEpoch user"
    "userId s = uId user" "roles s = filter known_role (uRoleKeys user)"
    "currentTeamId s = sessionCurrentTeam db user (roles s) e"
    "permissions s = Some (resolveSessionPermissions (roles s) (getPermissionsFromRoles (roles s))
       (if ''admin'' \<in> set (roles s) then None else map_option mbPermissions (live_membership user)))"
    "b = captureSessionCredentialBinding env user"
proof -
  obtain e where e: "sessionEnvelopeOf env now token = Inr e"
    using assms by (auto simp: verifySessionToken_def split: sum.splits)
  note o1 = assms [unfolded verifySessionToken_def e sum.case]
  obtain user where u: "find_user db (userId (ePayload e)) = Some user"
    using o1 by (auto split: option.splits)
  note o2 = o1 [unfolded u option.case Let_def]
  have c: "uStatus user \<noteq> DISABLED" "eCfp e = Some (credentialFingerprint env (uPasswordHash user))"
    "(case eSep e of None \<Rightarrow> 0 | Some n \<Rightarrow> n) = uSessionEpoch user"
    using o2 by (auto split: if_split_asm)
  note o3 = o2 [unfolded option.case, simplified c simp_thms if_True if_False]
  show ?thesis
    by (rule that [OF e u c]) (use o3 in auto)
qed

lemma find_user_id: "find_user db i = Some u \<Longrightarrow> uId u = i"
  by (auto simp: find_user_def dest: find_first_Some)

lemma find_first_map:
  "(\<And>x. p (g x) = p x) \<Longrightarrow> find_first p (map g xs) = map_option g (find_first p xs)"
  by (induction xs) (auto simp: find_first_def)

lemma find_user_bump:
  "find_user (bumpUserSessionEpoch db uid) i =
     map_option (\<lambda>u. if uId u = uid then u\<lparr>uSessionEpoch := uSessionEpoch u + 1\<rparr> else u)
       (find_user db i)"
  unfolding find_user_def bumpUserSessionEpoch_def
  by (simp add: table_simps) (rule find_first_map, simp)

section \<open>A concrete environment\<close>

text \<open>
  Witnesses need one lawful environment: payloads are numbered (all types of an envelope are
  countable) and written in unary, signatures are a fixed letter.
\<close>

instance session_ext :: (countable) countable
proof
  have "inj (\<lambda>s :: 'a session_ext. (userId s, username s, roles s, mustChangePassword s,
      currentTeamId s, permissions s, session.more s))"
    by (rule injI) simp
  then show "\<exists>f :: 'a session_ext \<Rightarrow> nat. inj f"
    using inj_compose [OF inj_to_nat] by blast
qed

instance envelope_ext :: (countable) countable
proof
  have "inj (\<lambda>e :: 'a envelope_ext. (ePayload e, eIss e, eAud e, eIat e, eExp e, eCfp e, eSep e,
      ePending2fa e, eNonce e, eRemember e, envelope.more e))"
    by (rule injI) simp
  then show "\<exists>f :: 'a envelope_ext \<Rightarrow> nat. inj f"
    using inj_compose [OF inj_to_nat] by blast
qed

definition unary_env :: sess_env where
  "unary_env = \<lparr>hmac = (\<lambda>p k. ''s''), encode = (\<lambda>e. replicate (Suc (to_nat e)) CHR ''a''),
     decode = (\<lambda>p. Some (from_nat (length p - 1))), sessionSecret = ''k'', issuer = ''app'',
     audience = ''app-console'', sessionTtlSeconds = 604800, rememberTtlSeconds = 2592000\<rparr>"

lemma lawful_unary_env: "lawful_env unary_env"
  by (simp add: lawful_env_def unary_env_def)

definition ann :: session where
  "ann = \<lparr>userId = ''u1'', username = ''ann'', roles = [''viewer''], mustChangePassword = False,
     currentTeamId = None, permissions = None\<rparr>"

definition plain_login :: token_options where
  "plain_login = \<lparr>toRemember = False, toBinding = None, toExpiresAt = None\<rparr>"

definition ann_token :: string where
  "ann_token = signHmacToken unary_env
     (sessionEnvelope unary_env (find_user sample_db ''u1'') 1000 ann plain_login)"

lemma ann_token_created:
  "createSessionToken unary_env sample_db 1000 ann plain_login = Inr ann_token"
  by (simp add: createSessionToken_def ann_token_def plain_login_def ann_def)

lemma find_ann: "find_user sample_db ''u1'' = Some (hd (dbUsers sample_db))"
  "uStatus (hd (dbUsers sample_db)) = ACTIVE"
  by (simp_all add: sample_db_def find_user_def find_first_def)

section \<open>Properties\<close>




lemma ann_verified: "\<exists>s b. verifySessionToken unary_env sample_db 2000 ann_token = Inr (s, b) \<and> userId s = ''u1''"
proof -
  have "sessionEnvelopeOf unary_env 2000 ann_token =
      Inr (sessionEnvelope unary_env (find_user sample_db ''u1'') 1000 ann plain_login)"
    unfolding ann_token_def sessionEnvelopeOf_sign [OF lawful_unary_env]
    by (simp add: sessionEnvelope_def token_ttl_ms_def plain_login_def unary_env_def)
  then show ?thesis
    by (simp add: verifySessionToken_def sessionEnvelope_def ann_def find_ann Let_def)
      (simp add: sample_db_def)
qed


text \<open>C14. "Sign out everywhere" and a password change end every session issued before them: a token
  that verified stops verifying once the account's session epoch is raised, and once its
  password hash has a different fingerprint, however far its expiry is.\<close>

theorem credential_change_ends_sessions:
  assumes ok: "verifySessionToken env db now token = Inr (s, b)"
  shows "(\<exists>err. verifySessionToken env (bumpUserSessionEpoch db (userId s)) later token = Inl err)
    \<and> (\<forall>db' u'. find_user db' (userId s) = Some u' \<longrightarrow>
         credentialFingerprint env (uPasswordHash u') \<noteq> cbFingerprint b \<longrightarrow>
         (\<exists>err. verifySessionToken env db' later token = Inl err))"
proof -
  obtain e user where e: "sessionEnvelopeOf env now token = Inr e"
    and u: "find_user db (userId (ePayload e)) = Some user"
    and c: "eCfp e = Some (credentialFingerprint env (uPasswordHash user))"
    and ep: "(case eSep e of None \<Rightarrow> 0 | Some n \<Rightarrow> n) = uSessionEpoch user"
    and s: "userId s = uId user" and b: "b = captureSessionCredentialBinding env user"
    using verifySessionToken_Inr [OF ok] by metis
  have same: "e' = e" if "sessionEnvelopeOf env later token = Inr e'" for e'
    using sessionEnvelopeOf_Inr [OF e] sessionEnvelopeOf_Inr [OF that] by simp
  have id: "userId (ePayload e) = userId s" using find_user_id [OF u] s by simp
  have cases: "\<exists>err. verifySessionToken env d later token = Inl err"
    if "\<exists>u'. find_user d (userId s) = Some u' \<and> (uSessionEpoch u' \<noteq> uSessionEpoch user \<or>
        credentialFingerprint env (uPasswordHash u') \<noteq> cbFingerprint b)" for d
  proof (cases "verifySessionToken env d later token")
    case (Inr r)
    obtain e' u2 where e': "sessionEnvelopeOf env later token = Inr e'"
      "find_user d (userId (ePayload e')) = Some u2"
      "eCfp e' = Some (credentialFingerprint env (uPasswordHash u2))"
      "(case eSep e' of None \<Rightarrow> 0 | Some n \<Rightarrow> n) = uSessionEpoch u2"
      using verifySessionToken_Inr [of env d later token "fst r" "snd r"] Inr by (metis surjective_pairing)
    then show ?thesis
      using that same [OF e'(1)] id c ep b by (auto simp: captureSessionCredentialBinding_def)
  qed blast
  have "find_user (bumpUserSessionEpoch db (userId s)) (userId s)
      = Some (user\<lparr>uSessionEpoch := uSessionEpoch user + 1\<rparr>)"
    using u id s by (simp add: find_user_bump)
  then show ?thesis using cases by fastforce
qed

theorem credential_change_ends_sessions_witness:
  "\<exists>err. verifySessionToken unary_env (bumpUserSessionEpoch sample_db ''u1'') 3000 ann_token = Inl err"
proof -
  obtain s b where "verifySessionToken unary_env sample_db 2000 ann_token = Inr (s, b)" "userId s = ''u1''"
    using ann_verified by blast
  with credential_change_ends_sessions [OF this(1), of 3000] show ?thesis by simp
qed

text \<open>C15. The second factor cannot be skipped by moving a cookie: a pending-2FA token never verifies
  as a session, and a session token never verifies as a pending login, at any time and in any
  state of the database.\<close>

theorem pending_and_session_disjoint:
  assumes env: "lawful_env env"
  shows "(\<forall>nonce payload remember binding tok. createPending2faToken env db now nonce payload remember binding = Inr tok
            \<longrightarrow> (\<exists>err. verifySessionToken env db' later tok = Inl err))
    \<and> (\<forall>payload opts tok. createSessionToken env db now payload opts = Inr tok
            \<longrightarrow> verifyPending2faToken env db' later tok = None)"
proof (intro conjI allI impI)
  fix nonce payload remember binding tok
  assume "createPending2faToken env db now nonce payload remember binding = Inr tok"
  then obtain e where "tok = signHmacToken env e" "eAud e = pending_audience env"
    by (auto simp: createPending2faToken_def Let_def split: option.splits if_splits)
  then have "\<exists>err. sessionEnvelopeOf env later tok = Inl err"
    by (simp add: sessionEnvelopeOf_sign [OF env] pending_audience_def)
  then show "\<exists>err. verifySessionToken env db' later tok = Inl err"
    by (auto simp: verifySessionToken_def)
next
  fix payload opts tok
  assume "createSessionToken env db now payload opts = Inr tok"
  then obtain e where "tok = signHmacToken env e" "eAud e = audience env"
    by (auto simp: createSessionToken_def sessionEnvelope_def Let_def split: if_splits)
  then show "verifyPending2faToken env db' later tok = None"
    using env by (simp add: verifyPending2faToken_def token_parts_sign pending_audience_def lawful_env_def)
qed

theorem pending_and_session_disjoint_witness:
  "verifyPending2faToken unary_env sample_db 1500 ann_token = None"
  using pending_and_session_disjoint [OF lawful_unary_env, of sample_db 1000] ann_token_created
  by blast

end
