(* ===== verification/Job_Model.thy ===== *)
theory Job_Model
  imports Team_Scope
begin

text \<open>
  The durable job table and its updates: the \<open>Job\<close> model of \<^verbatim>\<open>prisma/schema.prisma\<close>, the types
  of \<^verbatim>\<open>src/lib/job/service-internals.ts\<close> and the event records of
  \<^verbatim>\<open>src/lib/job/events.ts\<close>.

  Every write to the table is a guarded update; the locales say what all of them promise.
  \<open>job_update\<close>: the guard selects only PENDING and RUNNING rows and the new row is well
  formed again.  \<open>fenced_update\<close>: in addition the guard names the worker that holds the job.
\<close>

section \<open>Rows\<close>

datatype job_status = PENDING | RUNNING | COMPLETED | FAILED | CANCELLED

record job =
  jId :: string
  jType :: string
  jTitle :: string
  jPayload :: json
  jStatus :: job_status
  jPriority :: int
  jMaxAttempts :: int
  jAttempts :: int
  jProgress :: "string option"
  jResult :: "json option"
  jErrorMessage :: "string option"
  jCreatedBy :: "string option"
  jTargetStorageNodeId :: "string option"
  jAvailableAt :: time
  jStartedAt :: "time option"
  jCompletedAt :: "time option"
  jCancelledAt :: "time option"
  jWorkerId :: "string option"
  jWorkerHeartbeatAt :: "time option"
  jLeaseExpiresAt :: "time option"
  jCreatedAt :: time
  jUpdatedAt :: time
  jTeamId :: "string option"

definition DEFAULT_LEASE_MS :: int where
  "DEFAULT_LEASE_MS = 5 * 60 * 1000"

definition futureFrom :: "time \<Rightarrow> int \<Rightarrow> time" where
  "futureFrom now ms = now + ms"

section \<open>Events\<close>

datatype event_level = Info | Warn | Error

record job_event_input =
  eiJobId :: string
  eiType :: string
  eiMessage :: string
  eiLevel :: "event_level option"
  eiWorkerId :: "string option"
  eiPayload :: "json option"

record job_event =
  evId :: string
  evJobId :: string
  evType :: string
  evLevel :: event_level
  evMessage :: string
  evWorkerId :: "string option"
  evPayload :: "json option"
  evCreatedAt :: time

text \<open>
  \<open>recordJobEvent\<close> without the database failure it swallows: an input without job, type or
  message is dropped.  The id and the creation time are the database's.
\<close>

definition recordJobEvent :: "string \<Rightarrow> time \<Rightarrow> job_event_input \<Rightarrow> job_event option" where
  "recordJobEvent newId now i =
     (if eiJobId i = [] \<or> eiType i = [] \<or> eiMessage i = [] then None
      else Some \<lparr>evId = newId, evJobId = eiJobId i, evType = eiType i,
        evLevel = (case eiLevel i of None \<Rightarrow> Info | Some l \<Rightarrow> l),
        evMessage = take 2000 (eiMessage i), evWorkerId = eiWorkerId i,
        evPayload = eiPayload i, evCreatedAt = now\<rparr>)"

section \<open>Well-formed jobs\<close>

definition terminal :: "job_status \<Rightarrow> bool" where
  "terminal st \<longleftrightarrow> st = COMPLETED \<or> st = FAILED \<or> st = CANCELLED"

text \<open>
  What the writers keep true of a row: attempts never exceed their limit; a waiting job has
  an attempt left and no owner; a running job has an owner and a lease; a finished job has
  its completion time and no lease.
\<close>

definition job_wf :: "job \<Rightarrow> bool" where
  "job_wf j \<longleftrightarrow>
     0 \<le> jAttempts j \<and> jAttempts j \<le> jMaxAttempts j \<and> 1 \<le> jMaxAttempts j
     \<and> (jStatus j = PENDING \<longrightarrow> jAttempts j < jMaxAttempts j \<and> jWorkerId j = None
          \<and> jWorkerHeartbeatAt j = None \<and> jLeaseExpiresAt j = None \<and> jCompletedAt j = None)
     \<and> (jStatus j = RUNNING \<longrightarrow> 1 \<le> jAttempts j \<and> jWorkerId j \<noteq> None
          \<and> jLeaseExpiresAt j \<noteq> None \<and> jCompletedAt j = None)
     \<and> (terminal (jStatus j) \<longrightarrow> jCompletedAt j \<noteq> None \<and> jLeaseExpiresAt j = None)
     \<and> (jStatus j \<in> {FAILED, CANCELLED} \<longrightarrow> jWorkerId j = None)"

definition jobs_wf :: "job list \<Rightarrow> bool" where
  "jobs_wf jobs \<longleftrightarrow> distinct_keys jId jobs \<and> (\<forall>j \<in> set jobs. job_wf j)"

lemma jobs_wf_distinct: "jobs_wf jobs \<Longrightarrow> distinct_keys jId jobs"
  by (simp add: jobs_wf_def)

lemma jobs_wf_row: "jobs_wf jobs \<Longrightarrow> j \<in> set jobs \<Longrightarrow> job_wf j"
  by (simp add: jobs_wf_def)

lemma jobs_wf_filter: "jobs_wf jobs \<Longrightarrow> jobs_wf (filter p jobs)"
  by (auto simp: jobs_wf_def distinct_keys_filter)

lemma not_terminal: "\<not> terminal st \<longleftrightarrow> st = PENDING \<or> st = RUNNING"
  by (cases st) (auto simp: terminal_def)

section \<open>What every update of the table promises\<close>

text \<open>What no update of a job changes.\<close>

definition same_job :: "job \<Rightarrow> job \<Rightarrow> bool" where
  "same_job j j' \<longleftrightarrow> jId j' = jId j \<and> jType j' = jType j \<and> jTitle j' = jTitle j
     \<and> jPayload j' = jPayload j \<and> jPriority j' = jPriority j \<and> jMaxAttempts j' = jMaxAttempts j
     \<and> jCreatedBy j' = jCreatedBy j \<and> jTargetStorageNodeId j' = jTargetStorageNodeId j
     \<and> jCreatedAt j' = jCreatedAt j \<and> jTeamId j' = jTeamId j \<and> jAttempts j \<le> jAttempts j'"

locale job_update =
  fixes sel :: "job \<Rightarrow> bool" and upd :: "job \<Rightarrow> job"
  assumes sel_live: "sel j \<Longrightarrow> \<not> terminal (jStatus j)"
    and upd_same: "same_job j (upd j)"
    and upd_wf: "sel j \<Longrightarrow> job_wf j \<Longrightarrow> job_wf (upd j)"
begin

lemma upd_id [simp]: "jId (upd j) = jId j"
  using upd_same by (simp add: same_job_def)

lemma row_id: "jId (if sel j then upd j else j) = jId j"
  by simp

lemma wf_preserved: "jobs_wf jobs \<Longrightarrow> jobs_wf (fst (update_many sel upd jobs))"
  by (auto simp: jobs_wf_def table_simps upd_wf distinct_keys_map [of jId, OF row_id])

lemma terminal_untouched:
  assumes "j \<in> set jobs" and "terminal (jStatus j)"
  shows "j \<in> set (fst (update_many sel upd jobs))"
  using assms sel_live by (force simp: table_simps image_iff)

lemma rows_same:
  "list_all2 same_job jobs (fst (update_many sel upd jobs))"
  using upd_same
  by (auto simp: table_simps list_all2_conv_all_nth same_job_def)

end

locale fenced_update = job_update +
  fixes target :: string and worker :: string
  assumes sel_fence: "sel j \<Longrightarrow> jId j = target \<and> jStatus j = RUNNING \<and> jWorkerId j = Some worker"
begin

lemma other_owner_no_effect:
  assumes "\<forall>j \<in> set jobs. jId j = target \<longrightarrow> jWorkerId j \<noteq> Some worker"
  shows "update_many sel upd jobs = (jobs, 0)"
proof -
  have "\<forall>j \<in> set jobs. \<not> sel j" using assms sel_fence by blast
  moreover then have "map (\<lambda>r. if sel r then upd r else r) jobs = jobs"
    by (intro map_idI) auto
  ultimately show ?thesis by (simp add: update_many_pair)
qed

lemma at_most_one: "distinct_keys jId jobs \<Longrightarrow> snd (update_many sel upd jobs) \<le> 1"
  using count_where_key_le_1 [of jId jobs sel target] sel_fence by (simp add: table_simps)

end

end
