(* ===== verification/Job_Lifecycle.thy ===== *)
theory Job_Lifecycle
  imports Job_Model
begin

text \<open>
  \<^verbatim>\<open>src/lib/job/service-lifecycle.ts\<close>: heartbeat, completion, failure with retry, terminal
  failure and cancellation.  Each operation returns the new table, the number of rows it
  changed and the events it records.  Prisma stamps \<open>updatedAt\<close> on every update.

  \<open>failJob\<close> reads the attempt counter in one query and writes in another; \<open>seen\<close> is the table
  at the first, \<open>jobs\<close> at the second, so a claim between the two is expressible.
\<close>

definition MAX_JOB_ERROR_MESSAGE :: nat where
  "MAX_JOB_ERROR_MESSAGE = 2000"

definition owned_by :: "string \<Rightarrow> string \<Rightarrow> job \<Rightarrow> bool" where
  "owned_by jobId worker j \<longleftrightarrow> jId j = jobId \<and> jStatus j = RUNNING \<and> jWorkerId j = Some worker"

section \<open>heartbeatJob\<close>

text \<open>\<open>progress\<close>: \<open>None\<close> is undefined (keep), \<open>Some None\<close> is null.\<close>

definition heartbeat_row :: "time \<Rightarrow> int option \<Rightarrow> string option option \<Rightarrow> job \<Rightarrow> job" where
  "heartbeat_row now leaseMs progress j =
     j\<lparr>jWorkerHeartbeatAt := Some now,
       jLeaseExpiresAt := Some (futureFrom now (case leaseMs of None \<Rightarrow> DEFAULT_LEASE_MS | Some m \<Rightarrow> m)),
       jProgress := (case progress of None \<Rightarrow> jProgress j | Some p \<Rightarrow> p),
       jUpdatedAt := now\<rparr>"

definition heartbeatJob ::
  "string \<Rightarrow> string \<Rightarrow> int option \<Rightarrow> string option option \<Rightarrow> time \<Rightarrow> job list
     \<Rightarrow> job list \<times> nat \<times> job_event_input list" where
  "heartbeatJob jobId worker leaseMs progress now jobs =
     (case update_many (owned_by jobId worker) (heartbeat_row now leaseMs progress) jobs of
        (jobs', n) \<Rightarrow>
          (jobs', n,
           if 0 < n \<and> truthy (case progress of None \<Rightarrow> None | Some p \<Rightarrow> p)
           then [\<lparr>eiJobId = jobId, eiType = ''heartbeat'', eiMessage = the (the progress),
                  eiLevel = None, eiWorkerId = Some worker, eiPayload = None\<rparr>]
           else []))"

section \<open>completeJob\<close>

definition complete_row :: "time \<Rightarrow> json option \<Rightarrow> job \<Rightarrow> job" where
  "complete_row now result j =
     j\<lparr>jStatus := COMPLETED,
       jResult := Some (case result of None \<Rightarrow> JNull | Some r \<Rightarrow> r),
       jCompletedAt := Some now, jWorkerHeartbeatAt := Some now, jLeaseExpiresAt := None,
       jProgress := Some ''100%'', jUpdatedAt := now\<rparr>"

definition completeJob ::
  "string \<Rightarrow> string \<Rightarrow> json option \<Rightarrow> time \<Rightarrow> job list
     \<Rightarrow> job list \<times> nat \<times> job_event_input list" where
  "completeJob jobId worker result now jobs =
     (case update_many (owned_by jobId worker) (complete_row now result) jobs of
        (jobs', n) \<Rightarrow>
          (jobs', n,
           if 0 < n
           then [\<lparr>eiJobId = jobId, eiType = ''completed'', eiMessage = ''Task completed'',
                  eiLevel = None, eiWorkerId = Some worker,
                  eiPayload = (case result of None \<Rightarrow> None
                               | Some r \<Rightarrow> if json_truthy r then Some r else None)\<rparr>]
           else []))"

section \<open>failJob\<close>

definition fail_row :: "bool \<Rightarrow> string \<Rightarrow> int option \<Rightarrow> time \<Rightarrow> job \<Rightarrow> job" where
  "fail_row canRetry message retryAfterMs now j =
     j\<lparr>jStatus := (if canRetry then PENDING else FAILED),
       jErrorMessage := Some message,
       jAvailableAt := (if canRetry
          then futureFrom now (case retryAfterMs of None \<Rightarrow> 30000 | Some m \<Rightarrow> m)
          else jAvailableAt j),
       jCompletedAt := (if canRetry then None else Some now),
       jWorkerId := None, jWorkerHeartbeatAt := None, jLeaseExpiresAt := None,
       jUpdatedAt := now\<rparr>"

definition attempts_payload :: "job \<Rightarrow> json" where
  "attempts_payload j =
     JObj [(''attempts'', JNum (of_int (jAttempts j))), (''maxAttempts'', JNum (of_int (jMaxAttempts j)))]"

definition failJob ::
  "string \<Rightarrow> string \<Rightarrow> string \<Rightarrow> int option \<Rightarrow> time \<Rightarrow> job list \<Rightarrow> job list
     \<Rightarrow> job list \<times> nat \<times> job_event_input list" where
  "failJob jobId worker errorMessage retryAfterMs now seen jobs =
     (case find_first (\<lambda>j. jId j = jobId) seen of
        None \<Rightarrow> (jobs, 0, [])
      | Some job \<Rightarrow>
          let canRetry = (jAttempts job < jMaxAttempts job);
              message = take MAX_JOB_ERROR_MESSAGE errorMessage
          in (case update_many (owned_by jobId worker) (fail_row canRetry message retryAfterMs now) jobs of
                (jobs', n) \<Rightarrow>
                  (jobs', n,
                   if 0 < n
                   then [\<lparr>eiJobId = jobId, eiType = (if canRetry then ''retrying'' else ''failed''),
                          eiMessage = message, eiLevel = Some (if canRetry then Warn else Error),
                          eiWorkerId = Some worker, eiPayload = Some (attempts_payload job)\<rparr>]
                   else [])))"

section \<open>failJobTerminal\<close>

definition fail_terminal_row :: "string \<Rightarrow> time \<Rightarrow> job \<Rightarrow> job" where
  "fail_terminal_row message now j =
     j\<lparr>jStatus := FAILED, jErrorMessage := Some message, jCompletedAt := Some now,
       jWorkerId := None, jWorkerHeartbeatAt := None, jLeaseExpiresAt := None,
       jProgress := None, jUpdatedAt := now\<rparr>"

definition failJobTerminal ::
  "string \<Rightarrow> string \<Rightarrow> string \<Rightarrow> json option \<Rightarrow> time \<Rightarrow> job list
     \<Rightarrow> job list \<times> nat \<times> job_event_input list" where
  "failJobTerminal jobId worker errorMessage result now jobs =
     (let message = take MAX_JOB_ERROR_MESSAGE errorMessage in
      case update_many (owned_by jobId worker) (fail_terminal_row message now) jobs of
        (jobs', n) \<Rightarrow>
          (jobs', n,
           if 0 < n
           then [\<lparr>eiJobId = jobId, eiType = ''failed'', eiMessage = message, eiLevel = Some Error,
                  eiWorkerId = Some worker,
                  eiPayload = (case result of None \<Rightarrow> None
                               | Some r \<Rightarrow> if json_truthy r then Some r else None)\<rparr>]
           else []))"

section \<open>cancelJob\<close>

definition cancel_row :: "time \<Rightarrow> job \<Rightarrow> job" where
  "cancel_row now j =
     j\<lparr>jStatus := CANCELLED, jCancelledAt := Some now, jCompletedAt := Some now, jProgress := None,
       jWorkerId := None, jWorkerHeartbeatAt := None, jLeaseExpiresAt := None, jUpdatedAt := now\<rparr>"

definition cancellable :: "string \<Rightarrow> session \<Rightarrow> job \<Rightarrow> bool" where
  "cancellable jobId s j \<longleftrightarrow>
     jId j = jobId \<and> (jStatus j = PENDING \<or> jStatus j = RUNNING)
     \<and> scope_admits (teamWhere s) (jId j) (jTeamId j)"

definition cancelJob ::
  "string \<Rightarrow> session \<Rightarrow> time \<Rightarrow> job list \<Rightarrow> job list \<times> nat \<times> job_event_input list" where
  "cancelJob jobId s now jobs =
     (case update_many (cancellable jobId s) (cancel_row now) jobs of
        (jobs', n) \<Rightarrow>
          (jobs', n,
           if 0 < n
           then [\<lparr>eiJobId = jobId, eiType = ''cancelled'', eiMessage = ''Task cancelled'',
                  eiLevel = None, eiWorkerId = None, eiPayload = None\<rparr>]
           else []))"

section \<open>The updates keep the contract\<close>

interpretation heartbeat: fenced_update "owned_by jobId worker" "heartbeat_row now leaseMs progress"
  jobId worker
  by unfold_locales
    (auto simp: owned_by_def heartbeat_row_def same_job_def job_wf_def terminal_def)

interpretation complete: fenced_update "owned_by jobId worker" "complete_row now result" jobId worker
  by unfold_locales
    (auto simp: owned_by_def complete_row_def same_job_def job_wf_def terminal_def)

interpretation fail_terminal: fenced_update "owned_by jobId worker" "fail_terminal_row message now"
  jobId worker
  by unfold_locales
    (auto simp: owned_by_def fail_terminal_row_def same_job_def job_wf_def terminal_def)

interpretation fail_final: fenced_update "owned_by jobId worker"
  "fail_row False message retryAfterMs now" jobId worker
  by unfold_locales
    (auto simp: owned_by_def fail_row_def same_job_def job_wf_def terminal_def)

interpretation cancel: job_update "cancellable jobId s" "cancel_row now"
  by unfold_locales
    (auto simp: cancellable_def cancel_row_def same_job_def job_wf_def terminal_def)

text \<open>
  A retry is well formed only while an attempt is left, so its contract holds for the guard
  that includes what \<open>failJob\<close> read.
\<close>

interpretation fail_retry: fenced_update "\<lambda>j. owned_by jobId worker j \<and> jAttempts j < jMaxAttempts j"
  "fail_row True message retryAfterMs now" jobId worker
  by unfold_locales
    (auto simp: owned_by_def fail_row_def same_job_def job_wf_def terminal_def)

lemma fst_lifecycle [table_simps]:
  "fst (heartbeatJob jobId worker leaseMs progress now jobs)
     = fst (update_many (owned_by jobId worker) (heartbeat_row now leaseMs progress) jobs)"
  "fst (completeJob jobId worker result now jobs)
     = fst (update_many (owned_by jobId worker) (complete_row now result) jobs)"
  "fst (failJobTerminal jobId worker message result now jobs)
     = fst (update_many (owned_by jobId worker)
         (fail_terminal_row (take MAX_JOB_ERROR_MESSAGE message) now) jobs)"
  "fst (cancelJob jobId s now jobs) = fst (update_many (cancellable jobId s) (cancel_row now) jobs)"
  by (simp_all add: heartbeatJob_def completeJob_def failJobTerminal_def cancelJob_def
      update_many_pair Let_def)

end
