(* ===== verification/Job_Queue.thy ===== *)
theory Job_Queue
  imports Job_Lifecycle "HOL-Library.Product_Lexorder"
begin

text \<open>
  \<^verbatim>\<open>src/lib/job/service-queue.ts\<close>: enqueueing, and the claim of the next job.

  A claim is one database transaction.  Its row lock (\<open>FOR NO KEY UPDATE OF j SKIP LOCKED\<close>)
  keeps the selected row from changing until the update, and with a concurrency cap an
  advisory lock serialises the whole of it; so it is one step of the table here, and
  \<open>locked\<close> says which rows another transaction holds.
\<close>

section \<open>enqueueJob\<close>

text \<open>\<open>fallback\<close> is the runtime setting \<^verbatim>\<open>jobs.defaultMaxAttempts\<close>.\<close>

definition sanitizeAttempts :: "int \<Rightarrow> jsnum option \<Rightarrow> int" where
  "sanitizeAttempts fallback value =
     (case value of Some (Fin v) \<Rightarrow> max 1 \<lfloor>v\<rfloor> | _ \<Rightarrow> fallback)"

record enqueue_input =
  enType :: string
  enTitle :: string
  enPayload :: "json option"
  enCreatedBy :: "string option"
  enTeamId :: "string option"
  enPriority :: "int option"
  enMaxAttempts :: "jsnum option"
  enAvailableAt :: "time option"
  enTargetStorageNodeId :: "string option"

definition json_opt :: "string option \<Rightarrow> json" where
  "json_opt x = (case x of None \<Rightarrow> JNull | Some s \<Rightarrow> JStr s)"

definition new_job :: "string \<Rightarrow> int \<Rightarrow> enqueue_input \<Rightarrow> time \<Rightarrow> job" where
  "new_job newId fallback input now =
     \<lparr>jId = newId, jType = trim (enType input), jTitle = trim (enTitle input),
      jPayload = (case enPayload input of None \<Rightarrow> JObj [] | Some p \<Rightarrow> p),
      jStatus = PENDING,
      jPriority = (case enPriority input of None \<Rightarrow> 0 | Some p \<Rightarrow> p),
      jMaxAttempts = sanitizeAttempts fallback (enMaxAttempts input),
      jAttempts = 0, jProgress = None, jResult = None, jErrorMessage = None,
      jCreatedBy = enCreatedBy input, jTargetStorageNodeId = enTargetStorageNodeId input,
      jAvailableAt = (case enAvailableAt input of None \<Rightarrow> now | Some t \<Rightarrow> t),
      jStartedAt = None, jCompletedAt = None, jCancelledAt = None, jWorkerId = None,
      jWorkerHeartbeatAt = None, jLeaseExpiresAt = None, jCreatedAt = now, jUpdatedAt = now,
      jTeamId = enTeamId input\<rparr>"

text \<open>\<open>intText\<close> is the decimal rendering of a number in the message.\<close>

definition enqueueJob ::
  "(int \<Rightarrow> string) \<Rightarrow> string \<Rightarrow> int \<Rightarrow> enqueue_input \<Rightarrow> time \<Rightarrow> job list
     \<Rightarrow> job list \<times> job \<times> job_event_input list" where
  "enqueueJob intText newId fallback input now jobs =
     (let job = new_job newId fallback input now in
      (jobs @ [job], job,
       [\<lparr>eiJobId = jId job, eiType = ''enqueued'',
         eiMessage = ''Task enqueued (type='' @ jType job @ '', priority='' @ intText (jPriority job) @ '')'',
         eiLevel = Some Info, eiWorkerId = None,
         eiPayload = Some (JObj [(''type'', JStr (jType job)), (''title'', JStr (jTitle job)),
           (''priority'', JNum (of_int (jPriority job))), (''createdBy'', json_opt (jCreatedBy job))])\<rparr>]))"

section \<open>claimNextJob\<close>

record claim_config =
  maxConcurrentGlobal :: int
  maxConcurrentPerUser :: int
  maxConcurrentPerNode :: int
  priorityAgingSeconds :: int

record claim_options =
  coWorkerId :: string
  coTypes :: "string list option"
  coLeaseMs :: "int option"

definition running_active :: "time \<Rightarrow> job \<Rightarrow> bool" where
  "running_active now j \<longleftrightarrow>
     jStatus j = RUNNING \<and> (jLeaseExpiresAt j = None \<or> null_ge (jLeaseExpiresAt j) now)"

definition claim_due :: "time \<Rightarrow> job \<Rightarrow> bool" where
  "claim_due now j \<longleftrightarrow>
     (jStatus j = PENDING \<and> jAvailableAt j \<le> now)
     \<or> (jStatus j = RUNNING \<and> null_lt (jLeaseExpiresAt j) now)"

definition type_clause :: "string list option \<Rightarrow> job \<Rightarrow> bool" where
  "type_clause types j \<longleftrightarrow> (case types of None \<Rightarrow> True | Some ts \<Rightarrow> ts = [] \<or> jType j \<in> set ts)"

definition active_of_user :: "time \<Rightarrow> string \<Rightarrow> job list \<Rightarrow> nat" where
  "active_of_user now u jobs = count_where (\<lambda>r. running_active now r \<and> jCreatedBy r = Some u) jobs"

definition active_of_node :: "time \<Rightarrow> string \<Rightarrow> job list \<Rightarrow> nat" where
  "active_of_node now n jobs =
     count_where (\<lambda>r. running_active now r \<and> jTargetStorageNodeId r = Some n) jobs"

definition user_budget :: "claim_config \<Rightarrow> time \<Rightarrow> job list \<Rightarrow> job \<Rightarrow> bool" where
  "user_budget cfg now jobs j \<longleftrightarrow>
     (0 < maxConcurrentPerUser cfg \<longrightarrow>
        (case jCreatedBy j of None \<Rightarrow> True
         | Some u \<Rightarrow> int (active_of_user now u jobs) < maxConcurrentPerUser cfg))"

definition node_budget :: "claim_config \<Rightarrow> time \<Rightarrow> job list \<Rightarrow> job \<Rightarrow> bool" where
  "node_budget cfg now jobs j \<longleftrightarrow>
     (0 < maxConcurrentPerNode cfg \<longrightarrow>
        (case jTargetStorageNodeId j of None \<Rightarrow> True
         | Some n \<Rightarrow> int (active_of_node now n jobs) < maxConcurrentPerNode cfg))"

definition claim_eligible ::
  "claim_config \<Rightarrow> claim_options \<Rightarrow> time \<Rightarrow> job list \<Rightarrow> job \<Rightarrow> bool" where
  "claim_eligible cfg opts now jobs j \<longleftrightarrow>
     jAttempts j < jMaxAttempts j \<and> claim_due now j \<and> type_clause (coTypes opts) j
     \<and> user_budget cfg now jobs j \<and> node_budget cfg now jobs j"

text \<open>
  The \<open>ORDER BY\<close>: priority raised by one per ageing period since \<open>availableAt\<close> (first the
  highest), then how many jobs the same team (or, without a team, the same owner) has
  active, then age, then id.
\<close>

definition effective_priority :: "claim_config \<Rightarrow> time \<Rightarrow> job \<Rightarrow> int" where
  "effective_priority cfg now j =
     jPriority j + max (now - jAvailableAt j) 0 div (1000 * max 1 (priorityAgingSeconds cfg))"

definition same_share :: "job \<Rightarrow> job \<Rightarrow> bool" where
  "same_share j r \<longleftrightarrow>
     (jTeamId j \<noteq> None \<and> jTeamId r = jTeamId j)
     \<or> (jTeamId j = None \<and> jTeamId r = None \<and> jCreatedBy r = jCreatedBy j)"

definition claim_key :: "claim_config \<Rightarrow> time \<Rightarrow> job list \<Rightarrow> job \<Rightarrow> int \<times> int \<times> int \<times> int" where
  "claim_key cfg now jobs j =
     (- effective_priority cfg now j,
      int (count_where (\<lambda>r. running_active now r \<and> same_share j r) jobs),
      jAvailableAt j, jCreatedAt j)"

definition claim_le :: "claim_config \<Rightarrow> time \<Rightarrow> job list \<Rightarrow> job \<Rightarrow> job \<Rightarrow> bool" where
  "claim_le cfg now jobs a b \<longleftrightarrow>
     claim_key cfg now jobs a < claim_key cfg now jobs b
     \<or> (claim_key cfg now jobs a = claim_key cfg now jobs b \<and> str_le (jId a) (jId b))"

definition claim_candidate ::
  "claim_config \<Rightarrow> claim_options \<Rightarrow> time \<Rightarrow> (string \<Rightarrow> bool) \<Rightarrow> job list \<Rightarrow> job option" where
  "claim_candidate cfg opts now locked jobs =
     find_first (\<lambda>j. \<not> locked (jId j))
       (sort_by (claim_le cfg now jobs) (filter (claim_eligible cfg opts now jobs) jobs))"

definition claim_row :: "claim_options \<Rightarrow> time \<Rightarrow> time option \<Rightarrow> job \<Rightarrow> job" where
  "claim_row opts now startedAt j =
     j\<lparr>jStatus := RUNNING, jAttempts := jAttempts j + 1,
       jStartedAt := (case startedAt of None \<Rightarrow> Some now | Some t \<Rightarrow> Some t),
       jWorkerId := Some (coWorkerId opts), jWorkerHeartbeatAt := Some now,
       jLeaseExpiresAt := Some (futureFrom now (case coLeaseMs opts of None \<Rightarrow> DEFAULT_LEASE_MS | Some m \<Rightarrow> m)),
       jErrorMessage := None, jUpdatedAt := now\<rparr>"

definition claim_event :: "claim_options \<Rightarrow> job \<Rightarrow> job_event_input" where
  "claim_event opts j =
     \<lparr>eiJobId = jId j, eiType = ''claimed'',
      eiMessage = ''Background executor '' @ coWorkerId opts @ '' claimed task'',
      eiLevel = None, eiWorkerId = Some (coWorkerId opts),
      eiPayload = Some (JObj [(''type'', JStr (jType j)), (''title'', JStr (jTitle j)),
        (''priority'', JNum (of_int (jPriority j))), (''attempts'', JNum (of_int (jAttempts j)))])\<rparr>"

text \<open>The caps counted once more for the selected row; \<open>candidate.createdBy\<close> is a truthiness test.\<close>

definition candidate_over_budget :: "claim_config \<Rightarrow> time \<Rightarrow> job list \<Rightarrow> job \<Rightarrow> bool" where
  "candidate_over_budget cfg now jobs c \<longleftrightarrow>
     (0 < maxConcurrentPerUser cfg \<and> truthy (jCreatedBy c)
        \<and> maxConcurrentPerUser cfg \<le> int (active_of_user now (the (jCreatedBy c)) jobs))
     \<or> (0 < maxConcurrentPerNode cfg \<and> truthy (jTargetStorageNodeId c)
        \<and> maxConcurrentPerNode cfg \<le> int (active_of_node now (the (jTargetStorageNodeId c)) jobs))"

definition claimNextJob ::
  "claim_config \<Rightarrow> claim_options \<Rightarrow> time \<Rightarrow> (string \<Rightarrow> bool) \<Rightarrow> job list
     \<Rightarrow> job list \<times> job option \<times> job_event_input list" where
  "claimNextJob cfg opts now locked jobs =
     (if 0 < maxConcurrentGlobal cfg
         \<and> maxConcurrentGlobal cfg \<le> int (count_where (running_active now) jobs)
      then (jobs, None, [])
      else (case claim_candidate cfg opts now locked jobs of
        None \<Rightarrow> (jobs, None, [])
      | Some row \<Rightarrow> (case find_first (\<lambda>j. jId j = jId row) jobs of
          None \<Rightarrow> (jobs, None, [])
        | Some c \<Rightarrow>
            if candidate_over_budget cfg now jobs c then (jobs, None, [])
            else (case update_many (\<lambda>j. jId j = jId c \<and> claim_due now j)
                         (claim_row opts now (jStartedAt c)) jobs of
              (jobs', n) \<Rightarrow>
                if n = 0 then (jobs', None, [])
                else (case find_first (\<lambda>j. jId j = jId c) jobs' of
                  None \<Rightarrow> (jobs', None, [])
                | Some claimed \<Rightarrow> (jobs', Some claimed, [claim_event opts claimed]))))))"

section \<open>What a claim does\<close>

text \<open>
  The guard of the claim's update does not repeat the attempt limit; the selected row has
  met it in the same transaction.  The contract is stated for the guard with the limit, and
  \<open>claim_success\<close> connects the two.
\<close>

interpretation claim: job_update
  "\<lambda>j. jId j = target \<and> claim_due now j \<and> jAttempts j < jMaxAttempts j"
  "claim_row opts now startedAt"
proof unfold_locales
  fix j
  let ?sel = "jId j = target \<and> claim_due now j \<and> jAttempts j < jMaxAttempts j"
  show "?sel \<Longrightarrow> \<not> terminal (jStatus j)"
    by (auto simp: claim_due_def terminal_def)
  show "same_job j (claim_row opts now startedAt j)"
    by (simp add: same_job_def claim_row_def)
  show "?sel \<Longrightarrow> job_wf j \<Longrightarrow> job_wf (claim_row opts now startedAt j)"
    by (auto simp: job_wf_def claim_row_def terminal_def claim_due_def)
qed

interpretation claim_order: total_comparator "claim_le cfg now jobs"
proof unfold_locales
  fix x y z
  show "claim_le cfg now jobs x y \<or> claim_le cfg now jobs y x"
    using str_le_total [of "jId x" "jId y"]
      less_linear [of "claim_key cfg now jobs x" "claim_key cfg now jobs y"]
    unfolding claim_le_def by argo
  show "claim_le cfg now jobs x y \<Longrightarrow> claim_le cfg now jobs y z \<Longrightarrow> claim_le cfg now jobs x z"
    using str_le_trans [of "jId x" "jId y" "jId z"]
      less_trans [of "claim_key cfg now jobs x" "claim_key cfg now jobs y" "claim_key cfg now jobs z"]
    unfolding claim_le_def by metis
qed

lemma find_by_id:
  assumes "distinct_keys jId jobs" and "j \<in> set jobs"
  shows "find_first (\<lambda>r. jId r = jId j) jobs = Some j"
proof -
  obtain r where r: "find_first (\<lambda>r. jId r = jId j) jobs = Some r"
    using assms(2) find_first_None [of "\<lambda>r. jId r = jId j" jobs] by fastforce
  then have "r = j"
    using assms find_first_Some [OF r] by (auto dest: distinct_keys_unique)
  with r show ?thesis by simp
qed

lemma candidate_eligible:
  assumes "claim_candidate cfg opts now locked jobs = Some c"
  shows "c \<in> set jobs \<and> claim_eligible cfg opts now jobs c \<and> \<not> locked (jId c)"
  using find_first_Some [OF assms [unfolded claim_candidate_def]] by simp

lemma eligible_within_budget:
  "claim_eligible cfg opts now jobs c \<Longrightarrow> \<not> candidate_over_budget cfg now jobs c"
  by (auto simp: claim_eligible_def candidate_over_budget_def user_budget_def node_budget_def)

lemma claim_row_id [simp]: "jId (claim_row opts now startedAt j) = jId j"
  by (simp add: claim_row_def)

lemma same_guard_on_row:
  assumes "distinct_keys jId jobs" and "c \<in> set jobs" and "q c" and "r c"
  shows "update_many (\<lambda>j. jId j = jId c \<and> q j) f jobs
       = update_many (\<lambda>j. jId j = jId c \<and> r j) f jobs"
proof -
  have "(jId j = jId c \<and> q j) = (jId j = jId c \<and> r j)" if "j \<in> set jobs" for j
    using assms that by (metis distinct_keys_unique)
  then show ?thesis by (simp add: update_many_def cong: filter_cong map_cong)
qed

text \<open>Every claim either changes nothing or claims the candidate.\<close>

lemma claim_cases:
  assumes d: "distinct_keys jId jobs"
  shows "claimNextJob cfg opts now locked jobs = (jobs, None, [])
       \<and> (claim_candidate cfg opts now locked jobs = None
          \<or> (0 < maxConcurrentGlobal cfg
             \<and> maxConcurrentGlobal cfg \<le> int (count_where (running_active now) jobs)))
     \<or> (\<exists>c. claim_candidate cfg opts now locked jobs = Some c
          \<and> (0 < maxConcurrentGlobal cfg
             \<longrightarrow> int (count_where (running_active now) jobs) < maxConcurrentGlobal cfg)
          \<and> claimNextJob cfg opts now locked jobs =
             (map (\<lambda>j. if jId j = jId c then claim_row opts now (jStartedAt c) j else j) jobs,
              Some (claim_row opts now (jStartedAt c) c),
              [claim_event opts (claim_row opts now (jStartedAt c) c)]))"
proof (cases "0 < maxConcurrentGlobal cfg
         \<and> maxConcurrentGlobal cfg \<le> int (count_where (running_active now) jobs)")
  case True
  then show ?thesis by (simp add: claimNextJob_def)
next
  case cap: False
  show ?thesis
  proof (cases "claim_candidate cfg opts now locked jobs")
    case None
    with cap show ?thesis by (auto simp: claimNextJob_def)
  next
    case (Some c)
    let ?f = "claim_row opts now (jStartedAt c)"
    let ?jobs' = "map (\<lambda>j. if jId j = jId c then ?f j else j) jobs"
    have c: "c \<in> set jobs" and el: "claim_eligible cfg opts now jobs c"
      using candidate_eligible [OF Some] by auto
    then have due: "claim_due now c" by (simp add: claim_eligible_def)
    have upd: "update_many (\<lambda>j. jId j = jId c \<and> claim_due now j) ?f jobs
             = (?jobs', count_where (\<lambda>j. jId j = jId c) jobs)"
      using same_guard_on_row [OF d c, of "claim_due now" "\<lambda>_. True" ?f] due
      by (simp add: update_many_pair)
    have pos: "count_where (\<lambda>j. jId j = jId c) jobs \<noteq> 0" using c by auto
    have d': "distinct_keys jId ?jobs'"
      using d by (subst distinct_keys_map) auto
    have m': "?f c \<in> set ?jobs'" using c by force
    have found': "find_first (\<lambda>j. jId j = jId c) ?jobs' = Some (?f c)"
      using find_by_id [OF d' m'] by simp
    have nz: "(count_where (\<lambda>j. jId j = jId c) jobs = 0) = False" using pos by simp
    have res: "claimNextJob cfg opts now locked jobs
             = (?jobs', Some (?f c), [claim_event opts (?f c)])"
      by (simp only: claimNextJob_def if_not_P [OF cap] Some find_by_id [OF d c] option.case
          if_not_P [OF eligible_within_budget [OF el]] upd prod.case nz if_False found')
    show ?thesis
      by (intro disjI2 exI [of _ c] conjI Some res) (use cap in auto)
  qed
qed

lemma claim_success:
  assumes d: "distinct_keys jId jobs"
    and r: "claimNextJob cfg opts now locked jobs = (jobs', Some j, evs)"
  obtains c where "claim_candidate cfg opts now locked jobs = Some c"
    and "0 < maxConcurrentGlobal cfg
         \<Longrightarrow> int (count_where (running_active now) jobs) < maxConcurrentGlobal cfg"
    and "jobs' = map (\<lambda>r. if jId r = jId c then claim_row opts now (jStartedAt c) r else r) jobs"
    and "j = claim_row opts now (jStartedAt c) c"
    and "evs = [claim_event opts j]"
  using claim_cases [OF d, of cfg opts now locked] unfolding r by auto

lemma count_after_claim:
  assumes "distinct_keys jId jobs" and "c \<in> set jobs"
  shows "count_where p (map (\<lambda>r. if jId r = jId c then claim_row opts now startedAt r else r) jobs)
       \<le> Suc (count_where p jobs)"
  using count_where_update_one [OF assms, of "claim_row opts now startedAt" p]
  by (simp split: if_splits)

lemma claim_wf:
  assumes wf: "jobs_wf jobs"
  shows "jobs_wf (fst (claimNextJob cfg opts now locked jobs))"
proof -
  have d: "distinct_keys jId jobs" using wf by (rule jobs_wf_distinct)
  have "jobs_wf (map (\<lambda>j. if jId j = jId c then claim_row opts now (jStartedAt c) j else j) jobs)"
    if c: "claim_candidate cfg opts now locked jobs = Some c" for c
  proof -
    have m: "c \<in> set jobs" and el: "claim_eligible cfg opts now jobs c"
      using candidate_eligible [OF c] by auto
    have "update_many (\<lambda>j. jId j = jId c \<and> True) (claim_row opts now (jStartedAt c)) jobs
        = update_many (\<lambda>j. jId j = jId c \<and> (claim_due now j \<and> jAttempts j < jMaxAttempts j))
            (claim_row opts now (jStartedAt c)) jobs"
      using d m by (rule same_guard_on_row) (use el in \<open>simp_all add: claim_eligible_def\<close>)
    from arg_cong [OF this, of fst]
    have "map (\<lambda>j. if jId j = jId c then claim_row opts now (jStartedAt c) j else j) jobs
        = fst (update_many (\<lambda>j. jId j = jId c \<and> claim_due now j \<and> jAttempts j < jMaxAttempts j)
            (claim_row opts now (jStartedAt c)) jobs)"
      by (simp only: table_simps simp_thms)
    then show ?thesis
      using claim.wf_preserved [OF wf, of "jId c" now opts "jStartedAt c"] by (simp only:)
  qed
  then show ?thesis
    using claim_cases [OF d, of cfg opts now locked] wf by fastforce
qed

text \<open>
  C5. The concurrency caps hold after every successful claim: counting the claimed job, no
  more than \<open>maxConcurrentGlobal\<close> jobs are active, no more than \<open>maxConcurrentPerUser\<close> of the
  job's owner and no more than \<open>maxConcurrentPerNode\<close> on its storage node, whenever the cap
  is set.
\<close>

theorem claim_respects_caps:
  assumes d: "distinct_keys jId jobs"
    and r: "claimNextJob cfg opts now locked jobs = (jobs', Some j, evs)"
  shows "(0 < maxConcurrentGlobal cfg
          \<longrightarrow> int (count_where (running_active now) jobs') \<le> maxConcurrentGlobal cfg)
       \<and> (0 < maxConcurrentPerUser cfg \<and> jCreatedBy j = Some u
          \<longrightarrow> int (active_of_user now u jobs') \<le> maxConcurrentPerUser cfg)
       \<and> (0 < maxConcurrentPerNode cfg \<and> jTargetStorageNodeId j = Some n
          \<longrightarrow> int (active_of_node now n jobs') \<le> maxConcurrentPerNode cfg)"
proof (rule claim_success [OF d r])
  fix c
  assume c: "claim_candidate cfg opts now locked jobs = Some c"
    and g: "0 < maxConcurrentGlobal cfg
         \<Longrightarrow> int (count_where (running_active now) jobs) < maxConcurrentGlobal cfg"
    and j': "jobs' = map (\<lambda>r. if jId r = jId c then claim_row opts now (jStartedAt c) r else r) jobs"
    and j: "j = claim_row opts now (jStartedAt c) c"
  have m: "c \<in> set jobs" and el: "claim_eligible cfg opts now jobs c"
    using candidate_eligible [OF c] by auto
  note le = count_after_claim [OF d m, of _ opts now "jStartedAt c", folded j']
  have user: "0 < maxConcurrentPerUser cfg \<Longrightarrow> jCreatedBy j = Some u
      \<Longrightarrow> int (active_of_user now u jobs) < maxConcurrentPerUser cfg"
    and node: "0 < maxConcurrentPerNode cfg \<Longrightarrow> jTargetStorageNodeId j = Some n
      \<Longrightarrow> int (active_of_node now n jobs) < maxConcurrentPerNode cfg"
    using el by (auto simp: claim_eligible_def user_budget_def node_budget_def j claim_row_def)
  show ?thesis
    using g user node le [of "running_active now"]
      le [of "\<lambda>r. running_active now r \<and> jCreatedBy r = Some u"]
      le [of "\<lambda>r. running_active now r \<and> jTargetStorageNodeId r = Some n"]
    unfolding active_of_user_def active_of_node_def by auto
qed

definition sample_input :: "int \<Rightarrow> enqueue_input" where
  "sample_input prio =
     \<lparr>enType = ''backup.run'', enTitle = ''Nightly'', enPayload = None, enCreatedBy = Some ''u1'',
      enTeamId = Some ''t1'', enPriority = Some prio, enMaxAttempts = None, enAvailableAt = None,
      enTargetStorageNodeId = Some ''n1''\<rparr>"

definition sample_job :: "string \<Rightarrow> int \<Rightarrow> job" where
  "sample_job i prio = new_job i 3 (sample_input prio) 1000"

definition sample_config :: claim_config where
  "sample_config = \<lparr>maxConcurrentGlobal = 4, maxConcurrentPerUser = 2, maxConcurrentPerNode = 1,
     priorityAgingSeconds = 60\<rparr>"

definition sample_options :: claim_options where
  "sample_options = \<lparr>coWorkerId = ''w1'', coTypes = Some [''backup.run''], coLeaseMs = None\<rparr>"

theorem claim_respects_caps_witness:
  "int (active_of_node 2000 ''n1''
      (fst (claimNextJob sample_config sample_options 2000 (\<lambda>_. False)
              [sample_job ''a'' 0, sample_job ''b'' 5]))) \<le> 1"
proof -
  let ?jobs = "[sample_job ''a'' 0, sample_job ''b'' 5]"
  let ?r = "claimNextJob sample_config sample_options 2000 (\<lambda>_. False) ?jobs"
  have d: "distinct_keys jId ?jobs" by code_simp
  have s: "fst (snd ?r) = Some (claim_row sample_options 2000 None (sample_job ''b'' 5))"
    by code_simp
  have r: "?r = (fst ?r, Some (claim_row sample_options 2000 None (sample_job ''b'' 5)), snd (snd ?r))"
    using s by (metis prod.collapse)
  have "0 < maxConcurrentPerNode sample_config" and "maxConcurrentPerNode sample_config = 1"
    and "jTargetStorageNodeId (claim_row sample_options 2000 None (sample_job ''b'' 5)) = Some ''n1''"
    by code_simp+
  then show ?thesis using claim_respects_caps [OF d r] by metis
qed

definition active_of_share :: "time \<Rightarrow> job list \<Rightarrow> job \<Rightarrow> nat" where
  "active_of_share now jobs j = count_where (\<lambda>r. running_active now r \<and> same_share j r) jobs"

lemma claim_le_order:
  "claim_le cfg now jobs c k \<Longrightarrow>
     effective_priority cfg now k \<le> effective_priority cfg now c
     \<and> (effective_priority cfg now k = effective_priority cfg now c \<longrightarrow>
          active_of_share now jobs c \<le> active_of_share now jobs k
          \<and> (active_of_share now jobs c = active_of_share now jobs k \<longrightarrow> jAvailableAt c \<le> jAvailableAt k))"
  by (auto simp: claim_le_def claim_key_def active_of_share_def)

text \<open>
  C10. The claimed job is the best one there is: it was eligible and not locked by another
  claim, and every other unlocked eligible job comes no earlier in the queue's order (aged
  priority, then the fair share of its team, then age).
\<close>

theorem claim_takes_best:
  assumes d: "distinct_keys jId jobs"
    and r: "claimNextJob cfg opts now locked jobs = (jobs', Some j, evs)"
  shows "\<exists>c \<in> set jobs. jId c = jId j \<and> \<not> locked (jId c) \<and> claim_eligible cfg opts now jobs c
       \<and> (\<forall>k \<in> set jobs. claim_eligible cfg opts now jobs k \<and> \<not> locked (jId k)
            \<longrightarrow> claim_le cfg now jobs c k
              \<and> effective_priority cfg now k \<le> effective_priority cfg now c
              \<and> (effective_priority cfg now k = effective_priority cfg now c \<longrightarrow>
                   active_of_share now jobs c \<le> active_of_share now jobs k
                   \<and> (active_of_share now jobs c = active_of_share now jobs k
                        \<longrightarrow> jAvailableAt c \<le> jAvailableAt k)))"
proof (rule claim_success [OF d r])
  fix c
  assume c: "claim_candidate cfg opts now locked jobs = Some c"
    and j: "j = claim_row opts now (jStartedAt c) c"
  let ?sorted = "sort_by (claim_le cfg now jobs) (filter (claim_eligible cfg opts now jobs) jobs)"
  have least: "claim_le cfg now jobs c k" if "k \<in> set jobs"
    "claim_eligible cfg opts now jobs k" "\<not> locked (jId k)" for k
  proof (rule first_found_least [where p = "\<lambda>j. \<not> locked (jId j)" and xs = ?sorted])
    show "find_first (\<lambda>j. \<not> locked (jId j)) ?sorted = Some c"
      using c by (simp add: claim_candidate_def)
    show "sorted_wrt (claim_le cfg now jobs) ?sorted" by (rule claim_order.sorted_sort_by)
    show "k \<in> set ?sorted" using that by simp
    show "\<not> locked (jId k)" using that by simp
    show "claim_le cfg now jobs c c" using claim_order.total by blast
  qed
  show ?thesis
    using candidate_eligible [OF c] least claim_le_order [OF least]
    by (intro bexI [of _ c]) (auto simp: j)
qed

theorem claim_takes_best_witness:
  "\<exists>c \<in> set [sample_job ''a'' 0, sample_job ''b'' 5]. jId c = ''b''
     \<and> (\<forall>k \<in> set [sample_job ''a'' 0, sample_job ''b'' 5].
          claim_eligible sample_config sample_options 2000 [sample_job ''a'' 0, sample_job ''b'' 5] k
          \<longrightarrow> claim_le sample_config 2000 [sample_job ''a'' 0, sample_job ''b'' 5] c k)"
proof -
  let ?jobs = "[sample_job ''a'' 0, sample_job ''b'' 5]"
  let ?r = "claimNextJob sample_config sample_options 2000 (\<lambda>_. False) ?jobs"
  let ?j = "claim_row sample_options 2000 None (sample_job ''b'' 5)"
  have d: "distinct_keys jId ?jobs" by code_simp
  have s: "fst (snd ?r) = Some ?j" by code_simp
  have r: "?r = (fst ?r, Some ?j, snd (snd ?r))" using s by (metis prod.collapse)
  have i: "jId ?j = ''b''" by code_simp
  show ?thesis using claim_takes_best [OF d r] unfolding i by blast
qed

text \<open>
  C11. Work is never stuck behind other work: while the global cap leaves room, a claim
  succeeds as soon as one unlocked job is eligible, whatever stands before it in the queue.
  The claimed job runs under the claiming worker with a fresh lease and one attempt more.
\<close>

theorem claim_live:
  assumes d: "distinct_keys jId jobs"
    and cap: "maxConcurrentGlobal cfg \<le> 0
      \<or> int (count_where (running_active now) jobs) < maxConcurrentGlobal cfg"
    and k: "k \<in> set jobs" "claim_eligible cfg opts now jobs k" "\<not> locked (jId k)"
  shows "\<exists>jobs' c j evs. claimNextJob cfg opts now locked jobs = (jobs', Some j, evs)
       \<and> c \<in> set jobs \<and> jId c = jId j \<and> j \<in> set jobs' \<and> jStatus j = RUNNING
       \<and> jWorkerId j = Some (coWorkerId opts) \<and> jAttempts j = jAttempts c + 1
       \<and> jAttempts j \<le> jMaxAttempts j
       \<and> jLeaseExpiresAt j
           = Some (now + (case coLeaseMs opts of None \<Rightarrow> DEFAULT_LEASE_MS | Some m \<Rightarrow> m))"
proof -
  have ne: "claim_candidate cfg opts now locked jobs \<noteq> None"
    using k by (auto simp: claim_candidate_def find_first_None)
  have "\<not> (0 < maxConcurrentGlobal cfg
             \<and> maxConcurrentGlobal cfg \<le> int (count_where (running_active now) jobs))"
    using cap by auto
  with ne obtain c where c: "claim_candidate cfg opts now locked jobs = Some c"
    and r: "claimNextJob cfg opts now locked jobs =
             (map (\<lambda>j. if jId j = jId c then claim_row opts now (jStartedAt c) j else j) jobs,
              Some (claim_row opts now (jStartedAt c) c),
              [claim_event opts (claim_row opts now (jStartedAt c) c)])"
    using claim_cases [OF d, of cfg opts now locked] by auto
  have m: "c \<in> set jobs" and el: "claim_eligible cfg opts now jobs c"
    using candidate_eligible [OF c] by auto
  have in': "claim_row opts now (jStartedAt c) c
      \<in> set (map (\<lambda>j. if jId j = jId c then claim_row opts now (jStartedAt c) j else j) jobs)"
    using m by force
  show ?thesis
    by (rule exI, rule exI [of _ c], rule exI, rule exI, intro conjI, rule r, rule m, simp,
        rule in')
      (use el in \<open>simp_all add: claim_row_def claim_eligible_def futureFrom_def\<close>)
qed

theorem claim_live_witness:
  "fst (snd (claimNextJob sample_config sample_options 2000 (\<lambda>i. i = ''b'')
      [sample_job ''a'' 0, sample_job ''b'' 5])) \<noteq> None"
proof -
  let ?jobs = "[sample_job ''a'' 0, sample_job ''b'' 5]"
  have d: "distinct_keys jId ?jobs" by code_simp
  have cap: "maxConcurrentGlobal sample_config \<le> 0
      \<or> int (count_where (running_active 2000) ?jobs) < maxConcurrentGlobal sample_config"
    by code_simp
  have k: "sample_job ''a'' 0 \<in> set ?jobs"
    "claim_eligible sample_config sample_options 2000 ?jobs (sample_job ''a'' 0)"
    "\<not> (\<lambda>i. i = ''b'') (jId (sample_job ''a'' 0))"
    by (simp, code_simp, code_simp)
  show ?thesis using claim_live [where locked = "\<lambda>i. i = ''b''", OF d cap k] by auto
qed

text \<open>
  C9. Fencing: once another worker has claimed a job, nothing the previous worker still
  sends changes the table - neither a heartbeat nor a result, a failure or a terminal
  failure - and none of them records an event.
\<close>

theorem claim_fences_previous_worker:
  assumes d: "distinct_keys jId jobs"
    and r: "claimNextJob cfg opts now locked jobs = (jobs', Some j, evs)"
    and w: "old \<noteq> coWorkerId opts"
  shows "heartbeatJob (jId j) old leaseMs progress later jobs' = (jobs', 0, [])
       \<and> completeJob (jId j) old result later jobs' = (jobs', 0, [])
       \<and> failJob (jId j) old message retryAfterMs later seen jobs' = (jobs', 0, [])
       \<and> failJobTerminal (jId j) old message result later jobs' = (jobs', 0, [])"
proof (rule claim_success [OF d r])
  fix c
  assume j': "jobs' = map (\<lambda>r. if jId r = jId c then claim_row opts now (jStartedAt c) r else r) jobs"
    and j: "j = claim_row opts now (jStartedAt c) c"
  have o: "\<forall>r \<in> set jobs'. jId r = jId j \<longrightarrow> jWorkerId r \<noteq> Some old"
    using w by (auto simp: j' j claim_row_def)
  have none: "update_many (owned_by (jId j) old) f jobs' = (jobs', 0)" for f
    using o by (auto simp: update_many_def owned_by_def intro!: map_idI)
  show ?thesis
    using heartbeat.other_owner_no_effect [OF o] complete.other_owner_no_effect [OF o]
      fail_terminal.other_owner_no_effect [OF o]
    by (simp add: heartbeatJob_def completeJob_def failJob_def failJobTerminal_def none Let_def
        split: option.split)
qed

theorem claim_fences_previous_worker_witness:
  "completeJob ''b'' ''w0'' None 3000
     (fst (claimNextJob sample_config sample_options 2000 (\<lambda>_. False) [sample_job ''b'' 5]))
   = (fst (claimNextJob sample_config sample_options 2000 (\<lambda>_. False) [sample_job ''b'' 5]), 0, [])"
proof -
  let ?jobs = "[sample_job ''b'' 5]"
  let ?r = "claimNextJob sample_config sample_options 2000 (\<lambda>_. False) ?jobs"
  let ?j = "claim_row sample_options 2000 None (sample_job ''b'' 5)"
  have d: "distinct_keys jId ?jobs" by code_simp
  have s: "fst (snd ?r) = Some ?j" by code_simp
  have r: "?r = (fst ?r, Some ?j, snd (snd ?r))" using s by (metis prod.collapse)
  have w: "''w0'' \<noteq> coWorkerId sample_options" by code_simp
  have i: "jId ?j = ''b''" by code_simp
  show ?thesis using claim_fences_previous_worker [OF d r w] unfolding i by blast
qed

end
