(* ===== verification/Job_Maintenance.thy ===== *)
theory Job_Maintenance
  imports Job_Queue
begin

text \<open>
  \<^verbatim>\<open>src/lib/job/service-maintenance.ts\<close>: recovery of running jobs whose lease or heartbeat
  expired, and the three prunings of finished jobs.

  Recovery reads the stale rows page by page and updates them afterwards, under a guard that
  repeats the staleness.  \<open>seen\<close> is the table the pages were read from, \<open>jobs\<close> the table the
  updates meet, so renewals and claims between the two are expressible.
\<close>

definition REQUEUED_ERROR :: string where
  "REQUEUED_ERROR = ''Backend executor heartbeat expired, re-queued''"

definition EXHAUSTED_ERROR :: string where
  "EXHAUSTED_ERROR = ''Backend executor heartbeat expired after exhausting attempts''"

definition PLAYBOOK_EXHAUSTED_ERROR :: string where
  "PLAYBOOK_EXHAUSTED_ERROR =
     ''Parent durable job exhausted attempts after executor heartbeat expired''"

section \<open>recoverStaleRunningJobs\<close>

record recover_options =
  roStaleBefore :: time
  roHeartbeatStaleBefore :: "time option"
  roRetryAfterMs :: "int option"

definition stale_where :: "recover_options \<Rightarrow> job \<Rightarrow> bool" where
  "stale_where o' j \<longleftrightarrow>
     jStatus j = RUNNING
     \<and> (null_lt (jLeaseExpiresAt j) (roStaleBefore o')
        \<or> (jLeaseExpiresAt j = None
           \<and> null_lt (jWorkerHeartbeatAt j)
               (case roHeartbeatStaleBefore o' of None \<Rightarrow> roStaleBefore o' | Some t \<Rightarrow> t)))"

definition stale_page :: "(job \<Rightarrow> bool) \<Rightarrow> job list \<Rightarrow> job list" where
  "stale_page p seen = fetch_pages 999 (sort_by (\<lambda>a b. str_le (jId a) (jId b)) (filter p seen))"

definition recover_retryable :: "recover_options \<Rightarrow> job list \<Rightarrow> job list" where
  "recover_retryable o' seen = stale_page (\<lambda>j. stale_where o' j \<and> jAttempts j < jMaxAttempts j) seen"

definition recover_exhausted :: "recover_options \<Rightarrow> job list \<Rightarrow> job list" where
  "recover_exhausted o' seen = stale_page (\<lambda>j. stale_where o' j \<and> jMaxAttempts j \<le> jAttempts j) seen"

definition requeue_row :: "recover_options \<Rightarrow> time \<Rightarrow> job \<Rightarrow> job" where
  "requeue_row o' now j =
     j\<lparr>jStatus := PENDING,
       jAvailableAt := futureFrom now (case roRetryAfterMs o' of None \<Rightarrow> 0 | Some m \<Rightarrow> m),
       jWorkerId := None, jWorkerHeartbeatAt := None, jLeaseExpiresAt := None,
       jErrorMessage := Some REQUEUED_ERROR, jUpdatedAt := now\<rparr>"

definition exhaust_row :: "time \<Rightarrow> job \<Rightarrow> job" where
  "exhaust_row now j =
     j\<lparr>jStatus := FAILED, jCompletedAt := Some now, jWorkerId := None, jWorkerHeartbeatAt := None,
       jLeaseExpiresAt := None, jErrorMessage := Some EXHAUSTED_ERROR, jUpdatedAt := now\<rparr>"

text \<open>
  When fewer rows moved than were read, the rows now in the target status are asked for.
\<close>

definition moved_ids :: "job_status \<Rightarrow> job list \<Rightarrow> nat \<Rightarrow> job list \<Rightarrow> string list" where
  "moved_ids st listed n jobs =
     (let ids = map jId listed in
      if length listed \<le> n then ids
      else if 0 < n
      then map jId (take (length listed) (filter (\<lambda>j. jId j \<in> set ids \<and> jStatus j = st) jobs))
      else [])"

definition recovery_payload :: "job \<Rightarrow> json" where
  "recovery_payload j =
     JObj [(''type'', JStr (jType j)), (''title'', JStr (jTitle j)),
       (''attempts'', JNum (of_int (jAttempts j))), (''maxAttempts'', JNum (of_int (jMaxAttempts j)))]"

definition recovery_events ::
  "string \<Rightarrow> event_level \<Rightarrow> string \<Rightarrow> string list \<Rightarrow> job list \<Rightarrow> job_event_input list" where
  "recovery_events ty level message ids listed =
     map (\<lambda>j. \<lparr>eiJobId = jId j, eiType = ty, eiMessage = message, eiLevel = Some level,
            eiWorkerId = None, eiPayload = Some (recovery_payload j)\<rparr>)
       (filter (\<lambda>j. jId j \<in> set ids) listed)"

definition recover_requeue ::
  "recover_options \<Rightarrow> time \<Rightarrow> job list \<Rightarrow> job list \<Rightarrow> job list \<times> string list \<times> job_event_input list" where
  "recover_requeue o' now listed jobs =
     (if listed = [] then (jobs, [], [])
      else (case update_many (\<lambda>j. jId j \<in> set (map jId listed) \<and> stale_where o' j)
                   (requeue_row o' now) jobs of
        (jobs', n) \<Rightarrow>
          let ids = moved_ids PENDING listed n jobs' in
          (jobs', ids,
           recovery_events ''recovered'' Warn
             ''Background executor heartbeat expired; re-enqueued'' ids listed)))"

definition recover_exhaust ::
  "recover_options \<Rightarrow> time \<Rightarrow> job list \<Rightarrow> job list \<Rightarrow> job list \<times> string list \<times> job_event_input list" where
  "recover_exhaust o' now listed jobs =
     (if listed = [] then (jobs, [], [])
      else (case update_many (\<lambda>j. jId j \<in> set (map jId listed) \<and> stale_where o' j)
                   (exhaust_row now) jobs of
        (jobs', n) \<Rightarrow>
          let ids = moved_ids FAILED listed n jobs' in
          (jobs', ids,
           recovery_events ''failed'' Error
             ''Background executor heartbeat expired after exhausting attempts'' ids listed)))"

text \<open>The playbook runs whose job is out of attempts end with it.\<close>

record playbook_run =
  prId :: string
  prStatus :: string
  prErrorMessage :: "string option"
  prCompletedAt :: "time option"

definition playbook_run_id :: "job \<Rightarrow> string option" where
  "playbook_run_id j =
     (case jPayload j of
        JObj kvs \<Rightarrow> (case map_of kvs ''runId'' of
            Some (JStr s) \<Rightarrow> if trim s \<noteq> [] then Some (trim s) else None
          | _ \<Rightarrow> None)
      | _ \<Rightarrow> None)"

definition exhausted_playbook_runs :: "string list \<Rightarrow> job list \<Rightarrow> string list" where
  "exhausted_playbook_runs ids listed =
     List.map_filter playbook_run_id
       (filter (\<lambda>j. jId j \<in> set ids \<and> jType j = ''playbook.run'') listed)"

definition fail_playbook_runs :: "time \<Rightarrow> string list \<Rightarrow> playbook_run list \<Rightarrow> playbook_run list" where
  "fail_playbook_runs now runIds runs =
     (if runIds = [] then runs
      else fst (update_many
        (\<lambda>r. prId r \<in> set runIds \<and> prStatus r \<in> {''queued'', ''running''})
        (\<lambda>r. r\<lparr>prStatus := ''failed'', prErrorMessage := Some PLAYBOOK_EXHAUSTED_ERROR,
               prCompletedAt := Some now\<rparr>) runs))"

record recover_result =
  rrJobs :: "job list"
  rrRuns :: "playbook_run list"
  rrCount :: nat
  rrRecovered :: "string list"
  rrFailed :: "string list"
  rrEvents :: "job_event_input list"

definition recoverStaleRunningJobs ::
  "recover_options \<Rightarrow> time \<Rightarrow> job list \<Rightarrow> job list \<Rightarrow> playbook_run list \<Rightarrow> recover_result" where
  "recoverStaleRunningJobs o' now seen jobs runs =
     (let retryable = recover_retryable o' seen; exhausted = recover_exhausted o' seen in
      case recover_requeue o' now retryable jobs of
        (jobs1, recovered, ev1) \<Rightarrow>
          (case recover_exhaust o' now exhausted jobs1 of
             (jobs2, failed, ev2) \<Rightarrow>
               \<lparr>rrJobs = jobs2,
                rrRuns = fail_playbook_runs now (exhausted_playbook_runs failed exhausted) runs,
                rrCount = length recovered + length failed,
                rrRecovered = recovered, rrFailed = failed, rrEvents = ev1 @ ev2\<rparr>))"

section \<open>Pruning by type\<close>

text \<open>
  \<open>completedAt\<close> descending puts NULL first, as PostgreSQL does; then \<open>createdAt\<close> descending.
\<close>

definition completed_desc :: "job \<Rightarrow> job \<Rightarrow> bool" where
  "completed_desc a b \<longleftrightarrow>
     (case (jCompletedAt a, jCompletedAt b) of
        (None, None) \<Rightarrow> jCreatedAt b \<le> jCreatedAt a
      | (None, Some _) \<Rightarrow> True
      | (Some _, None) \<Rightarrow> False
      | (Some s, Some t) \<Rightarrow> t < s \<or> (s = t \<and> jCreatedAt b \<le> jCreatedAt a))"

definition prune_retained :: "(job \<Rightarrow> bool) \<Rightarrow> nat \<Rightarrow> job list \<Rightarrow> job list" where
  "prune_retained p keep jobs = take keep (sort_by completed_desc (filter p jobs))"

definition prune_scope :: "(job \<Rightarrow> bool) \<Rightarrow> nat \<Rightarrow> time option \<Rightarrow> job list \<Rightarrow> job list \<times> nat" where
  "prune_scope p keep olderThan jobs =
     (let retainedIds = map jId (prune_retained p keep jobs) in
      delete_many (\<lambda>j. p j \<and> (retainedIds \<noteq> [] \<longrightarrow> jId j \<notin> set retainedIds)
          \<and> (case olderThan of None \<Rightarrow> True | Some t \<Rightarrow> null_lt (jCompletedAt j) t)) jobs)"

definition prune_keep :: "rat option \<Rightarrow> nat" where
  "prune_keep keepLatest = nat (max 1 \<lfloor>case keepLatest of None \<Rightarrow> 25 | Some k \<Rightarrow> k\<rfloor>)"

definition pruneCompletedJobsByType ::
  "string \<Rightarrow> rat option \<Rightarrow> time option \<Rightarrow> job list \<Rightarrow> job list \<times> nat" where
  "pruneCompletedJobsByType type' keepLatest olderThan jobs =
     (let ty = trim type' in
      if ty = [] then (jobs, 0)
      else prune_scope (\<lambda>j. jType j = ty \<and> jStatus j = COMPLETED) (prune_keep keepLatest) olderThan jobs)"

definition pruneTerminalJobsByType ::
  "string \<Rightarrow> job_status list \<Rightarrow> rat option \<Rightarrow> time option \<Rightarrow> job list \<Rightarrow> job list \<times> nat" where
  "pruneTerminalJobsByType type' statuses0 keepLatest olderThan jobs =
     (let ty = trim type';
          statuses = filter (\<lambda>st. st = COMPLETED \<or> st = FAILED \<or> st = CANCELLED) statuses0 in
      if ty = [] \<or> statuses = [] then (jobs, 0)
      else prune_scope (\<lambda>j. jType j = ty \<and> jStatus j \<in> set statuses) (prune_keep keepLatest) olderThan jobs)"

section \<open>The fleet-wide sweep\<close>

definition TERMINAL_JOB_RETENTION_DAYS :: int where
  "TERMINAL_JOB_RETENTION_DAYS = 30"

definition TERMINAL_JOB_PRUNE_BATCH :: int where
  "TERMINAL_JOB_PRUNE_BATCH = 5000"

definition sweep_where :: "job_status list \<Rightarrow> time \<Rightarrow> job \<Rightarrow> bool" where
  "sweep_where statuses olderThan j \<longleftrightarrow> jStatus j \<in> set statuses \<and> jUpdatedAt j < olderThan"

definition sweep_batch :: "nat \<Rightarrow> job_status list \<Rightarrow> time \<Rightarrow> job list \<Rightarrow> job list" where
  "sweep_batch size' statuses olderThan jobs =
     take size' (sort_by (\<lambda>a b. jUpdatedAt a \<le> jUpdatedAt b) (filter (sweep_where statuses olderThan) jobs))"

definition sweep_delete :: "job list \<Rightarrow> job_status list \<Rightarrow> time \<Rightarrow> job list \<Rightarrow> job list \<times> nat" where
  "sweep_delete batch statuses olderThan jobs =
     delete_many (\<lambda>j. sweep_where statuses olderThan j \<and> jId j \<in> set (map jId batch)) jobs"

lemma sweep_batch_in: "b \<in> set (sweep_batch n statuses olderThan jobs)
    \<Longrightarrow> b \<in> set jobs \<and> sweep_where statuses olderThan b"
  unfolding sweep_batch_def by (auto dest: in_set_takeD)

lemma sweep_delete_less:
  assumes "sweep_batch n statuses olderThan jobs \<noteq> []"
  shows "length (fst (sweep_delete (sweep_batch n statuses olderThan jobs) statuses olderThan jobs))
       < length jobs"
proof -
  obtain b where b: "b \<in> set (sweep_batch n statuses olderThan jobs)"
    using assms by (cases "sweep_batch n statuses olderThan jobs") auto
  then show ?thesis
    using sweep_batch_in [OF b]
    by (auto simp: sweep_delete_def table_simps intro!: length_filter_less)
qed

function sweep_loop ::
  "nat \<Rightarrow> job_status list \<Rightarrow> time \<Rightarrow> job list \<Rightarrow> nat \<Rightarrow> job list \<times> nat" where
  "sweep_loop batchSize statuses olderThan jobs acc =
     (let batch = sweep_batch batchSize statuses olderThan jobs in
      if batch = [] then (jobs, acc)
      else (let d = sweep_delete batch statuses olderThan jobs in
        if length batch < batchSize then (fst d, acc + snd d)
        else sweep_loop batchSize statuses olderThan (fst d) (acc + snd d)))"
  by pat_completeness auto
termination
  by (relation "measure (\<lambda>(_, _, _, jobs, _). length jobs)") (auto intro: sweep_delete_less)

declare sweep_loop.simps [simp del]

text \<open>\<open>retentionDays\<close> is the runtime setting \<^verbatim>\<open>retention.terminalJobsDays\<close>.\<close>

definition pruneTerminalJobs ::
  "int \<Rightarrow> job_status list option \<Rightarrow> time option \<Rightarrow> int option \<Rightarrow> time \<Rightarrow> job list \<Rightarrow> job list \<times> nat" where
  "pruneTerminalJobs retentionDays statusesOpt olderThanOpt batchOpt now jobs =
     (let statuses = (case statusesOpt of None \<Rightarrow> [FAILED, CANCELLED] | Some ss \<Rightarrow> ss);
          olderThan = (case olderThanOpt of
             None \<Rightarrow> now - retentionDays * 24 * 60 * 60 * 1000 | Some t \<Rightarrow> t);
          batchSize = min (max (case batchOpt of None \<Rightarrow> TERMINAL_JOB_PRUNE_BATCH | Some b \<Rightarrow> b) 1)
                        TERMINAL_JOB_PRUNE_BATCH
      in if statuses = [] then (jobs, 0)
         else sweep_loop (nat batchSize) statuses olderThan jobs 0)"

section \<open>Facts about recovery\<close>

lemma stale_page_mem:
  "j \<in> set (stale_page p seen) \<longleftrightarrow> j \<in> set seen \<and> p j"
  by (auto simp: stale_page_def)

lemma length_stale_page: "length (stale_page p seen) = count_where p seen"
  by (simp add: stale_page_def count_where_def)

lemma stale_page_Nil: "stale_page p seen = [] \<longleftrightarrow> (\<forall>j \<in> set seen. \<not> p j)"
  by (simp add: stale_page_def filter_empty_conv)

interpretation requeue: job_update
  "\<lambda>j. jId j \<in> ids \<and> stale_where o' j \<and> jAttempts j < jMaxAttempts j" "requeue_row o' now"
proof unfold_locales
  fix j
  let ?sel = "jId j \<in> ids \<and> stale_where o' j \<and> jAttempts j < jMaxAttempts j"
  show "?sel \<Longrightarrow> \<not> terminal (jStatus j)" by (auto simp: stale_where_def terminal_def)
  show "same_job j (requeue_row o' now j)" by (simp add: same_job_def requeue_row_def)
  show "?sel \<Longrightarrow> job_wf j \<Longrightarrow> job_wf (requeue_row o' now j)"
    by (auto simp: job_wf_def requeue_row_def stale_where_def terminal_def)
qed

interpretation exhaust: job_update "\<lambda>j. jId j \<in> ids \<and> stale_where o' j" "exhaust_row now"
proof unfold_locales
  fix j
  let ?sel = "jId j \<in> ids \<and> stale_where o' j"
  show "?sel \<Longrightarrow> \<not> terminal (jStatus j)" by (auto simp: stale_where_def terminal_def)
  show "same_job j (exhaust_row now j)" by (simp add: same_job_def exhaust_row_def)
  show "?sel \<Longrightarrow> job_wf j \<Longrightarrow> job_wf (exhaust_row now j)"
    by (auto simp: job_wf_def exhaust_row_def stale_where_def terminal_def)
qed

lemma requeued_not_stale [simp]: "\<not> stale_where o' (requeue_row o2 now j)"
  by (simp add: stale_where_def requeue_row_def)

lemma requeue_row_id [simp]: "jId (requeue_row o' now j) = jId j"
  by (simp add: requeue_row_def)

lemma exhaust_row_id [simp]: "jId (exhaust_row now j) = jId j"
  by (simp add: exhaust_row_def)

lemma fst_recover_requeue:
  "fst (recover_requeue o' now listed jobs) =
     map (\<lambda>j. if jId j \<in> set (map jId listed) \<and> stale_where o' j then requeue_row o' now j else j) jobs"
proof (cases "listed = []")
  case False
  then show ?thesis by (simp add: recover_requeue_def update_many_pair Let_def)
qed (simp add: recover_requeue_def)

lemma fst_recover_exhaust:
  "fst (recover_exhaust o' now listed jobs) =
     map (\<lambda>j. if jId j \<in> set (map jId listed) \<and> stale_where o' j then exhaust_row now j else j) jobs"
proof (cases "listed = []")
  case False
  then show ?thesis by (simp add: recover_exhaust_def update_many_pair Let_def)
qed (simp add: recover_exhaust_def)

lemma rrJobs_recover:
  "rrJobs (recoverStaleRunningJobs o' now seen jobs runs) =
     fst (recover_exhaust o' now (recover_exhausted o' seen)
           (fst (recover_requeue o' now (recover_retryable o' seen) jobs)))"
  by (simp add: recoverStaleRunningJobs_def Let_def split: prod.split)

text \<open>
  C26. Recovery never takes a job from a live worker: a row that is not stale when the
  updates run stays as it is, even when the pages were read while it still was stale (its
  lease was renewed, or it was completed, cancelled or claimed, in between).
\<close>

theorem recovery_spares_renewed:
  assumes "j \<in> set jobs" and "\<not> stale_where o' j"
  shows "j \<in> set (rrJobs (recoverStaleRunningJobs o' now seen jobs runs))"
  using assms unfolding rrJobs_recover fst_recover_exhaust fst_recover_requeue
  by (force simp: image_iff)

definition sample_running :: "string \<Rightarrow> int \<Rightarrow> int \<Rightarrow> job" where
  "sample_running i tries lease =
     (sample_job i 0)\<lparr>jStatus := RUNNING, jAttempts := tries, jWorkerId := Some ''w1'',
       jWorkerHeartbeatAt := Some 1000, jLeaseExpiresAt := Some lease\<rparr>"

theorem recovery_spares_renewed_witness:
  "sample_running ''a'' 1 90000 \<in> set (rrJobs (recoverStaleRunningJobs
      \<lparr>roStaleBefore = 50000, roHeartbeatStaleBefore = None, roRetryAfterMs = None\<rparr> 50000
      [sample_running ''a'' 1 40000] [sample_running ''a'' 1 90000] []))"
  by (rule recovery_spares_renewed) (simp, code_simp)

lemma recovery_ids:
  assumes d: "distinct_keys jId jobs" and j: "j \<in> set jobs"
  shows "jId j \<in> set (map jId (stale_page p jobs)) \<longleftrightarrow> p j"
  using assms by (auto simp: stale_page_mem image_iff dest: distinct_keys_unique)

lemma moved_all:
  assumes "length listed \<le> n"
  shows "moved_ids st listed n jobs = map jId listed"
  using assms by (simp add: moved_ids_def Let_def)

lemma recover_requeue_now:
  assumes d: "distinct_keys jId jobs"
  shows "recover_requeue o' now (recover_retryable o' jobs) jobs =
     (map (\<lambda>j. if stale_where o' j \<and> jAttempts j < jMaxAttempts j then requeue_row o' now j else j) jobs,
      map jId (recover_retryable o' jobs),
      recovery_events ''recovered'' Warn ''Background executor heartbeat expired; re-enqueued''
        (map jId (recover_retryable o' jobs)) (recover_retryable o' jobs))"
proof -
  let ?p = "\<lambda>j. stale_where o' j \<and> jAttempts j < jMaxAttempts j"
  have iff: "(jId j \<in> set (map jId (stale_page ?p jobs)) \<and> stale_where o' j) = ?p j"
    if "j \<in> set jobs" for j
    using recovery_ids [OF d that, of ?p] by blast
  have upd: "update_many (\<lambda>j. jId j \<in> set (map jId (stale_page ?p jobs)) \<and> stale_where o' j)
               (requeue_row o' now) jobs
           = (map (\<lambda>j. if ?p j then requeue_row o' now j else j) jobs, count_where ?p jobs)"
    using iff by (simp add: update_many_def count_where_def cong: filter_cong map_cong)
  show ?thesis
  proof (cases "stale_page ?p jobs = []")
    case True
    then have "\<forall>j \<in> set jobs. \<not> ?p j" by (simp only: stale_page_Nil)
    then have "map (\<lambda>j. if ?p j then requeue_row o' now j else j) jobs = jobs"
      by (intro map_idI) auto
    with True show ?thesis
      by (simp add: recover_requeue_def recover_retryable_def recovery_events_def)
  next
    case False
    then show ?thesis
      unfolding recover_requeue_def recover_retryable_def
      by (simp only: if_False upd prod.case Let_def moved_all length_stale_page le_refl)
  qed
qed

definition recovered_row :: "recover_options \<Rightarrow> time \<Rightarrow> job \<Rightarrow> job" where
  "recovered_row o' now j =
     (if \<not> stale_where o' j then j
      else if jAttempts j < jMaxAttempts j then requeue_row o' now j
      else exhaust_row now j)"

lemma recover_exhaust_now:
  assumes d: "distinct_keys jId jobs"
  shows "recover_exhaust o' now (recover_exhausted o' jobs)
      (map (\<lambda>j. if stale_where o' j \<and> jAttempts j < jMaxAttempts j then requeue_row o' now j else j) jobs)
    = (map (recovered_row o' now) jobs, map jId (recover_exhausted o' jobs),
       recovery_events ''failed'' Error
         ''Background executor heartbeat expired after exhausting attempts''
         (map jId (recover_exhausted o' jobs)) (recover_exhausted o' jobs))"
proof -
  let ?p = "\<lambda>j. stale_where o' j \<and> jMaxAttempts j \<le> jAttempts j"
  let ?q = "\<lambda>j. jId j \<in> set (map jId (stale_page ?p jobs)) \<and> stale_where o' j"
  let ?f = "\<lambda>j. if stale_where o' j \<and> jAttempts j < jMaxAttempts j then requeue_row o' now j else j"
  have iff: "?q (?f j) = ?p j" if "j \<in> set jobs" for j
    using recovery_ids [OF d that, of ?p] by auto
  have row: "(if ?q (?f j) then exhaust_row now (?f j) else ?f j) = recovered_row o' now j"
    if "j \<in> set jobs" for j
    unfolding iff [OF that] by (auto simp: recovered_row_def)
  have m: "map (\<lambda>j. if ?q j then exhaust_row now j else j) (map ?f jobs) = map (recovered_row o' now) jobs"
    unfolding map_map comp_def using row by (intro map_cong refl)
  have c: "count_where ?q (map ?f jobs) = count_where ?p jobs"
    unfolding count_where_map using iff by (rule count_where_cong)
  show ?thesis
  proof (cases "stale_page ?p jobs = []")
    case True
    then have nq: "?q j = False" for j by simp
    have "map ?f jobs = map (recovered_row o' now) jobs"
      using m unfolding nq if_False list.map_ident .
    with True show ?thesis
      by (simp add: recover_exhaust_def recover_exhausted_def recovery_events_def)
  next
    case False
    then show ?thesis
      unfolding recover_exhaust_def recover_exhausted_def
      by (simp only: if_False update_many_pair m c prod.case Let_def moved_all length_stale_page le_refl)
  qed
qed

lemma recover_now:
  assumes "distinct_keys jId jobs"
  shows "recoverStaleRunningJobs o' now jobs jobs runs =
     \<lparr>rrJobs = map (recovered_row o' now) jobs,
      rrRuns = fail_playbook_runs now (exhausted_playbook_runs
         (map jId (recover_exhausted o' jobs)) (recover_exhausted o' jobs)) runs,
      rrCount = length (recover_retryable o' jobs) + length (recover_exhausted o' jobs),
      rrRecovered = map jId (recover_retryable o' jobs),
      rrFailed = map jId (recover_exhausted o' jobs),
      rrEvents =
        recovery_events ''recovered'' Warn ''Background executor heartbeat expired; re-enqueued''
          (map jId (recover_retryable o' jobs)) (recover_retryable o' jobs)
        @ recovery_events ''failed'' Error
            ''Background executor heartbeat expired after exhausting attempts''
            (map jId (recover_exhausted o' jobs)) (recover_exhausted o' jobs)\<rparr>"
  unfolding recoverStaleRunningJobs_def Let_def recover_requeue_now [OF assms] prod.case
    recover_exhaust_now [OF assms] length_map ..

lemma recovered_row_wf: "job_wf j \<Longrightarrow> job_wf (recovered_row o' now j)"
  using requeue.upd_wf [of j UNIV o' now] exhaust.upd_wf [of j UNIV o' now]
  by (simp add: recovered_row_def)

lemma recovered_row_same: "same_job j (recovered_row o' now j)"
  using requeue.upd_same exhaust.upd_same by (auto simp: recovered_row_def same_job_def)

lemma recovered_row_id [simp]: "jId (recovered_row o' now j) = jId j"
  by (simp add: recovered_row_def)

lemma recover_wf: "jobs_wf jobs \<Longrightarrow> jobs_wf (map (recovered_row o' now) jobs)"
  by (auto simp: jobs_wf_def distinct_keys_map recovered_row_wf)

lemma split_count:
  "count_where (\<lambda>j. stale_where o' j \<and> jAttempts j < jMaxAttempts j) jobs
   + count_where (\<lambda>j. stale_where o' j \<and> jMaxAttempts j \<le> jAttempts j) jobs
   = count_where (stale_where o') jobs"
  by (induction jobs) auto

text \<open>
  C27. Recovery deals with every stale running job and with nothing else: a job with an
  attempt left waits again, one without is failed, every other row is unchanged; the ids
  reported are those of the two groups and the count is the number of stale jobs.
\<close>

theorem recovery_complete:
  assumes "distinct_keys jId jobs"
    and "r = recoverStaleRunningJobs o' now jobs jobs runs"
  shows "rrJobs r = map (\<lambda>j. if \<not> stale_where o' j then j
            else if jAttempts j < jMaxAttempts j then requeue_row o' now j else exhaust_row now j) jobs
       \<and> set (rrRecovered r) = jId ` {j \<in> set jobs. stale_where o' j \<and> jAttempts j < jMaxAttempts j}
       \<and> set (rrFailed r) = jId ` {j \<in> set jobs. stale_where o' j \<and> jMaxAttempts j \<le> jAttempts j}
       \<and> rrCount r = count_where (stale_where o') jobs
       \<and> (\<forall>j \<in> set (rrJobs r). \<not> stale_where o' j)"
proof -
  note r = assms(2) [unfolded recover_now [OF assms(1)]]
  have "\<not> stale_where o' (exhaust_row now j)" for j
    by (simp add: stale_where_def exhaust_row_def)
  moreover have "rrCount r = count_where (stale_where o') jobs"
    by (simp add: r recover_retryable_def recover_exhausted_def length_stale_page split_count)
  ultimately show ?thesis
    by (auto simp: r recovered_row_def recover_retryable_def recover_exhausted_def stale_page_mem
        image_def)
qed

theorem recovery_complete_witness:
  "rrCount (recoverStaleRunningJobs
      \<lparr>roStaleBefore = 50000, roHeartbeatStaleBefore = None, roRetryAfterMs = None\<rparr> 50000
      [sample_running ''a'' 1 40000, sample_running ''b'' 3 40000, sample_running ''c'' 1 90000]
      [sample_running ''a'' 1 40000, sample_running ''b'' 3 40000, sample_running ''c'' 1 90000] [])
   = count_where (stale_where
      \<lparr>roStaleBefore = 50000, roHeartbeatStaleBefore = None, roRetryAfterMs = None\<rparr>)
      [sample_running ''a'' 1 40000, sample_running ''b'' 3 40000, sample_running ''c'' 1 90000]"
proof -
  have "distinct_keys jId
    [sample_running ''a'' 1 40000, sample_running ''b'' 3 40000, sample_running ''c'' 1 90000]"
    by code_simp
  from recovery_complete [OF this refl] show ?thesis by blast
qed

section \<open>Facts about pruning\<close>

interpretation completed_order: total_comparator completed_desc
  by unfold_locales (auto simp: completed_desc_def split: option.splits)

lemma prune_retained_mem: "j \<in> set (prune_retained p keep jobs) \<Longrightarrow> j \<in> set jobs \<and> p j"
  unfolding prune_retained_def by (auto dest: in_set_takeD)

lemma prune_retained_Nil:
  "0 < keep \<Longrightarrow> prune_retained p keep jobs = [] \<longleftrightarrow> (\<forall>j \<in> set jobs. \<not> p j)"
  by (auto simp: prune_retained_def filter_empty_conv)

lemma prune_deleted_rest:
  assumes d: "distinct_keys jId jobs" and k: "0 < keep" and j: "j \<in> set jobs"
    and gone: "j \<notin> set (fst (prune_scope p keep olderThan jobs))"
  shows "p j \<and> (\<forall>t. olderThan = Some t \<longrightarrow> null_lt (jCompletedAt j) t)
       \<and> j \<in> set (drop keep (sort_by completed_desc (filter p jobs)))"
proof -
  let ?L = "sort_by completed_desc (filter p jobs)"
  have old: "p j" "case olderThan of None \<Rightarrow> True | Some t \<Rightarrow> null_lt (jCompletedAt j) t"
    and out: "prune_retained p keep jobs \<noteq> [] \<Longrightarrow> jId j \<notin> jId ` set (prune_retained p keep jobs)"
    using gone j by (auto simp: prune_scope_def Let_def table_simps)
  have "prune_retained p keep jobs \<noteq> []"
    unfolding prune_retained_Nil [OF k] using j old by blast
  with out have "j \<notin> set (take keep ?L)" by (auto simp: prune_retained_def)
  moreover have "j \<in> set ?L" using j old by simp
  ultimately have "j \<in> set (drop keep ?L)" by (metis Un_iff append_take_drop_id set_append)
  with old show ?thesis by auto
qed

lemma prune_retained_stay:
  assumes "j \<in> set (prune_retained p keep jobs)"
  shows "j \<in> set (fst (prune_scope p keep olderThan jobs))"
  using assms prune_retained_mem [OF assms] by (auto simp: prune_scope_def Let_def table_simps)

lemma distinct_rows: "distinct_keys jId jobs \<Longrightarrow> distinct jobs"
  by (simp add: distinct_keys_def distinct_map)

lemma prune_newer_rows_kept:
  assumes d: "distinct_keys jId jobs"
    and j: "j \<in> set (drop keep (sort_by completed_desc (filter p jobs)))"
  shows "keep \<le> count_where (\<lambda>r. p r \<and> completed_desc r j) (fst (prune_scope p keep olderThan jobs))"
proof -
  let ?L = "sort_by completed_desc (filter p jobs)"
  let ?K = "filter (\<lambda>r. p r \<and> completed_desc r j) (fst (prune_scope p keep olderThan jobs))"
  have "keep < length ?L" using j by (cases "keep < length ?L") auto
  moreover have "distinct ?L"
    using distinct_rows [OF d] by (metis distinct_filter mset_eq_imp_distinct_iff mset_sort_by)
  ultimately have "card (set (take keep ?L)) = keep"
    by (simp add: distinct_card)
  moreover have "set (take keep ?L) \<subseteq> set ?K"
  proof
    fix r assume r: "r \<in> set (take keep ?L)"
    then have m: "r \<in> set (prune_retained p keep jobs)" by (simp add: prune_retained_def)
    show "r \<in> set ?K"
      using completed_order.sort_by_take_le [OF r j] prune_retained_mem [OF m]
        prune_retained_stay [OF m] by simp
  qed
  ultimately have "keep \<le> card (set ?K)" by (metis card_mono finite_set)
  then show ?thesis unfolding count_where_def by (meson card_length le_trans)
qed

lemma prune_scope_sublist:
  "set (fst (prune_scope p keep olderThan jobs)) \<subseteq> set jobs"
  by (auto simp: prune_scope_def Let_def table_simps)

text \<open>
  Pruning a type keeps its newest history: a row that disappears had the pruned type and
  one of the given terminal statuses, ended before \<open>olderThan\<close> when one is given, and at
  least \<open>keepLatest\<close> rows of the same scope that are no older remain.  A waiting or running
  job never disappears, nothing is added.
\<close>

theorem prune_keeps_latest:
  assumes d: "distinct_keys jId jobs"
    and r: "r = pruneTerminalJobsByType ty statuses keepLatest olderThan jobs"
  shows "set (fst r) \<subseteq> set jobs
       \<and> (\<forall>j \<in> set jobs. j \<notin> set (fst r) \<longrightarrow>
            jType j = trim ty \<and> jStatus j \<in> set statuses \<and> terminal (jStatus j)
            \<and> (\<forall>t. olderThan = Some t \<longrightarrow> null_lt (jCompletedAt j) t)
            \<and> prune_keep keepLatest \<le> count_where (\<lambda>k. jType k = trim ty \<and> jStatus k \<in> set statuses
                 \<and> terminal (jStatus k) \<and> completed_desc k j) (fst r))"
proof -
  let ?ss = "filter (\<lambda>st. st = COMPLETED \<or> st = FAILED \<or> st = CANCELLED) statuses"
  let ?p = "\<lambda>j. jType j = trim ty \<and> jStatus j \<in> set ?ss"
  have p: "?p j \<longleftrightarrow> jType j = trim ty \<and> jStatus j \<in> set statuses \<and> terminal (jStatus j)" for j
    by (auto simp: terminal_def)
  have k: "0 < prune_keep keepLatest" by (simp add: prune_keep_def)
  show ?thesis
  proof (cases "trim ty = [] \<or> ?ss = []")
    case True
    then show ?thesis by (simp add: r pruneTerminalJobsByType_def Let_def)
  next
    case False
    then have r': "r = prune_scope ?p (prune_keep keepLatest) olderThan jobs"
      by (simp add: r pruneTerminalJobsByType_def Let_def)
    have gone: "?p j \<and> (\<forall>t. olderThan = Some t \<longrightarrow> null_lt (jCompletedAt j) t)
        \<and> prune_keep keepLatest \<le> count_where (\<lambda>k. ?p k \<and> completed_desc k j) (fst r)"
      if "j \<in> set jobs" "j \<notin> set (fst r)" for j
      using prune_deleted_rest [OF d k that(1) that(2) [unfolded r']]
        prune_newer_rows_kept [OF d, of j "prune_keep keepLatest" ?p olderThan]
      unfolding r' by blast
    show ?thesis
      using gone prune_scope_sublist [of ?p "prune_keep keepLatest" olderThan jobs, folded r']
      unfolding p conj_assoc by blast
  qed
qed

definition sample_done :: "string \<Rightarrow> time \<Rightarrow> job" where
  "sample_done i t = (sample_job i 0)\<lparr>jStatus := COMPLETED, jCompletedAt := Some t, jUpdatedAt := t\<rparr>"

theorem prune_keeps_latest_witness:
  "1 \<le> count_where (\<lambda>k. jType k = trim ''backup.run'' \<and> jStatus k \<in> set [COMPLETED]
         \<and> terminal (jStatus k) \<and> completed_desc k (sample_done ''a'' 10))
       (fst (pruneTerminalJobsByType ''backup.run'' [COMPLETED] (Some 1) None
          [sample_done ''a'' 10, sample_done ''b'' 20]))"
proof -
  let ?jobs = "[sample_done ''a'' 10, sample_done ''b'' 20]"
  have d: "distinct_keys jId ?jobs" by code_simp
  have m: "sample_done ''a'' 10 \<in> set ?jobs" by simp
  have g: "sample_done ''a'' 10 \<notin>
      set (fst (pruneTerminalJobsByType ''backup.run'' [COMPLETED] (Some 1) None ?jobs))"
    by code_simp
  have k: "prune_keep (Some 1) = 1" by code_simp
  show ?thesis
    using prune_keeps_latest [OF d refl, of "''backup.run''" "[COMPLETED]" "Some 1" None] m g
    unfolding k by blast
qed

section \<open>Facts about the sweep\<close>

lemma sweep_loop_all:
  assumes "0 < batchSize"
  shows "sweep_loop batchSize statuses olderThan jobs acc =
     (filter (\<lambda>j. \<not> sweep_where statuses olderThan j) jobs,
      acc + count_where (sweep_where statuses olderThan) jobs)"
  using assms
proof (induction batchSize statuses olderThan jobs acc rule: sweep_loop.induct)
  case (1 n ss t jobs acc)
  let ?w = "sweep_where ss t"
  let ?b = "sweep_batch n ss t jobs"
  let ?d = "sweep_delete ?b ss t jobs"
  have b: "?b = [] \<longleftrightarrow> (\<forall>j \<in> set jobs. \<not> ?w j)"
    using 1(2) by (auto simp: sweep_batch_def filter_empty_conv)
  have kept: "filter (\<lambda>j. \<not> ?w j) (fst ?d) = filter (\<lambda>j. \<not> ?w j) jobs"
    by (auto simp: sweep_delete_def table_simps intro!: filter_cong)
  have cnt: "snd ?d + count_where ?w (fst ?d) = count_where ?w jobs"
    unfolding sweep_delete_def fst_delete_many snd_delete_many by (rule count_where_delete)
  show ?case
  proof (cases "?b = []")
    case True
    then have "\<forall>j \<in> set jobs. \<not> ?w j" using b by simp
    with True show ?thesis
      by (subst sweep_loop.simps) (simp add: Let_def filter_id_conv)
  next
    case ne: False
    show ?thesis
    proof (cases "length ?b < n")
      case True
      then have all: "set (filter ?w jobs) \<subseteq> set ?b" by (simp add: sweep_batch_def)
      then have "fst ?d = filter (\<lambda>j. \<not> ?w j) jobs"
        by (auto simp: sweep_delete_def table_simps intro!: filter_cong)
      moreover then have "count_where ?w (fst ?d) = 0" by simp
      ultimately show ?thesis
        using ne True cnt by (subst sweep_loop.simps) (simp add: Let_def)
    next
      case False
      have "sweep_loop n ss t jobs acc = sweep_loop n ss t (fst ?d) (acc + snd ?d)"
        using ne False by (subst sweep_loop.simps) (simp add: Let_def)
      also have "\<dots> = (filter (\<lambda>j. \<not> ?w j) (fst ?d), acc + snd ?d + count_where ?w (fst ?d))"
        using 1(1) [OF refl ne refl False 1(2)] .
      finally show ?thesis using kept cnt by (simp add: add.assoc)
    qed
  qed
qed

text \<open>
  The fleet-wide sweep terminates for every batch size a caller may give and is one
  unbounded delete: exactly the rows of the given statuses last touched before the limit are
  gone, and the count is their number - the batching neither loses nor adds a row.
\<close>

theorem sweep_is_one_delete:
  assumes "olderThan = (case olderThanOpt of
             None \<Rightarrow> now - retentionDays * 24 * 60 * 60 * 1000 | Some t \<Rightarrow> t)"
    and "statuses = (case statusesOpt of None \<Rightarrow> [FAILED, CANCELLED] | Some ss \<Rightarrow> ss)"
  shows "pruneTerminalJobs retentionDays statusesOpt olderThanOpt batchOpt now jobs =
     delete_many (\<lambda>j. jStatus j \<in> set statuses \<and> jUpdatedAt j < olderThan) jobs"
proof -
  let ?n = "nat (min (max (case batchOpt of None \<Rightarrow> TERMINAL_JOB_PRUNE_BATCH | Some b \<Rightarrow> b) 1)
                   TERMINAL_JOB_PRUNE_BATCH)"
  have n: "0 < ?n" by (auto simp: TERMINAL_JOB_PRUNE_BATCH_def)
  have w: "sweep_where statuses olderThan = (\<lambda>j. jStatus j \<in> set statuses \<and> jUpdatedAt j < olderThan)"
    by (simp add: fun_eq_iff sweep_where_def)
  show ?thesis
  proof (cases "statuses = []")
    case True
    then show ?thesis
      by (simp add: pruneTerminalJobs_def assms(2) [symmetric] Let_def delete_many_def)
  next
    case False
    then show ?thesis
      using sweep_loop_all [OF n, of statuses olderThan jobs 0]
      unfolding pruneTerminalJobs_def Let_def assms [symmetric]
      by (simp add: w delete_many_def count_where_def)
  qed
qed

theorem sweep_is_one_delete_witness:
  "pruneTerminalJobs 30 (Some [COMPLETED]) (Some 15) (Some 1) 100
     [sample_done ''a'' 10, sample_done ''b'' 20, sample_done ''c'' 5]
   = delete_many (\<lambda>j. jStatus j \<in> set [COMPLETED] \<and> jUpdatedAt j < 15)
     [sample_done ''a'' 10, sample_done ''b'' 20, sample_done ''c'' 5]"
  by (rule sweep_is_one_delete) simp_all

end
