(* ===== verification/Job_System.thy ===== *)
theory Job_System
  imports Job_Maintenance
begin

text \<open>
  The job table under any sequence of the operations of \<^verbatim>\<open>src/lib/job/service.ts\<close>: a step
  relation with one rule per operation, the tables reachable from the empty one, and what
  holds of them.  In a step \<open>failJob\<close> and the recovery read and write the same table; their
  interleaved forms are covered in their own theories.
\<close>

section \<open>The step relation\<close>

inductive job_step :: "job list \<Rightarrow> job list \<Rightarrow> bool" where
  Enqueue: "newId \<notin> jId ` set jobs \<Longrightarrow> 1 \<le> fallback
    \<Longrightarrow> job_step jobs (fst (enqueueJob intText newId fallback input now jobs))"
| Claim: "job_step jobs (fst (claimNextJob cfg opts now locked jobs))"
| Heartbeat: "job_step jobs (fst (heartbeatJob jobId worker leaseMs progress now jobs))"
| Complete: "job_step jobs (fst (completeJob jobId worker result now jobs))"
| Fail: "job_step jobs (fst (failJob jobId worker message retryAfterMs now jobs jobs))"
| FailTerminal: "job_step jobs (fst (failJobTerminal jobId worker message result now jobs))"
| Cancel: "job_step jobs (fst (cancelJob jobId session now jobs))"
| Recover: "job_step jobs (rrJobs (recoverStaleRunningJobs o' now jobs jobs runs))"
| PruneCompleted: "job_step jobs (fst (pruneCompletedJobsByType ty keepLatest olderThan jobs))"
| PruneTerminal: "job_step jobs (fst (pruneTerminalJobsByType ty statuses keepLatest olderThan jobs))"
| Sweep: "\<forall>st \<in> set (case statuses of None \<Rightarrow> [] | Some ss \<Rightarrow> ss). terminal st
    \<Longrightarrow> job_step jobs (fst (pruneTerminalJobs days statuses olderThan batch now jobs))"

inductive job_reachable :: "job list \<Rightarrow> bool" where
  Empty: "job_reachable []"
| Step: "job_reachable jobs \<Longrightarrow> job_step jobs jobs' \<Longrightarrow> job_reachable jobs'"

inductive_simps job_reachable_iff: "job_reachable jobs"

section \<open>What one step does to a row\<close>

text \<open>
  A step is \<^emph>\<open>regular\<close> when every row of the new table is a new row or comes from a row with
  the same identity, a finished row at most disappears, and well-formedness is kept.
\<close>

definition row_step :: "job list \<Rightarrow> job list \<Rightarrow> bool" where
  "row_step jobs jobs' \<longleftrightarrow>
     (\<forall>j' \<in> set jobs'. jId j' \<in> jId ` set jobs \<longrightarrow> (\<exists>j \<in> set jobs. same_job j j'
        \<and> (terminal (jStatus j) \<longrightarrow> j' = j)))"

lemma row_stepI:
  assumes "\<And>j'. j' \<in> set jobs' \<Longrightarrow> \<exists>j \<in> set jobs. same_job j j' \<and> (terminal (jStatus j) \<longrightarrow> j' = j)"
  shows "row_step jobs jobs'"
  using assms by (auto simp: row_step_def)

lemma same_job_refl [simp]: "same_job j j"
  by (simp add: same_job_def)

lemma row_step_map:
  "(\<And>j. j \<in> set jobs \<Longrightarrow> same_job j (f j) \<and> (terminal (jStatus j) \<longrightarrow> f j = j))
   \<Longrightarrow> row_step jobs (map f jobs)"
  by (rule row_stepI) auto

context job_update
begin

lemma row_step_update: "row_step jobs (fst (update_many sel upd jobs))"
  unfolding fst_update_many
  by (rule row_step_map) (use upd_same sel_live in auto)

lemma regular_update:
  "jobs_wf jobs \<Longrightarrow> jobs_wf (fst (update_many sel upd jobs))
     \<and> row_step jobs (fst (update_many sel upd jobs))"
  using wf_preserved row_step_update by blast

end

lemma row_step_subset: "set jobs' \<subseteq> set jobs \<Longrightarrow> row_step jobs jobs'"
  by (rule row_stepI) (auto intro!: bexI simp: subset_iff)

lemma enqueue_regular:
  assumes wf: "jobs_wf jobs" and fresh: "newId \<notin> jId ` set jobs" and fb: "1 \<le> fallback"
  shows "jobs_wf (fst (enqueueJob intText newId fallback input now jobs))
       \<and> row_step jobs (fst (enqueueJob intText newId fallback input now jobs))"
proof -
  let ?n = "new_job newId fallback input now"
  have "1 \<le> jMaxAttempts ?n"
    using fb by (auto simp: new_job_def sanitizeAttempts_def split: option.split jsnum.split)
  then have "job_wf ?n" by (simp add: job_wf_def new_job_def terminal_def)
  then have "jobs_wf (jobs @ [?n])"
    using wf fresh by (auto simp: jobs_wf_def distinct_keys_def new_job_def)
  moreover have "row_step jobs (jobs @ [?n])"
    using fresh by (auto simp: row_step_def new_job_def intro!: bexI [of _ j' for j'])
  ultimately show ?thesis by (simp add: enqueueJob_def Let_def)
qed

lemma claim_regular:
  assumes wf: "jobs_wf jobs"
  shows "row_step jobs (fst (claimNextJob cfg opts now locked jobs))"
proof -
  have d: "distinct_keys jId jobs" using wf by (rule jobs_wf_distinct)
  have "row_step jobs
      (map (\<lambda>j. if jId j = jId c then claim_row opts now (jStartedAt c) j else j) jobs)"
    if c: "claim_candidate cfg opts now locked jobs = Some c" for c
  proof -
    have m: "c \<in> set jobs" and el: "claim_eligible cfg opts now jobs c"
      using candidate_eligible [OF c] by auto
    have "\<not> terminal (jStatus c)"
      using el by (auto simp: claim_eligible_def claim_due_def terminal_def)
    moreover have "j = c" if "j \<in> set jobs" "jId j = jId c" for j
      using d that m by (metis distinct_keys_unique)
    ultimately show ?thesis
      using claim.upd_same [of _ opts now "jStartedAt c"] by (intro row_step_map) auto
  qed
  moreover have "row_step jobs jobs" by (rule row_step_subset) simp
  ultimately show ?thesis
    using claim_cases [OF d, of cfg opts now locked] by fastforce
qed

lemma fail_regular:
  assumes wf: "jobs_wf jobs"
  shows "jobs_wf (fst (failJob jobId worker message retryAfterMs now jobs jobs))
       \<and> row_step jobs (fst (failJob jobId worker message retryAfterMs now jobs jobs))"
proof (cases "find_first (\<lambda>j. jId j = jobId) jobs")
  case None
  then show ?thesis using wf row_step_subset [of jobs jobs] by (simp add: failJob_def)
next
  case (Some job)
  let ?r = "jAttempts job < jMaxAttempts job" and ?m = "take MAX_JOB_ERROR_MESSAGE message"
  have job: "job \<in> set jobs" "jId job = jobId" using find_first_Some [OF Some] by auto
  have res: "fst (failJob jobId worker message retryAfterMs now jobs jobs)
           = fst (update_many (owned_by jobId worker) (fail_row ?r ?m retryAfterMs now) jobs)"
    using Some by (simp add: failJob_def Let_def split: prod.split)
  show ?thesis
  proof (cases ?r)
    case True
    have "owned_by jobId worker j \<longleftrightarrow> owned_by jobId worker j \<and> jAttempts j < jMaxAttempts j"
      if "j \<in> set jobs" for j
      using that job True distinct_keys_unique [OF jobs_wf_distinct [OF wf], of j job]
      by (auto simp: owned_by_def)
    then have "update_many (owned_by jobId worker) f jobs
        = update_many (\<lambda>j. owned_by jobId worker j \<and> jAttempts j < jMaxAttempts j) f jobs" for f
      by (simp add: update_many_def cong: filter_cong map_cong)
    then show ?thesis using fail_retry.regular_update [OF wf] True unfolding res by simp
  next
    case False
    then show ?thesis using fail_final.regular_update [OF wf] unfolding res by simp
  qed
qed

lemma recovered_row_step: "row_step jobs (map (recovered_row o' now) jobs)"
proof (rule row_step_map)
  fix j
  show "same_job j (recovered_row o' now j) \<and> (terminal (jStatus j) \<longrightarrow> recovered_row o' now j = j)"
    using recovered_row_same [of j o' now]
    by (auto simp: recovered_row_def stale_where_def terminal_def)
qed

lemma regular_subset: "jobs_wf jobs \<Longrightarrow> jobs' = filter p jobs \<Longrightarrow> jobs_wf jobs' \<and> row_step jobs jobs'"
  by (auto intro: row_step_subset jobs_wf_filter)

lemma prune_scope_filter: "\<exists>q. fst (prune_scope p keep olderThan jobs) = filter q jobs"
  by (auto simp: prune_scope_def Let_def table_simps)

lemma filter_unless:
  assumes "\<exists>q. fst r = filter q jobs"
  shows "\<exists>q. fst (if c then (jobs, n) else r) = filter q jobs"
proof (cases c)
  case True
  then show ?thesis by (intro exI [of _ "\<lambda>_. True"]) simp
next
  case False
  with assms show ?thesis by simp
qed

lemma sweep_filter: "\<exists>q. fst (pruneTerminalJobs days statuses olderThan batch now jobs) = filter q jobs"
proof -
  have "0 < nat (min (max (case batch of None \<Rightarrow> TERMINAL_JOB_PRUNE_BATCH | Some b \<Rightarrow> b) 1)
           TERMINAL_JOB_PRUNE_BATCH)"
    by (auto simp: TERMINAL_JOB_PRUNE_BATCH_def)
  note loop = sweep_loop_all [OF this]
  show ?thesis
    unfolding pruneTerminalJobs_def Let_def loop by (rule filter_unless) auto
qed

lemma step_regular:
  assumes "job_step jobs jobs'" and wf: "jobs_wf jobs"
  shows "jobs_wf jobs' \<and> row_step jobs jobs'"
  using assms(1)
proof (cases rule: job_step.cases)
  case (Enqueue newId fallback intText input now)
  then show ?thesis using enqueue_regular [OF wf] by simp
next
  case (Claim cfg opts now locked)
  then show ?thesis using claim_wf [OF wf] claim_regular [OF wf] by simp
next
  case (Heartbeat jobId worker leaseMs progress now)
  then show ?thesis using heartbeat.regular_update [OF wf] by (simp only: fst_lifecycle)
next
  case (Complete jobId worker result now)
  then show ?thesis using complete.regular_update [OF wf] by (simp only: fst_lifecycle)
next
  case (Fail jobId worker message retryAfterMs now)
  then show ?thesis using fail_regular [OF wf] by simp
next
  case (FailTerminal jobId worker message result now)
  then show ?thesis using fail_terminal.regular_update [OF wf] by (simp only: fst_lifecycle)
next
  case (Cancel jobId session now)
  then show ?thesis using cancel.regular_update [OF wf] by (simp only: fst_lifecycle)
next
  case (Recover o' now runs)
  then show ?thesis
    using recover_wf [OF wf] recovered_row_step by (simp add: recover_now [OF jobs_wf_distinct [OF wf]])
next
  case (PruneCompleted ty keepLatest olderThan)
  then have "\<exists>q. jobs' = filter q jobs"
    unfolding pruneCompletedJobsByType_def Let_def
    by (simp only:) (intro filter_unless prune_scope_filter)
  then show ?thesis using regular_subset [OF wf] by blast
next
  case (PruneTerminal ty statuses keepLatest olderThan)
  then have "\<exists>q. jobs' = filter q jobs"
    unfolding pruneTerminalJobsByType_def Let_def
    by (simp only:) (intro filter_unless prune_scope_filter)
  then show ?thesis using regular_subset [OF wf] by blast
next
  case (Sweep statuses days olderThan batch now)
  have "\<exists>q. jobs' = filter q jobs" unfolding Sweep by (rule sweep_filter)
  then show ?thesis using regular_subset [OF wf] by blast
qed

section \<open>Reachable tables\<close>

lemma reachable_wf: "job_reachable jobs \<Longrightarrow> jobs_wf jobs"
proof (induction rule: job_reachable.induct)
  case Empty
  then show ?case by (simp add: jobs_wf_def distinct_keys_def)
next
  case (Step jobs jobs')
  then show ?case using step_regular by blast
qed


lemma sample_reachable: "job_reachable [sample_job ''a'' 0]"
proof -
  have "fst (enqueueJob (\<lambda>_. []) ''a'' 3 (sample_input 0) 1000 []) = [sample_job ''a'' 0]"
    by (simp add: enqueueJob_def sample_job_def Let_def)
  moreover have "job_step [] (fst (enqueueJob (\<lambda>_. []) ''a'' 3 (sample_input 0) 1000 []))"
    by (rule job_step.Enqueue) simp_all
  ultimately show ?thesis using job_reachable.Step [OF job_reachable.Empty] by simp
qed


text \<open>
  C8. No operation ever revives or rewrites a finished job: in any step a completed, failed or
  cancelled row is either kept unchanged or removed.  Identity, payload, team, owner,
  priority and limit of any row never change, and its attempt counter never goes back.
\<close>

theorem finished_jobs_final:
  assumes "job_reachable jobs" and "job_step jobs jobs'"
    and "j \<in> set jobs" and "j' \<in> set jobs'" and "jId j' = jId j"
  shows "same_job j j' \<and> (terminal (jStatus j) \<longrightarrow> j' = j)"
proof -
  have wf: "jobs_wf jobs" using assms(1) by (rule reachable_wf)
  have "row_step jobs jobs'" using step_regular [OF assms(2) wf] by blast
  then obtain k where k: "k \<in> set jobs" "same_job k j'" "terminal (jStatus k) \<longrightarrow> j' = k"
    using assms(3-5) by (auto simp: row_step_def)
  moreover have "jId k = jId j" using k(2) assms(5) by (simp add: same_job_def)
  ultimately show ?thesis
    using distinct_keys_unique [OF jobs_wf_distinct [OF wf] k(1) assms(3)] by simp
qed

theorem finished_jobs_final_witness:
  "jStatus (hd (fst (heartbeatJob ''a'' ''w1'' None None 4000
      [cancel_row 3000 (sample_job ''a'' 0)]))) = CANCELLED"
proof -
  let ?j = "cancel_row 3000 (sample_job ''a'' 0)"
  let ?s = "sample_session ''u1'' ''t1''"
  let ?t = "fst (heartbeatJob ''a'' ''w1'' None None 4000 [?j])"
  have ad: "cancellable ''a'' ?s (sample_job ''a'' 0)" by code_simp
  have "fst (cancelJob ''a'' ?s 3000 [sample_job ''a'' 0]) = [?j]"
    using ad by (simp add: table_simps)
  moreover have "job_step [sample_job ''a'' 0] (fst (cancelJob ''a'' ?s 3000 [sample_job ''a'' 0]))"
    by (rule job_step.Cancel)
  ultimately have r: "job_reachable [?j]" using job_reachable.Step [OF sample_reachable] by simp
  have st: "job_step [?j] ?t" by (rule job_step.Heartbeat)
  have "jId (hd ?t) = jId ?j" and m: "hd ?t \<in> set ?t" by code_simp+
  then have "same_job ?j (hd ?t) \<and> (terminal (jStatus ?j) \<longrightarrow> hd ?t = ?j)"
    using finished_jobs_final [OF r st _ m] by simp
  moreover have "terminal (jStatus ?j)" and "jStatus ?j = CANCELLED" by code_simp+
  ultimately show ?thesis by simp
qed

end
