(* ===== verification/Job_Events.thy ===== *)
theory Job_Events
  imports Job_System
begin

text \<open>
  \<^verbatim>\<open>src/lib/job/events.ts\<close> (listing and pruning the event streams) and
  \<^verbatim>\<open>src/lib/job/metrics.ts\<close> (the backlog counters).
\<close>

section \<open>Listing\<close>

definition normalizeLimit :: "jsnum option \<Rightarrow> int" where
  "normalizeLimit value = (case value of Some (Fin v) \<Rightarrow> max 1 (min 500 \<lfloor>v\<rfloor>) | _ \<Rightarrow> 100)"

definition normalizeKeepLatest :: "jsnum option \<Rightarrow> int" where
  "normalizeKeepLatest value = (case value of Some (Fin v) \<Rightarrow> max 1 \<lfloor>v\<rfloor> | _ \<Rightarrow> 200)"

definition event_desc :: "job_event \<Rightarrow> job_event \<Rightarrow> bool" where
  "event_desc a b \<longleftrightarrow>
     evCreatedAt b < evCreatedAt a \<or> (evCreatedAt a = evCreatedAt b \<and> str_le (evId b) (evId a))"

definition listJobEvents ::
  "string \<Rightarrow> jsnum option \<Rightarrow> string option \<Rightarrow> job_event list \<Rightarrow> job_event list" where
  "listJobEvents jobId limit beforeId events =
     take (nat (normalizeLimit limit))
       (sort_by event_desc
         (filter (\<lambda>e. evJobId e = jobId
            \<and> (truthy beforeId \<longrightarrow> str_le (evId e) (the beforeId) \<and> evId e \<noteq> the beforeId)) events))"

interpretation event_order: total_comparator event_desc
proof unfold_locales
  fix a b c
  show "event_desc a b \<or> event_desc b a"
    using str_le_total [of "evId a" "evId b"] by (auto simp: event_desc_def)
  show "event_desc a b \<Longrightarrow> event_desc b c \<Longrightarrow> event_desc a c"
    unfolding event_desc_def by (metis order_less_trans str_le_trans)
qed

section \<open>Pruning\<close>

definition older_than :: "time option \<Rightarrow> job_event \<Rightarrow> bool" where
  "older_than olderThan e \<longleftrightarrow> (case olderThan of None \<Rightarrow> True | Some t \<Rightarrow> evCreatedAt e < t)"

definition newest_events :: "nat \<Rightarrow> string \<Rightarrow> job_event list \<Rightarrow> job_event list" where
  "newest_events keep jobId events =
     take keep (sort_by event_desc (filter (\<lambda>e. evJobId e = jobId) events))"

definition pruneOneJobEvents ::
  "string \<Rightarrow> nat \<Rightarrow> time option \<Rightarrow> job_event list \<Rightarrow> job_event list \<times> nat" where
  "pruneOneJobEvents jobId keep olderThan events =
     (let retainedIds = map evId (newest_events keep jobId events) in
      delete_many (\<lambda>e. evJobId e = jobId \<and> (retainedIds \<noteq> [] \<longrightarrow> evId e \<notin> set retainedIds)
          \<and> older_than olderThan e) events)"

definition crowded_jobs :: "nat \<Rightarrow> job_event list \<Rightarrow> string list" where
  "crowded_jobs keep events =
     filter (\<lambda>i. keep < count_where (\<lambda>e. evJobId e = i) events) (dedup (map evJobId events))"

definition stale_jobs :: "time \<Rightarrow> string list \<Rightarrow> job_event list \<Rightarrow> string list" where
  "stale_jobs olderThan crowded events =
     dedup (map evJobId (filter (\<lambda>e. evCreatedAt e < olderThan \<and> evJobId e \<in> set crowded) events))"

definition prune_scopes :: "nat \<Rightarrow> time option \<Rightarrow> job_event list \<Rightarrow> string list" where
  "prune_scopes keep olderThan events =
     (let crowded = crowded_jobs keep events in
      case olderThan of
        None \<Rightarrow> crowded
      | Some t \<Rightarrow> if crowded = [] then crowded
                  else filter (\<lambda>i. i \<in> set (stale_jobs t crowded events)) crowded)"

fun prune_each ::
  "nat \<Rightarrow> time option \<Rightarrow> string list \<Rightarrow> job_event list \<Rightarrow> nat \<Rightarrow> job_event list \<times> nat" where
  "prune_each keep olderThan [] events acc = (events, acc)"
| "prune_each keep olderThan (i # is) events acc =
     (case pruneOneJobEvents i keep olderThan events of
        (events', n) \<Rightarrow> prune_each keep olderThan is events' (acc + n))"

definition pruneJobEvents ::
  "string option \<Rightarrow> jsnum option \<Rightarrow> time option \<Rightarrow> job_event list \<Rightarrow> job_event list \<times> nat" where
  "pruneJobEvents jobId keepLatest olderThan events =
     (let keep = nat (normalizeKeepLatest keepLatest) in
      if truthy jobId then pruneOneJobEvents (the jobId) keep olderThan events
      else prune_each keep olderThan (prune_scopes keep olderThan events) events 0)"

section \<open>The sweep prunes every stream\<close>

definition event_doomed :: "nat \<Rightarrow> time option \<Rightarrow> job_event list \<Rightarrow> job_event \<Rightarrow> bool" where
  "event_doomed keep olderThan events e \<longleftrightarrow>
     e \<notin> set (newest_events keep (evJobId e) events) \<and> older_than olderThan e"

lemma newest_events_mem: "e \<in> set (newest_events keep i events) \<Longrightarrow> e \<in> set events \<and> evJobId e = i"
  unfolding newest_events_def by (auto dest: in_set_takeD)

lemma prune_one:
  assumes d: "distinct_keys evId events" and k: "0 < keep"
  shows "pruneOneJobEvents i keep olderThan events
       = delete_many (\<lambda>e. evJobId e = i \<and> event_doomed keep olderThan events e) events"
proof -
  let ?ids = "map evId (newest_events keep i events)"
  have "(evJobId e = i \<and> (?ids \<noteq> [] \<longrightarrow> evId e \<notin> set ?ids) \<and> older_than olderThan e)
      = (evJobId e = i \<and> event_doomed keep olderThan events e)" if e: "e \<in> set events" for e
  proof (cases "evJobId e = i")
    case True
    have "filter (\<lambda>x. evJobId x = i) events \<noteq> []"
      using e True by (auto simp: filter_empty_conv)
    then have ne: "?ids \<noteq> []" using k by (simp add: newest_events_def)
    have "evId e \<in> set ?ids \<longleftrightarrow> e \<in> set (newest_events keep i events)"
      using d e newest_events_mem [of _ keep i events]
      by (auto dest: distinct_keys_unique)
    with True ne show ?thesis by (auto simp: event_doomed_def)
  qed simp
  then show ?thesis unfolding pruneOneJobEvents_def Let_def by (rule delete_many_cong)
qed

lemma doomed_after_other:
  assumes "evJobId e = i" and "i \<notin> S"
  shows "event_doomed keep olderThan
      (filter (\<lambda>x. \<not> (evJobId x \<in> S \<and> event_doomed keep olderThan events x)) events) e
    = event_doomed keep olderThan events e"
proof -
  have "filter (\<lambda>x. evJobId x = i)
      (filter (\<lambda>x. \<not> (evJobId x \<in> S \<and> event_doomed keep olderThan events x)) events)
    = filter (\<lambda>x. evJobId x = i) events"
    using assms(2) by (auto simp: intro!: filter_cong)
  then show ?thesis by (simp add: event_doomed_def newest_events_def assms(1))
qed

lemma prune_each_all:
  assumes d: "distinct_keys evId events" and k: "0 < keep"
    and "distinct is" and "set is \<inter> S = {}"
  shows "prune_each keep olderThan is
      (filter (\<lambda>x. \<not> (evJobId x \<in> S \<and> event_doomed keep olderThan events x)) events) acc
    = (filter (\<lambda>x. \<not> (evJobId x \<in> S \<union> set is \<and> event_doomed keep olderThan events x)) events,
       acc + count_where (\<lambda>x. evJobId x \<in> set is \<and> event_doomed keep olderThan events x) events)"
  using assms(3,4)
proof (induction "is" arbitrary: S acc)
  case Nil
  then show ?case by simp
next
  case (Cons i "is")
  let ?D = "event_doomed keep olderThan events"
  let ?T = "filter (\<lambda>x. \<not> (evJobId x \<in> S \<and> ?D x)) events"
  have dT: "distinct_keys evId ?T" using d by (rule distinct_keys_filter)
  have i: "i \<notin> S" and ii: "i \<notin> set is" using Cons.prems by auto
  have guard: "(evJobId e = i \<and> event_doomed keep olderThan ?T e) = (evJobId e = i \<and> ?D e)" for e
    using doomed_after_other [OF _ i] by blast
  have one: "pruneOneJobEvents i keep olderThan ?T
      = (filter (\<lambda>x. \<not> (evJobId x \<in> insert i S \<and> ?D x)) events,
         count_where (\<lambda>x. evJobId x = i \<and> ?D x) events)"
    using i unfolding prune_one [OF dT k] guard delete_many_def count_where_def filter_filter
    by (intro arg_cong2 [where f = Pair] arg_cong [where f = length] filter_cong) auto
  have cnt: "count_where (\<lambda>x. evJobId x \<in> set (i # is) \<and> ?D x) events
      = count_where (\<lambda>x. evJobId x = i \<and> ?D x) events
        + count_where (\<lambda>x. evJobId x \<in> set is \<and> ?D x) events"
    using ii by (subst count_where_disjoint [symmetric])
      (auto intro!: count_where_cong)
  have u: "insert i S \<union> set is = S \<union> set (i # is)" by auto
  have dj: "set is \<inter> insert i S = {}" and di: "distinct is" using Cons.prems ii by auto
  have "prune_each keep olderThan (i # is) ?T acc
      = prune_each keep olderThan is (filter (\<lambda>x. \<not> (evJobId x \<in> insert i S \<and> ?D x)) events)
          (acc + count_where (\<lambda>x. evJobId x = i \<and> ?D x) events)"
    by (simp only: prune_each.simps one prod.case)
  also have "\<dots> = (filter (\<lambda>x. \<not> (evJobId x \<in> insert i S \<union> set is \<and> ?D x)) events,
      acc + count_where (\<lambda>x. evJobId x = i \<and> ?D x) events
      + count_where (\<lambda>x. evJobId x \<in> set is \<and> ?D x) events)"
    by (rule Cons.IH [OF di dj])
  finally show ?case by (simp only: u add.assoc cnt)
qed

lemma doomed_in_scope:
  assumes e: "e \<in> set events" and k: "0 < keep" and D: "event_doomed keep olderThan events e"
  shows "evJobId e \<in> set (prune_scopes keep olderThan events)"
proof -
  let ?i = "evJobId e"
  let ?L = "sort_by event_desc (filter (\<lambda>x. evJobId x = ?i) events)"
  have "e \<in> set ?L" using e by simp
  moreover have "e \<notin> set (take keep ?L)" using D by (simp add: event_doomed_def newest_events_def)
  ultimately have "keep < length ?L" by (metis not_less take_all)
  then have c: "?i \<in> set (crowded_jobs keep events)"
    using e by (auto simp: crowded_jobs_def count_where_def)
  show ?thesis
  proof (cases olderThan)
    case None
    with c show ?thesis by (simp add: prune_scopes_def Let_def)
  next
    case (Some t)
    then have "evCreatedAt e < t" using D by (simp add: event_doomed_def older_than_def)
    then have "?i \<in> set (stale_jobs t (crowded_jobs keep events) events)"
      using e c by (auto simp: stale_jobs_def)
    then show ?thesis using c Some by (auto simp: prune_scopes_def Let_def)
  qed
qed

lemma distinct_prune_scopes: "distinct (prune_scopes keep olderThan events)"
  by (auto simp: prune_scopes_def Let_def crowded_jobs_def split: option.split)

text \<open>
  The sweep over all job event streams loses nothing a per-job pruning would keep, and
  keeps nothing it would drop: although it only visits crowded streams with old events, it
  deletes exactly the events that are not among the newest \<open>keepLatest\<close> of their own job and
  (with a limit) are older than it; the count is their number.
\<close>

theorem event_sweep_exact:
  assumes d: "distinct_keys evId events"
    and k: "keep = nat (normalizeKeepLatest keepLatest)"
  shows "pruneJobEvents None keepLatest olderThan events =
     delete_many (\<lambda>e. e \<notin> set (newest_events keep (evJobId e) events) \<and> older_than olderThan e) events"
proof -
  have kp: "0 < keep" by (auto simp: k normalizeKeepLatest_def split: option.split jsnum.split)
  let ?S = "prune_scopes keep olderThan events"
  let ?D = "event_doomed keep olderThan events"
  have iff: "(evJobId e \<in> set ?S \<and> ?D e) = ?D e" if "e \<in> set events" for e
    using doomed_in_scope [OF that kp] by blast
  have "pruneJobEvents None keepLatest olderThan events = prune_each keep olderThan ?S events 0"
    by (simp add: pruneJobEvents_def Let_def k)
  also have "\<dots> = (filter (\<lambda>x. \<not> (evJobId x \<in> set ?S \<and> ?D x)) events,
      count_where (\<lambda>x. evJobId x \<in> set ?S \<and> ?D x) events)"
    using prune_each_all [OF d kp distinct_prune_scopes,
        where S = "{}" and olderThan = olderThan and acc = 0] by simp
  also have "\<dots> = delete_many ?D events"
    unfolding delete_many_def count_where_def using iff
    by (intro arg_cong2 [where f = Pair] arg_cong [where f = length] filter_cong) auto
  finally show ?thesis by (simp add: event_doomed_def [abs_def])
qed

definition sample_event :: "string \<Rightarrow> string \<Rightarrow> time \<Rightarrow> job_event" where
  "sample_event i job t = \<lparr>evId = i, evJobId = job, evType = ''heartbeat'', evLevel = Info,
     evMessage = ''tick'', evWorkerId = None, evPayload = None, evCreatedAt = t\<rparr>"

theorem event_sweep_exact_witness:
  "pruneJobEvents None (Some (Fin 1)) None
     [sample_event ''1'' ''a'' 1, sample_event ''2'' ''a'' 2, sample_event ''3'' ''b'' 1]
   = delete_many (\<lambda>e. e \<notin> set (newest_events 1 (evJobId e)
       [sample_event ''1'' ''a'' 1, sample_event ''2'' ''a'' 2, sample_event ''3'' ''b'' 1])
       \<and> older_than None e)
     [sample_event ''1'' ''a'' 1, sample_event ''2'' ''a'' 2, sample_event ''3'' ''b'' 1]"
  by (rule event_sweep_exact) (code_simp, code_simp)

section \<open>getJobBacklogMetrics\<close>

record type_backlog =
  tbType :: string
  tbPending :: nat
  tbRunning :: nat
  tbFailed :: nat

record backlog_metrics =
  bmPending :: nat
  bmRunning :: nat
  bmExpiredLease :: nat
  bmFailed :: nat
  bmCompleted :: nat
  bmCancelled :: nat
  bmTotal :: nat
  bmOldestPendingMs :: "int option"
  bmByType :: "type_backlog list"

text \<open>
  The rows the \<open>groupBy\<close> on (type, status) returns, folded into one entry per type; then the
  twenty types with the largest backlog.
\<close>

definition backlog_groups :: "job list \<Rightarrow> (string \<times> job_status \<times> nat) list" where
  "backlog_groups rows =
     (let live = filter (\<lambda>j. jStatus j \<in> {PENDING, RUNNING, FAILED}) rows in
      map (\<lambda>(ty, st). (ty, st, count_where (\<lambda>j. jType j = ty \<and> jStatus j = st) live))
        (dedup (map (\<lambda>j. (jType j, jStatus j)) live)))"

definition set_backlog :: "job_status \<Rightarrow> nat \<Rightarrow> type_backlog \<Rightarrow> type_backlog" where
  "set_backlog st n e =
     (if st = PENDING then e\<lparr>tbPending := n\<rparr>
      else if st = RUNNING then e\<lparr>tbRunning := n\<rparr>
      else if st = FAILED then e\<lparr>tbFailed := n\<rparr> else e)"

text \<open>A JavaScript \<open>Map\<close>: \<open>set\<close> on a present key keeps its place, else appends.\<close>

fun upsert_backlog :: "string \<Rightarrow> (type_backlog \<Rightarrow> type_backlog) \<Rightarrow> type_backlog list \<Rightarrow> type_backlog list" where
  "upsert_backlog ty f [] = [f \<lparr>tbType = ty, tbPending = 0, tbRunning = 0, tbFailed = 0\<rparr>]"
| "upsert_backlog ty f (e # es) = (if tbType e = ty then f e # es else e # upsert_backlog ty f es)"

definition backlog_sum :: "type_backlog \<Rightarrow> nat" where
  "backlog_sum e = tbPending e + tbRunning e + tbFailed e"

definition backlog_by_type :: "job list \<Rightarrow> type_backlog list" where
  "backlog_by_type rows =
     take 20 (sort_by (\<lambda>a b. backlog_sum b \<le> backlog_sum a)
       (fold (\<lambda>(ty, st, n). upsert_backlog ty (set_backlog st n)) (backlog_groups rows) []))"

definition getJobBacklogMetrics :: "session option \<Rightarrow> time \<Rightarrow> job list \<Rightarrow> backlog_metrics" where
  "getJobBacklogMetrics s now jobs =
     (let rows = filter (\<lambda>j. case s of None \<Rightarrow> True
                             | Some s' \<Rightarrow> scope_admits (teamWhere s') (jId j) (jTeamId j)) jobs;
          n = (\<lambda>st. count_where (\<lambda>j. jStatus j = st) rows);
          oldest = sort_by (\<lambda>a b. jAvailableAt a \<le> jAvailableAt b)
                     (filter (\<lambda>j. jStatus j = PENDING) rows)
      in \<lparr>bmPending = n PENDING, bmRunning = n RUNNING,
          bmExpiredLease =
            count_where (\<lambda>j. jStatus j = RUNNING \<and> null_lt (jLeaseExpiresAt j) now) rows,
          bmFailed = n FAILED, bmCompleted = n COMPLETED, bmCancelled = n CANCELLED,
          bmTotal = n PENDING + n RUNNING + n FAILED + n COMPLETED + n CANCELLED,
          bmOldestPendingMs = (case oldest of [] \<Rightarrow> None | j # _ \<Rightarrow> Some (max 0 (now - jAvailableAt j))),
          bmByType = backlog_by_type rows\<rparr>)"

interpretation avail_order: total_comparator "\<lambda>a b. jAvailableAt a \<le> jAvailableAt b"
  by unfold_locales auto

lemma five_statuses:
  "count_where (\<lambda>j. jStatus j = PENDING) rows + count_where (\<lambda>j. jStatus j = RUNNING) rows
   + count_where (\<lambda>j. jStatus j = FAILED) rows + count_where (\<lambda>j. jStatus j = COMPLETED) rows
   + count_where (\<lambda>j. jStatus j = CANCELLED) rows = length rows"
proof (induction rows)
  case (Cons j rows)
  then show ?case by (cases "jStatus j") auto
qed simp

text \<open>
  The backlog metrics account for every job: their total is the number of rows the caller
  may see, expired leases are among the running jobs, and the oldest waiting time is that of
  a waiting job none of which became available earlier.
\<close>

theorem backlog_total:
  assumes "m = getJobBacklogMetrics s now jobs"
    and "visible = filter (\<lambda>j. case s of None \<Rightarrow> True
            | Some s' \<Rightarrow> scope_admits (teamWhere s') (jId j) (jTeamId j)) jobs"
  shows "bmTotal m = length visible
       \<and> bmExpiredLease m \<le> bmRunning m
       \<and> (bmOldestPendingMs m = None \<longleftrightarrow> bmPending m = 0)
       \<and> (\<forall>w. bmOldestPendingMs m = Some w \<longrightarrow>
            (\<forall>j \<in> set visible. jStatus j = PENDING \<longrightarrow> max 0 (now - jAvailableAt j) \<le> w))"
proof -
  let ?p = "filter (\<lambda>j. jStatus j = PENDING) visible"
  let ?o = "sort_by (\<lambda>a b. jAvailableAt a \<le> jAvailableAt b) ?p"
  have m: "bmTotal m = length visible" "bmExpiredLease m \<le> bmRunning m"
    "bmPending m = count_where (\<lambda>j. jStatus j = PENDING) visible"
    "bmOldestPendingMs m = (case ?o of [] \<Rightarrow> None | j # _ \<Rightarrow> Some (max 0 (now - jAvailableAt j)))"
    unfolding assms(1) getJobBacklogMetrics_def Let_def assms(2) [symmetric]
    by (auto simp: five_statuses [symmetric] intro: count_where_mono)
  show ?thesis
  proof (cases ?o)
    case Nil
    then have "?p = []" by simp
    with m Nil show ?thesis by (auto simp: filter_empty_conv)
  next
    case (Cons j rest)
    have "j \<in> set ?p" using Cons by (metis list.set_intros(1) set_sort_by)
    moreover have "max 0 (now - jAvailableAt k) \<le> max 0 (now - jAvailableAt j)"
      if "k \<in> set visible" "jStatus k = PENDING" for k
      using avail_order.sort_by_hd_least [OF Cons, of k] that by auto
    ultimately show ?thesis using m Cons by auto
  qed
qed

theorem backlog_total_witness:
  "bmTotal (getJobBacklogMetrics (Some (sample_session ''u1'' ''t1'')) 5000
     [sample_job ''a'' 0, (sample_job ''b'' 0)\<lparr>jTeamId := Some ''t2''\<rparr>]) = 1"
proof -
  let ?jobs = "[sample_job ''a'' 0, (sample_job ''b'' 0)\<lparr>jTeamId := Some ''t2''\<rparr>]"
  have "length (filter (\<lambda>j. scope_admits (teamWhere (sample_session ''u1'' ''t1'')) (jId j) (jTeamId j))
      ?jobs) = 1" by code_simp
  then show ?thesis
    using backlog_total [OF refl refl, of "Some (sample_session ''u1'' ''t1'')" 5000 ?jobs] by simp
qed

end
