(* ===== verification/Job_Runner.thy ===== *)
theory Job_Runner
  imports Job_Model "HOL-Library.Log_Nat"
begin

text \<open>
  \<^verbatim>\<open>src/lib/job/lease.ts\<close> (how long a worker's lease is) and
  \<^verbatim>\<open>src/lib/job/heartbeat-runner.ts\<close> (the renewal of the lease while the work runs).
\<close>

section \<open>computeLeaseMs\<close>

definition MIN_LEASE_MS :: int where "MIN_LEASE_MS = 30000"
definition MAX_LEASE_MS :: int where "MAX_LEASE_MS = 6 * 60 * 60 * 1000"

definition LEASE_PRESETS_MS :: "(string \<times> int) list" where
  "LEASE_PRESETS_MS =
     [(''backup'', 30000), (''alert-evaluation'', 60000), (''command-execution'', 5 * 60 * 1000),
      (''scheduled-task'', 5 * 60 * 1000), (''backup-schedule'', 5 * 60 * 1000),
      (''health-sampling'', 5 * 60 * 1000), (''traffic-sampling'', 15 * 60 * 1000),
      (''job-maintenance'', 5 * 60 * 1000), (''sftp-sync'', 5 * 60 * 1000),
      (''sftp-stale-inventory'', 5 * 60 * 1000), (''quick-service'', 10 * 60 * 1000),
      (''playbook-trigger'', 5 * 60 * 1000), (''playbook-run'', 30 * 60 * 1000),
      (''download-execution'', 150 * 60 * 1000), (''operation-task-retention'', 5 * 60 * 1000),
      (''vps-backup'', 30 * 60 * 1000), (''vps-backup-schedule'', 5 * 60 * 1000),
      (''ticket-sla'', 5 * 60 * 1000), (''cost-snapshot'', 10 * 60 * 1000),
      (''ai-ops-scan'', 30 * 60 * 1000), (''itsm-outbound'', 5 * 60 * 1000)]"

text \<open>
  \<open>Math.ceil(n * 1.1)\<close> for an integer \<open>n\<close>: the double nearest to 1.1 is
  \<open>4953959590107546 / 2 ^ 52\<close>; the product is rounded to 53 significant bits, ties to even.
\<close>

definition double_1_1 :: int where "double_1_1 = 4953959590107546"

definition round53 :: "int \<Rightarrow> int" where
  "round53 p =
     (let e = nat (bitlen p - 53); q = p div 2 ^ e; r = 2 * (p mod 2 ^ e) in
      (if 2 ^ e < r \<or> (r = 2 ^ e \<and> odd q) then q + 1 else q) * 2 ^ e)"

definition ceil_times_1_1 :: "int \<Rightarrow> int" where
  "ceil_times_1_1 n = - ((- round53 (n * double_1_1)) div 2 ^ 52)"

definition clamp_lease :: "int \<Rightarrow> int" where
  "clamp_lease x = min MAX_LEASE_MS (max MIN_LEASE_MS x)"

definition lease_preset :: "string \<Rightarrow> int" where
  "lease_preset workerId =
     (case map_of LEASE_PRESETS_MS workerId of None \<Rightarrow> MIN_LEASE_MS | Some p \<Rightarrow> p)"

definition computeLeaseMs :: "string \<Rightarrow> int option \<Rightarrow> int" where
  "computeLeaseMs workerId observedMaxDispatchMs =
     (case observedMaxDispatchMs of
        None \<Rightarrow> clamp_lease (lease_preset workerId)
      | Some observed \<Rightarrow>
          if 2 * observed \<le> lease_preset workerId then clamp_lease (lease_preset workerId)
          else clamp_lease (ceil_times_1_1 (2 * observed)))"

definition listLeasePresetWorkerIds :: "string list" where
  "listLeasePresetWorkerIds = sort_by str_le (map fst LEASE_PRESETS_MS)"

lemma presets_in_range:
  "\<forall>p \<in> set LEASE_PRESETS_MS. MIN_LEASE_MS \<le> snd p \<and> snd p \<le> MAX_LEASE_MS"
  by (simp add: LEASE_PRESETS_MS_def MIN_LEASE_MS_def MAX_LEASE_MS_def)

lemma lease_preset_range: "MIN_LEASE_MS \<le> lease_preset w \<and> lease_preset w \<le> MAX_LEASE_MS"
  using presets_in_range
  by (auto simp: lease_preset_def MIN_LEASE_MS_def MAX_LEASE_MS_def split: option.split
      dest!: map_of_SomeD)

text \<open>Rounding to 53 bits loses less than one part in \<open>2 ^ 52\<close>.\<close>

lemma round53_ge:
  assumes "0 < p"
  shows "(2 ^ 52 - 1) * p \<le> 2 ^ 52 * round53 p"
proof -
  define e where "e = nat (bitlen p - 53)"
  have "p div 2 ^ e * 2 ^ e \<le> round53 p"
    by (simp add: round53_def Let_def e_def [symmetric] mult_right_mono)
  moreover have "p - (p div 2 ^ e * 2 ^ e) = p mod 2 ^ e" by (simp add: minus_div_mult_eq_mod)
  ultimately have lo: "p - p mod 2 ^ e \<le> round53 p" by linarith
  have "2 ^ 52 * (p mod 2 ^ e) \<le> p"
  proof (cases "e = 0")
    case True
    with assms show ?thesis by simp
  next
    case False
    then have "nat (bitlen p - 1) = 52 + e" by (simp add: e_def)
    then have "2 ^ (52 + e) \<le> p" using bitlen_bounds [OF assms] by simp
    moreover have "p mod 2 ^ e \<le> 2 ^ e" using pos_mod_bound [of "2 ^ e" p]
      by (simp add: less_imp_le)
    then have "2 ^ 52 * (p mod 2 ^ e) \<le> 2 ^ 52 * 2 ^ e" by simp
    ultimately show ?thesis by (simp add: power_add)
  qed
  moreover have "2 ^ 52 * (p - p mod 2 ^ e) \<le> 2 ^ 52 * round53 p" using lo by simp
  ultimately show ?thesis by (simp add: algebra_simps)
qed

lemma ceil_times_1_1_ge:
  assumes "0 \<le> n"
  shows "n \<le> ceil_times_1_1 n"
proof (cases "n = 0")
  case True
  then show ?thesis by (simp add: ceil_times_1_1_def round53_def bitlen_def floorlog_def)
next
  case False
  let ?R = "round53 (n * double_1_1)"
  have "(2 ^ 52 - 1) * (n * double_1_1) \<le> 2 ^ 52 * ?R"
    by (rule round53_ge) (use assms False in \<open>simp add: double_1_1_def\<close>)
  then have "n * 2 ^ 52 \<le> ?R" using assms by (simp add: double_1_1_def)
  then have "- ?R \<le> (- n) * 2 ^ 52" by simp
  then have "(- ?R) div 2 ^ 52 \<le> ((- n) * 2 ^ 52) div 2 ^ 52" by (rule zdiv_mono1) simp
  then show ?thesis by (simp add: ceil_times_1_1_def)
qed

section \<open>The heartbeat runner\<close>

text \<open>
  The runner is the closure's variables; each of its callbacks is one step: the interval
  timer, the answer or failure of a heartbeat, the expiry timer, and the settling of the
  work.  \<open>rInFlight\<close> is \<open>renewalStartedAt\<close> of the heartbeat under way.
\<close>

datatype run_outcome = Returned | ThrewLeaseLost | ThrewRunError

record runner =
  rStopped :: bool
  rInFlight :: "time option"
  rLeaseLost :: bool
  rLeaseDeadline :: time
  rExpiryAt :: time
  rAborted :: bool
  rOutcome :: "run_outcome option"

definition heartbeat_interval :: "int \<Rightarrow> int" where
  "heartbeat_interval leaseMs = max 10000 (min (5 * 60000) (leaseMs div 3))"

definition isLeaseLostResult :: "nat option \<Rightarrow> bool" where
  "isLeaseLostResult count' \<longleftrightarrow> count' = Some 0"

definition markLeaseLost :: "runner \<Rightarrow> runner" where
  "markLeaseLost r =
     (if rStopped r \<or> rLeaseLost r then r else r\<lparr>rLeaseLost := True, rAborted := True\<rparr>)"

definition armExpiry :: "time \<Rightarrow> runner \<Rightarrow> runner" where
  "armExpiry now r = r\<lparr>rExpiryAt := now + max 0 (rLeaseDeadline r - now)\<rparr>"

definition startRunner :: "int \<Rightarrow> time \<Rightarrow> runner" where
  "startRunner leaseMs now =
     armExpiry now \<lparr>rStopped = False, rInFlight = None, rLeaseLost = False,
       rLeaseDeadline = now + leaseMs, rExpiryAt = now, rAborted = False, rOutcome = None\<rparr>"

definition intervalTick :: "time \<Rightarrow> runner \<Rightarrow> runner" where
  "intervalTick now r =
     (if rStopped r \<or> rInFlight r \<noteq> None \<or> rLeaseLost r then r
      else if rLeaseDeadline r \<le> now then markLeaseLost r
      else r\<lparr>rInFlight := Some now\<rparr>)"

definition heartbeatAnswer :: "int \<Rightarrow> time \<Rightarrow> nat option \<Rightarrow> time \<Rightarrow> runner \<Rightarrow> runner" where
  "heartbeatAnswer leaseMs startedAt count' now r =
     (if rStopped r \<or> rLeaseLost r then r
      else if isLeaseLostResult count' \<or> rLeaseDeadline r \<le> now then markLeaseLost r
      else armExpiry now (r\<lparr>rLeaseDeadline := startedAt + leaseMs\<rparr>))\<lparr>rInFlight := None\<rparr>"

definition heartbeatFailed :: "runner \<Rightarrow> runner" where
  "heartbeatFailed r = (markLeaseLost r)\<lparr>rInFlight := None\<rparr>"

definition runSettled :: "bool \<Rightarrow> runner \<Rightarrow> runner" where
  "runSettled resolved r =
     r\<lparr>rStopped := True,
       rOutcome := Some (if \<not> resolved then ThrewRunError
                         else if rLeaseLost r then ThrewLeaseLost else Returned)\<rparr>"

section \<open>The runner and the lease in the database\<close>

text \<open>
  A run: the clock, the runner and \<open>leaseExpiresAt\<close> of the job's row.  The job was claimed at
  \<open>claimedAt\<close>.  A heartbeat call takes its time when it starts, at or after
  \<open>renewalStartedAt\<close>; a renewal that counts a row sets the row's lease from that time.
\<close>

type_synonym run_state = "time \<times> runner \<times> time"

inductive run_step :: "int \<Rightarrow> run_state \<Rightarrow> run_state \<Rightarrow> bool" for leaseMs :: int where
  Time: "now \<le> now' \<Longrightarrow> run_step leaseMs (now, r, lease) (now', r, lease)"
| Tick: "\<not> rStopped r \<Longrightarrow> run_step leaseMs (now, r, lease) (now, intervalTick now r, lease)"
| Renewed: "rInFlight r = Some s \<Longrightarrow> s \<le> h \<Longrightarrow> h \<le> now
    \<Longrightarrow> run_step leaseMs (now, r, lease)
          (now, heartbeatAnswer leaseMs s (Some (Suc n)) now r, h + leaseMs)"
| Refused: "rInFlight r = Some s
    \<Longrightarrow> run_step leaseMs (now, r, lease) (now, heartbeatAnswer leaseMs s (Some 0) now r, lease)"
| Failed: "rInFlight r \<noteq> None \<Longrightarrow> run_step leaseMs (now, r, lease) (now, heartbeatFailed r, lease)"
| Expiry: "\<not> rStopped r \<Longrightarrow> rExpiryAt r \<le> now
    \<Longrightarrow> run_step leaseMs (now, r, lease) (now, markLeaseLost r, lease)"
| Settle: "\<not> rStopped r \<Longrightarrow> run_step leaseMs (now, r, lease) (now, runSettled resolved r, lease)"

inductive run_reachable :: "int \<Rightarrow> time \<Rightarrow> time \<Rightarrow> run_state \<Rightarrow> bool"
  for leaseMs :: int and claimedAt startedAt :: time where
  Start: "claimedAt \<le> startedAt
    \<Longrightarrow> run_reachable leaseMs claimedAt startedAt
          (startedAt, startRunner leaseMs startedAt, claimedAt + leaseMs)"
| Step: "run_reachable leaseMs claimedAt startedAt s \<Longrightarrow> run_step leaseMs s s'
    \<Longrightarrow> run_reachable leaseMs claimedAt startedAt s'"

text \<open>
  What every reachable run keeps; \<open>slack\<close> is the time between the claim and the start of
  the runner, whose first deadline counts from the start.
\<close>

definition run_inv :: "int \<Rightarrow> int \<Rightarrow> run_state \<Rightarrow> bool" where
  "run_inv leaseMs slack s = (case s of (now, r, lease) \<Rightarrow>
     rLeaseDeadline r \<le> lease + slack \<and> lease \<le> now + leaseMs
     \<and> (rLeaseLost r \<or> rExpiryAt r = rLeaseDeadline r \<or> rExpiryAt r \<le> now)
     \<and> (rAborted r = rLeaseLost r)
     \<and> (\<forall>t. rInFlight r = Some t \<longrightarrow> t \<le> now \<and> lease \<le> t + leaseMs)
     \<and> (rOutcome r = Some Returned \<longrightarrow> \<not> rLeaseLost r)
     \<and> (rOutcome r \<noteq> None \<longrightarrow> rStopped r))"

lemmas runner_defs = markLeaseLost_def armExpiry_def intervalTick_def heartbeatAnswer_def
  heartbeatFailed_def runSettled_def isLeaseLostResult_def run_inv_def

inductive_cases run_stepE: "run_step leaseMs s s'"

lemma run_inv_step:
  "run_step leaseMs s s' \<Longrightarrow> 0 \<le> slack \<Longrightarrow> run_inv leaseMs slack s \<Longrightarrow> run_inv leaseMs slack s'"
  by (erule run_stepE; auto simp: runner_defs)

lemma run_reachable_order: "run_reachable leaseMs claimedAt startedAt s \<Longrightarrow> claimedAt \<le> startedAt"
  by (induction rule: run_reachable.induct)

lemma run_inv_reachable:
  "run_reachable leaseMs claimedAt startedAt s \<Longrightarrow> run_inv leaseMs (startedAt - claimedAt) s"
proof (induction rule: run_reachable.induct)
  case Start
  then show ?case by (auto simp: run_inv_def startRunner_def armExpiry_def)
next
  case (Step s s')
  then show ?case using run_reachable_order [OF Step(1)] by (auto intro: run_inv_step)
qed



text \<open>
  Every worker's lease lies between 30 seconds and 6 hours, is at least its preset, and at
  least twice the longest dispatch observed unless the 6 hour ceiling forbids it - the
  floating point product included.  Three renewal attempts fit into any such lease.
\<close>

theorem lease_long_enough:
  assumes "lease = computeLeaseMs worker observed"
  shows "MIN_LEASE_MS \<le> lease \<and> lease \<le> MAX_LEASE_MS
       \<and> lease_preset worker \<le> lease
       \<and> (\<forall>d. observed = Some d \<longrightarrow> 2 * d \<le> lease \<or> lease = MAX_LEASE_MS)
       \<and> 3 * heartbeat_interval lease \<le> lease"
proof -
  have r: "clamp_lease x \<ge> MIN_LEASE_MS" "clamp_lease x \<le> MAX_LEASE_MS"
    "x \<le> MAX_LEASE_MS \<Longrightarrow> x \<le> clamp_lease x" "MAX_LEASE_MS < x \<Longrightarrow> clamp_lease x = MAX_LEASE_MS" for x
    by (auto simp: clamp_lease_def MIN_LEASE_MS_def MAX_LEASE_MS_def)
  have range: "MIN_LEASE_MS \<le> lease" "lease \<le> MAX_LEASE_MS"
    using r by (auto simp: assms computeLeaseMs_def split: option.split)
  have c: "2 * d \<le> ceil_times_1_1 (2 * d)" if "\<not> 2 * d \<le> lease_preset worker" for d
    using that lease_preset_range [of worker]
    by (intro ceil_times_1_1_ge) (simp add: MIN_LEASE_MS_def)
  have obs: "2 * d \<le> lease \<or> lease = MAX_LEASE_MS" if d: "observed = Some d" for d
  proof (cases "2 * d \<le> lease_preset worker")
    case True
    then have "lease = clamp_lease (lease_preset worker)" by (simp add: assms computeLeaseMs_def d)
    then show ?thesis using True r(3) [of "lease_preset worker"] lease_preset_range [of worker] by linarith
  next
    case False
    then have "lease = clamp_lease (ceil_times_1_1 (2 * d))"
      by (simp add: assms computeLeaseMs_def d)
    then show ?thesis
      using c [OF False] r(3,4) [of "ceil_times_1_1 (2 * d)"] by linarith
  qed
  have pre: "lease_preset worker \<le> lease"
  proof (cases "\<exists>d. observed = Some d \<and> \<not> 2 * d \<le> lease_preset worker")
    case True
    then obtain d where "observed = Some d" and "\<not> 2 * d \<le> lease_preset worker" by blast
    then show ?thesis using obs [of d] lease_preset_range [of worker] by linarith
  next
    case False
    then have "lease = clamp_lease (lease_preset worker)"
      by (auto simp: assms computeLeaseMs_def split: option.split)
    then show ?thesis using r(3) lease_preset_range [of worker] by simp
  qed
  have "3 * heartbeat_interval lease \<le> lease"
    using range(1) unfolding heartbeat_interval_def MIN_LEASE_MS_def max_def min_def by presburger
  with range obs pre show ?thesis by blast
qed

theorem lease_long_enough_witness:
  "2 * 35 \<le> computeLeaseMs ''backup'' (Some 35) \<and> 40000 \<le> computeLeaseMs ''backup'' (Some 20000)
   \<and> ceil_times_1_1 50 = 56"
proof -
  have "ceil_times_1_1 50 = 56" by code_simp
  moreover have "computeLeaseMs ''backup'' (Some 20000) \<noteq> MAX_LEASE_MS"
    "computeLeaseMs ''backup'' (Some 35) \<noteq> MAX_LEASE_MS" by code_simp+
  ultimately show ?thesis
    using lease_long_enough [OF refl, of "''backup''" "Some 20000"]
      lease_long_enough [OF refl, of "''backup''" "Some 35"] by auto
qed

end
