(* ===== verification/Rate_Limit_Store.thy ===== *)
theory Rate_Limit_Store
  imports Prelude "HOL-Library.AList"
begin

text \<open>
  \<^verbatim>\<open>src/lib/rate-limit-store.ts\<close>: the in-memory store.  A JavaScript \<open>Map\<close> is the list of its
  entries in insertion order: \<open>set\<close> is \<open>AList.update\<close> (a present key keeps its place, a new
  one goes last), \<open>delete\<close> is \<open>AList.delete\<close>, \<open>get\<close> is \<open>map_of\<close> and \<open>keys().next()\<close> the head.

  \<open>sha\<close> is the hexadecimal SHA-256 of a key.  The two locales are what the limiter relies on.
\<close>

section \<open>State\<close>

record lockout =
  failCount :: int
  lockedUntil :: "time option"
  lastFailureAt :: time

record window_bucket =
  wbEntries :: "time list"
  wbWindowMs :: int

type_synonym window_map = "(string \<times> window_bucket) list"

record memory_store =
  msTimestamps :: "(string \<times> window_map) list"
  msLastSweepAt :: "(string \<times> time) list"
  msLockouts :: "(string \<times> (lockout \<times> time)) list"
  msLastLockoutSweepAt :: time

definition empty_store :: memory_store where
  "empty_store = \<lparr>msTimestamps = [], msLastSweepAt = [], msLockouts = [], msLastLockoutSweepAt = 0\<rparr>"

definition MEMORY_STORE_MAX_KEY_CHARS :: nat where "MEMORY_STORE_MAX_KEY_CHARS = 256"
definition MEMORY_STORE_MAX_KEYS :: nat where "MEMORY_STORE_MAX_KEYS = 50000"
definition MEMORY_STORE_SWEEP_INTERVAL_MS :: int where "MEMORY_STORE_SWEEP_INTERVAL_MS = 1000"

definition boundedKey :: "(string \<Rightarrow> string) \<Rightarrow> string \<Rightarrow> string" where
  "boundedKey sha key =
     (if length key \<le> MEMORY_STORE_MAX_KEY_CHARS then key
      else take 128 key @ ''#'' @ take 32 (sha key))"

fun index_of :: "'a \<Rightarrow> 'a list \<Rightarrow> nat option" where
  "index_of c [] = None"
| "index_of c (x # xs) = (if x = c then Some 0 else map_option Suc (index_of c xs))"

definition rateLimitNamespace :: "string \<Rightarrow> string" where
  "rateLimitNamespace key =
     (if startsWith key ''/'' then ''path''
      else (case index_of (CHR '':'') key of
              Some (Suc n) \<Rightarrow> take (min (Suc n) 64) key
            | _ \<Rightarrow> ''other''))"

section \<open>Windows\<close>

definition namespaceMap :: "string \<Rightarrow> memory_store \<Rightarrow> window_map" where
  "namespaceMap name s = (case map_of (msTimestamps s) name of None \<Rightarrow> [] | Some m \<Rightarrow> m)"

definition live_bucket :: "time \<Rightarrow> window_bucket \<Rightarrow> bool" where
  "live_bucket now b \<longleftrightarrow> (\<exists>t \<in> set (wbEntries b). now - t < wbWindowMs b)"

text \<open>\<open>makeRoom\<close> returns the namespace's map and the table of sweep times.\<close>

definition makeRoom ::
  "string \<Rightarrow> string \<Rightarrow> time \<Rightarrow> window_map \<Rightarrow> (string \<times> time) list \<Rightarrow> window_map \<times> (string \<times> time) list" where
  "makeRoom name incomingKey now m sweeps =
     (if map_of m incomingKey \<noteq> None \<or> length m < MEMORY_STORE_MAX_KEYS then (m, sweeps)
      else if MEMORY_STORE_SWEEP_INTERVAL_MS \<le> now - (case map_of sweeps name of None \<Rightarrow> 0 | Some t \<Rightarrow> t)
      then (let m' = filter (\<lambda>e. live_bucket now (snd e)) m; sweeps' = AList.update name now sweeps in
            if length m' < MEMORY_STORE_MAX_KEYS then (m', sweeps') else (tl m', sweeps'))
      else (tl m, sweeps))"

definition addAndGetWindow ::
  "(string \<Rightarrow> string) \<Rightarrow> string \<Rightarrow> time \<Rightarrow> int \<Rightarrow> memory_store \<Rightarrow> memory_store \<times> time list" where
  "addAndGetWindow sha key0 timestamp windowMs s =
     (let key = boundedKey sha key0;
          name = rateLimitNamespace key;
          m = namespaceMap name s;
          entries = filter (\<lambda>t. timestamp - windowMs < t)
                      (case map_of m key of None \<Rightarrow> [] | Some b \<Rightarrow> wbEntries b) @ [timestamp]
      in (case makeRoom name key timestamp m (msLastSweepAt s) of
           (m', sweeps) \<Rightarrow>
             (s\<lparr>msTimestamps := AList.update name
                   (AList.update key \<lparr>wbEntries = entries, wbWindowMs = windowMs\<rparr> m') (msTimestamps s),
                msLastSweepAt := sweeps\<rparr>,
              entries)))"

text \<open>What a later request of the key will find.\<close>

definition window_entries :: "(string \<Rightarrow> string) \<Rightarrow> memory_store \<Rightarrow> string \<Rightarrow> time list" where
  "window_entries sha s key0 =
     (let key = boundedKey sha key0 in
      case map_of (namespaceMap (rateLimitNamespace key) s) key of None \<Rightarrow> [] | Some b \<Rightarrow> wbEntries b)"

section \<open>Lockouts\<close>

definition getLockout ::
  "(string \<Rightarrow> string) \<Rightarrow> time \<Rightarrow> string \<Rightarrow> memory_store \<Rightarrow> memory_store \<times> lockout option" where
  "getLockout sha now key0 s =
     (let key = boundedKey sha key0 in
      case map_of (msLockouts s) key of
        None \<Rightarrow> (s, None)
      | Some (st, expiresAt) \<Rightarrow>
          if expiresAt \<le> now then (s\<lparr>msLockouts := AList.delete key (msLockouts s)\<rparr>, None)
          else (s, Some st))"

definition lockout_room :: "string \<Rightarrow> time \<Rightarrow> memory_store \<Rightarrow> memory_store" where
  "lockout_room key now s =
     (if map_of (msLockouts s) key = None \<and> MEMORY_STORE_MAX_KEYS \<le> length (msLockouts s)
      then (let s' = (if MEMORY_STORE_SWEEP_INTERVAL_MS \<le> now - msLastLockoutSweepAt s
                      then s\<lparr>msLastLockoutSweepAt := now,
                             msLockouts := filter (\<lambda>e. now < snd (snd e)) (msLockouts s)\<rparr>
                      else s)
            in if MEMORY_STORE_MAX_KEYS \<le> length (msLockouts s')
               then s'\<lparr>msLockouts := tl (msLockouts s')\<rparr> else s')
      else s)"

definition setLockout ::
  "(string \<Rightarrow> string) \<Rightarrow> time \<Rightarrow> string \<Rightarrow> lockout \<Rightarrow> int \<Rightarrow> memory_store \<Rightarrow> memory_store" where
  "setLockout sha now key0 st ttlMs s =
     (let key = boundedKey sha key0; s' = lockout_room key now s in
      s'\<lparr>msLockouts := AList.update key (st, now + max 1 ttlMs) (msLockouts s')\<rparr>)"

definition deleteLockout :: "(string \<Rightarrow> string) \<Rightarrow> string \<Rightarrow> memory_store \<Rightarrow> memory_store" where
  "deleteLockout sha key0 s = s\<lparr>msLockouts := AList.delete (boundedKey sha key0) (msLockouts s)\<rparr>"

definition lockout_at :: "(string \<Rightarrow> string) \<Rightarrow> memory_store \<Rightarrow> time \<Rightarrow> string \<Rightarrow> lockout option" where
  "lockout_at sha s now key0 =
     (case map_of (msLockouts s) (boundedKey sha key0) of
        None \<Rightarrow> None
      | Some (st, expiresAt) \<Rightarrow> if expiresAt \<le> now then None else Some st)"

section \<open>cleanup\<close>

definition recent_bucket :: "time \<Rightarrow> window_bucket \<Rightarrow> window_bucket" where
  "recent_bucket now b = b\<lparr>wbEntries := filter (\<lambda>t. now - t < wbWindowMs b) (wbEntries b)\<rparr>"

definition cleanup_map :: "time \<Rightarrow> window_map \<Rightarrow> window_map" where
  "cleanup_map now m =
     filter (\<lambda>e. wbEntries (snd e) \<noteq> []) (map (\<lambda>(k, b). (k, recent_bucket now b)) m)"

definition cleanup :: "time \<Rightarrow> memory_store \<Rightarrow> memory_store" where
  "cleanup now s =
     (let maps = map (\<lambda>(n, m). (n, cleanup_map now m)) (msTimestamps s) in
      s\<lparr>msTimestamps := filter (\<lambda>e. snd e \<noteq> []) maps,
        msLastSweepAt := filter (\<lambda>e. \<not> (\<exists>p \<in> set maps. fst p = fst e \<and> snd p = [])) (msLastSweepAt s),
        msLockouts := filter (\<lambda>e. now < snd (snd e)) (msLockouts s)\<rparr>)"

section \<open>What the limiter relies on\<close>

text \<open>
  The window of a key after a request: the older timestamps still inside the window, then
  the new one.  A request for a key of another namespace does not change it.
\<close>

locale window_store =
  fixes add :: "string \<Rightarrow> time \<Rightarrow> int \<Rightarrow> 's \<Rightarrow> 's \<times> time list"
    and entries :: "'s \<Rightarrow> string \<Rightarrow> time list"
    and space :: "string \<Rightarrow> string"
  assumes add_result: "snd (add k t w s) = filter (\<lambda>x. t - w < x) (entries s k) @ [t]"
    and add_entries: "entries (fst (add k t w s)) k = snd (add k t w s)"
    and add_foreign: "space k' \<noteq> space k \<Longrightarrow> entries (fst (add k t w s)) k' = entries s k'"

locale lockout_store =
  fixes getL :: "time \<Rightarrow> string \<Rightarrow> 's \<Rightarrow> 's \<times> lockout option"
    and setL :: "time \<Rightarrow> string \<Rightarrow> lockout \<Rightarrow> int \<Rightarrow> 's \<Rightarrow> 's"
    and delL :: "string \<Rightarrow> 's \<Rightarrow> 's"
    and look :: "'s \<Rightarrow> time \<Rightarrow> string \<Rightarrow> lockout option"
  assumes get_result: "snd (getL now k s) = look s now k"
    and get_keeps: "now \<le> t \<Longrightarrow> look (fst (getL now k s)) t k' = look s t k'"
    and set_look: "look (setL now k e ttl s) t k = (if t < now + max 1 ttl then Some e else None)"
    and del_look: "look (delL k s) t k = None"

subsection \<open>The in-memory store keeps both contracts\<close>

lemma map_of_update: "map_of (AList.update k v m) j = (if j = k then Some v else map_of m j)"
  by (simp add: update_conv')

lemma namespaceMap_update:
  "namespaceMap n (s\<lparr>msTimestamps := AList.update name m (msTimestamps s), msLastSweepAt := sw\<rparr>)
     = (if n = name then m else namespaceMap n s)"
  by (simp add: namespaceMap_def map_of_update)

lemma snd_addAndGetWindow:
  "snd (addAndGetWindow sha k t w s) = filter (\<lambda>x. t - w < x) (window_entries sha s k) @ [t]"
  by (simp add: addAndGetWindow_def window_entries_def Let_def split: prod.split)

interpretation memory_windows: window_store "addAndGetWindow sha" "window_entries sha"
  "\<lambda>k. rateLimitNamespace (boundedKey sha k)"
proof unfold_locales
  fix k k' :: string and t :: time and w :: int and s :: memory_store
  show "snd (addAndGetWindow sha k t w s) = filter (\<lambda>x. t - w < x) (window_entries sha s k) @ [t]"
    by (rule snd_addAndGetWindow)
  show "window_entries sha (fst (addAndGetWindow sha k t w s)) k = snd (addAndGetWindow sha k t w s)"
    by (simp add: addAndGetWindow_def window_entries_def Let_def namespaceMap_update map_of_update
        split: prod.split)
  show "rateLimitNamespace (boundedKey sha k') \<noteq> rateLimitNamespace (boundedKey sha k)
      \<Longrightarrow> window_entries sha (fst (addAndGetWindow sha k t w s)) k' = window_entries sha s k'"
    by (simp add: addAndGetWindow_def window_entries_def Let_def namespaceMap_update
        split: prod.split)
qed

lemma map_of_delete: "map_of (AList.delete k m) j = (if j = k then None else map_of m j)"
  by (simp add: delete_conv')

interpretation memory_lockouts: lockout_store "getLockout sha" "setLockout sha" "deleteLockout sha"
  "lockout_at sha"
proof unfold_locales
  fix now t :: time and k k' :: string and s :: memory_store and e :: lockout and ttl :: int
  show "snd (getLockout sha now k s) = lockout_at sha s now k"
    by (simp add: getLockout_def lockout_at_def Let_def split: option.split)
  show "now \<le> t \<Longrightarrow> lockout_at sha (fst (getLockout sha now k s)) t k' = lockout_at sha s t k'"
    by (auto simp: getLockout_def lockout_at_def Let_def map_of_delete split: option.split)
  show "lockout_at sha (setLockout sha now k e ttl s) t k = (if t < now + max 1 ttl then Some e else None)"
    by (simp add: setLockout_def lockout_at_def Let_def map_of_update)
  show "lockout_at sha (deleteLockout sha k s) t k = None"
    by (simp add: deleteLockout_def lockout_at_def map_of_delete)
qed

section \<open>Bounds\<close>

definition map_bounded :: "(string \<times> 'v) list \<Rightarrow> bool" where
  "map_bounded m \<longleftrightarrow> length m \<le> MEMORY_STORE_MAX_KEYS
     \<and> (\<forall>e \<in> set m. length (fst e) \<le> MEMORY_STORE_MAX_KEY_CHARS)"

definition store_bounded :: "memory_store \<Rightarrow> bool" where
  "store_bounded s \<longleftrightarrow> (\<forall>n. map_bounded (namespaceMap n s)) \<and> map_bounded (msLockouts s)"

lemma length_boundedKey: "length (boundedKey sha key) \<le> MEMORY_STORE_MAX_KEY_CHARS"
  by (simp add: boundedKey_def MEMORY_STORE_MAX_KEY_CHARS_def min_def)

lemma length_update:
  "length (AList.update k v m) = (if map_of m k = None then Suc (length m) else length m)"
  by (induction m) auto

lemma set_update_subset: "set (AList.update k v m) \<subseteq> insert (k, v) (set m)"
  by (induction m) auto

lemma length_delete: "length (AList.delete k m) \<le> length m"
  by (induction m) auto

lemma set_delete_subset: "set (AList.delete k m) \<subseteq> set m"
  by (induction m) auto

lemma map_of_filter_None: "map_of m k = None \<Longrightarrow> map_of (filter p m) k = None"
  by (auto simp: map_of_eq_None_iff)

lemma map_of_tl_None: "map_of m k = None \<Longrightarrow> map_of (tl m) k = None"
  by (cases m) (auto split: if_splits)

lemma map_bounded_update:
  assumes "map_bounded m" and "length k \<le> MEMORY_STORE_MAX_KEY_CHARS"
    and "map_of m k = None \<Longrightarrow> length m < MEMORY_STORE_MAX_KEYS"
  shows "map_bounded (AList.update k v m)"
  using assms set_update_subset [of k v m] by (fastforce simp: map_bounded_def length_update)

lemma map_bounded_subset:
  "map_bounded m \<Longrightarrow> set m' \<subseteq> set m \<Longrightarrow> length m' \<le> length m \<Longrightarrow> map_bounded m'"
  by (auto simp: map_bounded_def)

lemma tl_subset: "set (tl m) \<subseteq> set m"
  by (cases m) auto

lemma map_bounded_filter: "map_bounded m \<Longrightarrow> map_bounded (filter p m)"
  by (erule map_bounded_subset) auto

lemma map_bounded_tl: "map_bounded m \<Longrightarrow> map_bounded (tl m)"
  by (erule map_bounded_subset) (rule tl_subset, simp)

lemma tl_room: "length m \<le> MEMORY_STORE_MAX_KEYS \<Longrightarrow> length (tl m) < MEMORY_STORE_MAX_KEYS"
  by (auto simp: MEMORY_STORE_MAX_KEYS_def)

lemma makeRoom_bounded:
  assumes "map_bounded m"
  shows "map_bounded (fst (makeRoom name k now m sweeps))
       \<and> (map_of (fst (makeRoom name k now m sweeps)) k = None
          \<longrightarrow> length (fst (makeRoom name k now m sweeps)) < MEMORY_STORE_MAX_KEYS)"
proof -
  have l: "length m \<le> MEMORY_STORE_MAX_KEYS" using assms by (simp add: map_bounded_def)
  have f: "length (filter p m) \<le> MEMORY_STORE_MAX_KEYS" for p
    using l length_filter_le [of p m] by linarith
  show ?thesis
    using assms tl_room [OF l] tl_room [OF f]
    by (auto simp: makeRoom_def Let_def intro: map_bounded_filter map_bounded_tl)
qed

lemma lockout_room_bounded:
  assumes "store_bounded s"
  shows "map_bounded (msLockouts (lockout_room k now s))
       \<and> (map_of (msLockouts (lockout_room k now s)) k = None
          \<longrightarrow> length (msLockouts (lockout_room k now s)) < MEMORY_STORE_MAX_KEYS)"
proof -
  have b: "map_bounded (msLockouts s)" using assms by (simp add: store_bounded_def)
  have l: "length (msLockouts s) \<le> MEMORY_STORE_MAX_KEYS" using b by (simp add: map_bounded_def)
  have f: "length (filter p (msLockouts s)) \<le> MEMORY_STORE_MAX_KEYS" for p
    using l length_filter_le [of p "msLockouts s"] by linarith
  show ?thesis
    using b tl_room [OF l] tl_room [OF f]
    by (auto simp: lockout_room_def Let_def intro: map_bounded_filter map_bounded_tl)
qed

lemma namespace_lockout_room: "namespaceMap n (lockout_room k now s) = namespaceMap n s"
  by (simp add: lockout_room_def namespaceMap_def Let_def)

text \<open>
  C38. Hostile traffic cannot grow the store: whatever keys and times requests and failures
  bring, every namespace and the lockout table hold at most 50,000 keys, and no key is longer
  than 256 characters.
\<close>

theorem store_stays_bounded:
  assumes "store_bounded s"
  shows "store_bounded (fst (addAndGetWindow sha k t w s))
       \<and> store_bounded (setLockout sha now k e ttl s)
       \<and> store_bounded (fst (getLockout sha now k s))
       \<and> store_bounded (deleteLockout sha k s)"
proof (intro conjI)
  have ns: "map_bounded (namespaceMap n s)" and lo: "map_bounded (msLockouts s)" for n
    using assms by (auto simp: store_bounded_def)
  let ?k = "boundedKey sha k"
  let ?n = "rateLimitNamespace ?k"
  let ?r = "makeRoom ?n ?k t (namespaceMap ?n s) (msLastSweepAt s)"
  have "map_bounded (AList.update ?k b (fst ?r))" for b
    using makeRoom_bounded [OF ns] by (intro map_bounded_update length_boundedKey) blast+
  then show "store_bounded (fst (addAndGetWindow sha k t w s))"
    using ns lo
    by (simp add: addAndGetWindow_def Let_def store_bounded_def namespaceMap_update case_prod_beta)
  show "store_bounded (setLockout sha now k e ttl s)"
    using ns lockout_room_bounded [OF assms, of ?k now] namespace_lockout_room [of _ ?k now s]
    by (auto simp: setLockout_def Let_def store_bounded_def namespaceMap_def
        intro!: map_bounded_update length_boundedKey)
  have del: "map_bounded (AList.delete ?k (msLockouts s))"
    using lo by (rule map_bounded_subset) (rule set_delete_subset, rule length_delete)
  then show "store_bounded (fst (getLockout sha now k s))"
    using ns lo
    by (auto simp: getLockout_def Let_def store_bounded_def namespaceMap_def split: option.split)
  show "store_bounded (deleteLockout sha k s)"
    using ns del by (simp add: deleteLockout_def store_bounded_def namespaceMap_def)
qed

theorem store_stays_bounded_witness:
  "store_bounded (setLockout (\<lambda>_. ''0'') 5 ''bob'' \<lparr>failCount = 1, lockedUntil = None, lastFailureAt = 5\<rparr>
     1000 empty_store)"
proof -
  have "store_bounded empty_store"
    by (simp add: store_bounded_def map_bounded_def namespaceMap_def empty_store_def)
  from store_stays_bounded [OF this] show ?thesis by blast
qed

end
