(* ===== verification/Rate_Limit.thy ===== *)
theory Rate_Limit
  imports Rate_Limit_Store
begin

text \<open>
  \<^verbatim>\<open>src/lib/rate-limit.ts\<close>: request limiting, the client address, and the account lockout.  The
  operations take the store's operations as arguments; their laws come from the locales of
  \<open>Rate_Limit_Store\<close>, and the properties are about the in-memory store.

  \<open>chainLockoutMutation\<close> serialises the read-modify-write of one key, so each mutation is one
  step here.  \<open>nfkc\<close> is \<open>String.prototype.normalize("NFKC")\<close>.
\<close>

section \<open>checkRateLimitAsync\<close>

record rate_config =
  maxRequests :: int
  windowMs :: int

definition DEFAULT_CONFIG :: rate_config where
  "DEFAULT_CONFIG = \<lparr>maxRequests = 10, windowMs = 60 * 1000\<rparr>"

definition LOGIN_RATE_LIMIT :: rate_config where
  "LOGIN_RATE_LIMIT = \<lparr>maxRequests = 5, windowMs = 60 * 1000\<rparr>"

definition LOGIN_SLOW_RATE_LIMIT :: rate_config where
  "LOGIN_SLOW_RATE_LIMIT = \<lparr>maxRequests = 20, windowMs = 15 * 60 * 1000\<rparr>"

record rate_verdict =
  allowed :: bool
  retryAfterMs :: int
  remaining :: int

definition rate_verdict_of :: "rate_config \<Rightarrow> time \<Rightarrow> time list \<Rightarrow> rate_verdict" where
  "rate_verdict_of cfg now timestamps =
     (let n = int (length timestamps) in
      if maxRequests cfg < n
      then (let i = n - maxRequests cfg;
                expiresForNextRequest = (if i < n then timestamps ! nat i else now)
            in \<lparr>allowed = False,
                retryAfterMs = max (expiresForNextRequest + windowMs cfg - now) 0, remaining = 0\<rparr>)
      else \<lparr>allowed = True, retryAfterMs = 0, remaining = max (maxRequests cfg - n) 0\<rparr>)"

definition checkRateLimitAsync ::
  "(string \<Rightarrow> time \<Rightarrow> int \<Rightarrow> 's \<Rightarrow> 's \<times> time list) \<Rightarrow> string \<Rightarrow> rate_config \<Rightarrow> time \<Rightarrow> 's
     \<Rightarrow> 's \<times> rate_verdict" where
  "checkRateLimitAsync add identifier cfg now s =
     (case add identifier now (windowMs cfg) s of
        (s', timestamps) \<Rightarrow> (s', rate_verdict_of cfg now timestamps))"

text \<open>Traffic: requests for any keys; the stamps at which requests of \<open>k\<close> were let through.\<close>

fun allowed_times ::
  "(string \<Rightarrow> time \<Rightarrow> int \<Rightarrow> 's \<Rightarrow> 's \<times> time list) \<Rightarrow> string
     \<Rightarrow> (string \<times> rate_config \<times> time) list \<Rightarrow> 's \<Rightarrow> time list" where
  "allowed_times add k [] s = []"
| "allowed_times add k ((key, cfg, now) # reqs) s =
     (case checkRateLimitAsync add key cfg now s of
        (s', v) \<Rightarrow> (if key = k \<and> allowed v then [now] else []) @ allowed_times add k reqs s')"

definition in_window :: "int \<Rightarrow> time \<Rightarrow> time list \<Rightarrow> nat" where
  "in_window w T ts = length (filter (\<lambda>t. T - w < t \<and> t \<le> T) ts)"

definition after_time :: "time \<Rightarrow> time list \<Rightarrow> nat" where
  "after_time c ts = length (filter (\<lambda>t. c < t) ts)"

lemma after_time_append [simp]: "after_time c (xs @ ys) = after_time c xs + after_time c ys"
  by (simp add: after_time_def)

lemma after_time_simps [simp]: "after_time c [] = 0" "after_time c [t] = (if c < t then 1 else 0)"
  by (simp_all add: after_time_def)

lemma in_window_le: "c \<le> T - w \<Longrightarrow> in_window w T ts \<le> after_time c ts"
  unfolding in_window_def after_time_def by (induction ts) auto

lemma in_window_snoc:
  "in_window w T (ts @ [t]) = in_window w T ts + (if T - w < t \<and> t \<le> T then 1 else 0)"
  by (simp add: in_window_def)

lemma after_time_filter: "a \<le> c \<Longrightarrow> after_time c (filter (\<lambda>t. a < t) ts) = after_time c ts"
  unfolding after_time_def by (induction ts) auto

lemma allowed_iff: "allowed (rate_verdict_of cfg now ts) \<longleftrightarrow> int (length ts) \<le> maxRequests cfg"
  by (simp add: rate_verdict_of_def Let_def)

context window_store
begin

lemma window_bound_step:
  assumes hist: "\<forall>c \<ge> L - w. after_time c hist \<le> after_time c (entries s k)"
    and bound: "\<forall>T. int (in_window w T hist) \<le> N"
    and t: "L \<le> t" and s': "add k t w s = (s', ts)"
    and h': "hist' = hist @ (if int (length ts) \<le> N then [t] else [])"
  shows "(\<forall>c \<ge> t - w. after_time c hist' \<le> after_time c (entries s' k))
       \<and> (\<forall>T. int (in_window w T hist') \<le> N)"
proof -
  have e: "entries s' k = filter (\<lambda>x. t - w < x) (entries s k) @ [t]"
    and ts: "ts = filter (\<lambda>x. t - w < x) (entries s k) @ [t]"
    using add_result [of k t w s] add_entries [of k t w s] s' by auto
  have "after_time c hist' \<le> after_time c (entries s' k)" if "t - w \<le> c" for c
    using hist [rule_format, of c] t that by (simp add: h' e after_time_filter)
  moreover have "int (in_window w T hist') \<le> N" for T
  proof (cases "int (length ts) \<le> N \<and> t \<le> T")
    case True
    have "in_window w T hist \<le> after_time (t - w) hist" using True by (intro in_window_le) simp
    also have "\<dots> \<le> after_time (t - w) (entries s k)" using hist t by simp
    also have "Suc (after_time (t - w) (entries s k)) = length ts"
      by (simp add: ts after_time_def)
    finally have "Suc (in_window w T hist) \<le> length ts" by simp
    with True show ?thesis by (simp add: h' in_window_snoc)
  next
    case False
    then have "in_window w T hist' = in_window w T hist" by (auto simp: h' in_window_snoc)
    then show ?thesis using bound by simp
  qed
  ultimately show ?thesis by blast
qed

lemma sliding_window:
  assumes "\<forall>c \<ge> L - windowMs cfg. after_time c hist \<le> after_time c (entries s k)"
    and "\<forall>T. int (in_window (windowMs cfg) T hist) \<le> maxRequests cfg"
    and "\<forall>r \<in> set reqs. fst r = k \<longrightarrow> fst (snd r) = cfg"
    and "\<forall>r \<in> set reqs. fst r \<noteq> k \<longrightarrow> space (fst r) \<noteq> space k"
    and "sorted_wrt (\<le>) (L # map (\<lambda>r. snd (snd r)) (filter (\<lambda>r. fst r = k) reqs))"
  shows "int (in_window (windowMs cfg) T (hist @ allowed_times add k reqs s)) \<le> maxRequests cfg"
  using assms
proof (induction reqs arbitrary: s hist L)
  case Nil
  then show ?case by simp
next
  case (Cons r reqs)
  obtain key c t where r: "r = (key, c, t)" by (cases r) auto
  obtain s' ts where add: "add key t (windowMs c) s = (s', ts)" by fastforce
  show ?case
  proof (cases "key = k")
    case True
    then have c: "c = cfg" using Cons.prems(3) by (simp add: r)
    have srt: "sorted_wrt (\<le>) (t # map (\<lambda>r. snd (snd r)) (filter (\<lambda>r. fst r = k) reqs))" and t: "L \<le> t"
      using Cons.prems(5) True by (auto simp: r)
    let ?new = "if int (length ts) \<le> maxRequests cfg then [t] else []"
    have inv: "(\<forall>x \<ge> t - windowMs cfg. after_time x (hist @ ?new) \<le> after_time x (entries s' k))
        \<and> (\<forall>T. int (in_window (windowMs cfg) T (hist @ ?new)) \<le> maxRequests cfg)"
      by (rule window_bound_step [OF Cons.prems(1,2) t add [unfolded True c] refl])
    have step: "allowed_times add k (r # reqs) s = ?new @ allowed_times add k reqs s'"
      by (simp add: r True c add [unfolded True c] checkRateLimitAsync_def allowed_iff)
    have rest: "\<forall>r \<in> set reqs. fst r = k \<longrightarrow> fst (snd r) = cfg"
      "\<forall>r \<in> set reqs. fst r \<noteq> k \<longrightarrow> space (fst r) \<noteq> space k"
      using Cons.prems(3,4) by auto
    show ?thesis
      unfolding step append_assoc [symmetric]
      by (rule Cons.IH [OF conjunct1 [OF inv] conjunct2 [OF inv] rest srt])
  next
    case False
    then have e: "entries s' k = entries s k"
      using add_foreign [of k key t "windowMs c" s] Cons.prems(4) add by (auto simp: r)
    have step: "allowed_times add k (r # reqs) s = allowed_times add k reqs s'"
      by (simp add: r False add checkRateLimitAsync_def)
    have rest: "\<forall>r \<in> set reqs. fst r = k \<longrightarrow> fst (snd r) = cfg"
      "\<forall>r \<in> set reqs. fst r \<noteq> k \<longrightarrow> space (fst r) \<noteq> space k"
      "sorted_wrt (\<le>) (L # map (\<lambda>r. snd (snd r)) (filter (\<lambda>r. fst r = k) reqs))"
      using Cons.prems(3-5) False by (auto simp: r)
    show ?thesis
      unfolding step by (rule Cons.IH [OF Cons.prems(1) [folded e] Cons.prems(2) rest])
  qed
qed

end

text \<open>
  C35. The limiter keeps its promise under hostile traffic: of the requests for a key, at most
  \<open>maxRequests\<close> are let through in any window of length \<open>windowMs\<close>, while any number of
  requests for keys of other namespaces (made-up paths, say) come in between, evictions and
  all, from any state of the store.
\<close>

theorem rate_limit_sliding_window:
  assumes "0 \<le> maxRequests cfg"
    and "\<forall>r \<in> set reqs. fst r = k \<longrightarrow> fst (snd r) = cfg"
    and "\<forall>r \<in> set reqs. fst r \<noteq> k \<longrightarrow>
           rateLimitNamespace (boundedKey sha (fst r)) \<noteq> rateLimitNamespace (boundedKey sha k)"
    and "sorted_wrt (\<le>) (map (\<lambda>r. snd (snd r)) (filter (\<lambda>r. fst r = k) reqs))"
  shows "int (in_window (windowMs cfg) T (allowed_times (addAndGetWindow sha) k reqs s))
       \<le> maxRequests cfg"
proof -
  let ?ts = "map (\<lambda>r. snd (snd r)) (filter (\<lambda>r. fst r = k) reqs)"
  let ?L = "case ?ts of [] \<Rightarrow> 0 | t # _ \<Rightarrow> t"
  have "sorted_wrt (\<le>) (?L # ?ts)" using assms(4) by (cases ?ts) auto
  from memory_windows.sliding_window [where hist = "[]" and L = ?L, OF _ _ assms(2,3) this]
  show ?thesis using assms(1) by (simp add: in_window_def)
qed

theorem rate_limit_sliding_window_witness:
  "int (in_window (windowMs \<lparr>maxRequests = 1, windowMs = 10\<rparr>) 25
     (allowed_times (addAndGetWindow (\<lambda>_. [])) ''login:1''
        [(''login:1'', \<lparr>maxRequests = 1, windowMs = 10\<rparr>, 20), (''/api/x'', DEFAULT_CONFIG, 21),
         (''login:1'', \<lparr>maxRequests = 1, windowMs = 10\<rparr>, 22)] empty_store)) \<le> 1
   \<and> allowed_times (addAndGetWindow (\<lambda>_. [])) ''login:1''
        [(''login:1'', \<lparr>maxRequests = 1, windowMs = 10\<rparr>, 20), (''/api/x'', DEFAULT_CONFIG, 21),
         (''login:1'', \<lparr>maxRequests = 1, windowMs = 10\<rparr>, 22)] empty_store = [20]"
proof -
  let ?c = "\<lparr>maxRequests = 1, windowMs = 10\<rparr>"
  let ?reqs = "[(''login:1'', ?c, 20), (''/api/x'', DEFAULT_CONFIG, 21), (''login:1'', ?c, 22)]"
  have "rateLimitNamespace (boundedKey (\<lambda>_. []) ''/api/x'')
      \<noteq> rateLimitNamespace (boundedKey (\<lambda>_. []) ''login:1'')"
    by (simp add: boundedKey_def MEMORY_STORE_MAX_KEY_CHARS_def rateLimitNamespace_def startsWith_def)
  then have "int (in_window (windowMs ?c) 25
      (allowed_times (addAndGetWindow (\<lambda>_. [])) ''login:1'' ?reqs empty_store)) \<le> maxRequests ?c"
    by (intro rate_limit_sliding_window) auto
  moreover have "allowed_times (addAndGetWindow (\<lambda>_. [])) ''login:1'' ?reqs empty_store = [20]"
    by (simp add: checkRateLimitAsync_def addAndGetWindow_def empty_store_def namespaceMap_def
        makeRoom_def MEMORY_STORE_MAX_KEYS_def boundedKey_def MEMORY_STORE_MAX_KEY_CHARS_def
        rateLimitNamespace_def startsWith_def DEFAULT_CONFIG_def rate_verdict_of_def Let_def)
  ultimately show ?thesis by simp
qed

section \<open>getClientIp\<close>

definition normalizeClientIp :: "string \<Rightarrow> string option" where
  "normalizeClientIp raw =
     (let c0 = trim raw in
      if c0 = [] then None
      else (let c1 =
              (if startsWith c0 ''['' then
                 (case index_of (CHR '']'') c0 of
                    Some (Suc n) \<Rightarrow> take n (drop 1 c0)
                  | _ \<Rightarrow> c0)
               else if length (split_on (CHR '':'') c0) = 2 then takeWhile (\<lambda>c. c \<noteq> CHR '':'') c0
               else c0);
              c2 = trim c1
            in if c2 = [] \<or> 64 < length c2 \<or> (\<exists>c \<in> set c2. js_space c) then None else Some c2))"

definition forwarded_entries :: "string \<Rightarrow> string list" where
  "forwarded_entries forwardedFor =
     List.map_filter normalizeClientIp (split_on (CHR '','') forwardedFor)"

text \<open>\<open>hops\<close> and \<open>trustCf\<close> are the deployment's settings, the two headers the request's.\<close>

definition getClientIp :: "int \<Rightarrow> bool \<Rightarrow> string option \<Rightarrow> string option \<Rightarrow> string" where
  "getClientIp hops trustCf cfHeader forwardedFor =
     (let fromForwarded =
            (if truthy forwardedFor then
               (let entries = forwarded_entries (the forwardedFor);
                    i = int (length entries) - hops
                in if 0 \<le> i \<and> i < int (length entries) then entries ! nat i else ''unknown'')
             else ''unknown'')
      in if hops \<le> 0 then ''unknown''
         else if trustCf then
           (case normalizeClientIp (case cfHeader of None \<Rightarrow> [] | Some h \<Rightarrow> h) of
              Some ip \<Rightarrow> ip | None \<Rightarrow> fromForwarded)
         else fromForwarded)"

lemma map_filter_append: "List.map_filter f (xs @ ys) = List.map_filter f xs @ List.map_filter f ys"
  by (simp add: map_filter_def)

lemma map_filter_all: "\<forall>x \<in> set xs. f x \<noteq> None \<Longrightarrow> List.map_filter f xs = map (\<lambda>x. the (f x)) xs"
  by (induction xs) (auto simp: map_filter_simps)

text \<open>
  C36. The client address cannot be spoofed through \<^verbatim>\<open>X-Forwarded-For\<close>: when the configured
  number of trusted proxies each appended one address, the result is the address the
  outermost of them saw, whatever the client itself put into the header.
\<close>

theorem client_ip_not_spoofable:
  assumes "int (length proxies) = hops" and "0 < hops"
    and "\<forall>e \<in> set proxies. CHR '','' \<notin> set e \<and> normalizeClientIp e \<noteq> None"
  shows "getClientIp hops False cf (Some (forged @ '','' @ join_on (CHR '','') proxies))
       = the (normalizeClientIp (hd proxies))"
proof -
  define h where "h = forged @ '','' @ join_on (CHR '','') proxies"
  have h: "h \<noteq> []" by (simp add: h_def)
  have ne: "proxies \<noteq> []" using assms by auto
  have "split_on (CHR '','') h = split_on (CHR '','') forged @ proxies"
    using split_on_append_any [of "CHR '',''" forged "join_on (CHR '','') proxies"]
      split_join [OF ne] assms(3) by (simp add: h_def)
  then have f: "forwarded_entries h = List.map_filter normalizeClientIp (split_on (CHR '','') forged)
      @ map (\<lambda>x. the (normalizeClientIp x)) proxies"
    using assms(3) by (simp add: forwarded_entries_def map_filter_append map_filter_all)
  have n: "int (length (forwarded_entries h)) - hops
      = int (length (List.map_filter normalizeClientIp (split_on (CHR '','') forged)))"
    using assms(1) by (simp add: f)
  have "forwarded_entries h ! length (List.map_filter normalizeClientIp (split_on (CHR '','') forged))
      = the (normalizeClientIp (hd proxies))"
    using ne by (simp add: f nth_append hd_conv_nth)
  moreover have "length (List.map_filter normalizeClientIp (split_on (CHR '','') forged))
      < length (forwarded_entries h)"
    using ne by (simp add: f)
  moreover have "hops \<le> int (length (forwarded_entries h))" using assms(1) by (simp add: f)
  ultimately show ?thesis
    using assms(2) h unfolding h_def [symmetric] by (simp add: getClientIp_def Let_def n)
qed

theorem client_ip_not_spoofable_witness:
  "getClientIp 1 False None (Some (''10.0.0.1, evil'' @ '','' @ join_on (CHR '','') ['' 203.0.113.7:5432'']))
   = ''203.0.113.7''"
proof -
  have "normalizeClientIp '' 203.0.113.7:5432'' = Some ''203.0.113.7''" by code_simp
  then show ?thesis
    using client_ip_not_spoofable [of "['' 203.0.113.7:5432'']" 1 None "''10.0.0.1, evil''"] by simp
qed

section \<open>Account lockout\<close>

definition ACCOUNT_LOCKOUT_MAX_FAILURES :: int where "ACCOUNT_LOCKOUT_MAX_FAILURES = 5"
definition ACCOUNT_WIDE_LOCKOUT_MAX_FAILURES :: int where "ACCOUNT_WIDE_LOCKOUT_MAX_FAILURES = 25"
definition ACCOUNT_LOCKOUT_DURATION_MS :: int where "ACCOUNT_LOCKOUT_DURATION_MS = 15 * 60 * 1000"
definition ACCOUNT_FAILURE_RETENTION_MS :: int where "ACCOUNT_FAILURE_RETENTION_MS = 15 * 60 * 1000"

datatype lockout_scope = Client | Account

text \<open>\<open>toLowerCase\<close> on the characters up to U+00FF.\<close>

definition js_lower :: "char \<Rightarrow> char" where
  "js_lower c =
     (let n = (of_char c :: nat) in
      if (65 \<le> n \<and> n \<le> 90) \<or> (192 \<le> n \<and> n \<le> 222 \<and> n \<noteq> 215) then char_of (n + 32) else c)"

definition lockoutKey :: "(string \<Rightarrow> string) \<Rightarrow> string \<Rightarrow> string" where
  "lockoutKey nfkc username = take 64 (map js_lower (nfkc (trim username)))"

definition clientLockoutKey :: "(string \<Rightarrow> string) \<Rightarrow> string \<Rightarrow> string option \<Rightarrow> string" where
  "clientLockoutKey nfkc username clientIp =
     lockoutKey nfkc username @ ''@'' @
     map js_lower (let ip = (case clientIp of None \<Rightarrow> [] | Some i \<Rightarrow> trim i)
                   in if ip = [] then ''unknown'' else ip)"

definition lockoutTtlMs :: "lockout \<Rightarrow> time \<Rightarrow> int" where
  "lockoutTtlMs entry now =
     (let until = (case lockedUntil entry of
                     None \<Rightarrow> lastFailureAt entry + ACCOUNT_FAILURE_RETENTION_MS | Some u \<Rightarrow> u)
      in max 1000 (until - now + 1000))"

text \<open>\<open>next.lockedUntil &&\<close> is false for null and for 0.\<close>

definition lock_set :: "lockout \<Rightarrow> bool" where
  "lock_set e \<longleftrightarrow> lockedUntil e \<noteq> None \<and> lockedUntil e \<noteq> Some 0"

definition applyLoginFailure :: "lockout option \<Rightarrow> time \<Rightarrow> int \<Rightarrow> int \<Rightarrow> lockout" where
  "applyLoginFailure entry now maxFailures lockoutMs =
     (let fresh = \<lparr>failCount = 0, lockedUntil = None, lastFailureAt = now\<rparr>;
          start = (case entry of
             None \<Rightarrow> fresh
           | Some e \<Rightarrow>
               if (lock_set e \<and> the (lockedUntil e) < now)
                  \<or> max lockoutMs ACCOUNT_FAILURE_RETENTION_MS \<le> now - lastFailureAt e
               then fresh else e);
          counted = \<lparr>failCount = failCount start + 1, lockedUntil = lockedUntil start, lastFailureAt = now\<rparr>
      in if maxFailures \<le> failCount counted \<and> \<not> lock_set counted
         then counted\<lparr>lockedUntil := Some (now + lockoutMs)\<rparr> else counted)"

type_synonym 's get_lockout = "time \<Rightarrow> string \<Rightarrow> 's \<Rightarrow> 's \<times> lockout option"
type_synonym 's set_lockout = "time \<Rightarrow> string \<Rightarrow> lockout \<Rightarrow> int \<Rightarrow> 's \<Rightarrow> 's"
type_synonym 's del_lockout = "string \<Rightarrow> 's \<Rightarrow> 's"

definition recordFailure ::
  "'s get_lockout \<Rightarrow> 's set_lockout \<Rightarrow> string \<Rightarrow> int \<Rightarrow> int \<Rightarrow> time \<Rightarrow> 's \<Rightarrow> 's \<times> lockout" where
  "recordFailure getL setL key maxFailures lockoutMs now s =
     (case getL now key s of
        (s1, previousEntry) \<Rightarrow>
          let entry = applyLoginFailure previousEntry now maxFailures lockoutMs
          in (setL now key entry (lockoutTtlMs entry now) s1, entry))"

definition readLock ::
  "'s get_lockout \<Rightarrow> 's del_lockout \<Rightarrow> string \<Rightarrow> time \<Rightarrow> 's \<Rightarrow> 's \<times> bool \<times> time option" where
  "readLock getL delL key now s =
     (case getL now key s of
        (s1, None) \<Rightarrow> (s1, False, None)
      | (s1, Some entry) \<Rightarrow>
          if \<not> lock_set entry then (s1, False, None)
          else if the (lockedUntil entry) < now then
            (case getL now key s1 of
               (s2, None) \<Rightarrow> (s2, False, None)
             | (s2, Some current) \<Rightarrow>
                 (if lock_set current \<and> the (lockedUntil current) < now then delL key s2 else s2,
                  False, None))
          else (s1, True, lockedUntil entry))"

record lock_status =
  locked :: bool
  lsLockedUntil :: "time option"
  lsScope :: "lockout_scope option"
  lsFailCount :: int
  lsAccountFailCount :: int

definition isAccountLockedAsync ::
  "'s get_lockout \<Rightarrow> 's del_lockout \<Rightarrow> (string \<Rightarrow> string) \<Rightarrow> string \<Rightarrow> string option \<Rightarrow> time \<Rightarrow> 's
     \<Rightarrow> 's \<times> bool \<times> time option \<times> lockout_scope option" where
  "isAccountLockedAsync getL delL nfkc username clientIp now s =
     (case readLock getL delL (lockoutKey nfkc username) now s of
        (s1, aLocked, aUntil) \<Rightarrow>
     (case readLock getL delL (clientLockoutKey nfkc username clientIp) now s1 of
        (s2, cLocked, cUntil) \<Rightarrow>
          (s2, if aLocked then (True, aUntil, Some Account)
               else if cLocked then (True, cUntil, Some Client)
               else (False, None, None))))"

text \<open>The policy is the three settings, or the constants when they cannot be read.\<close>

record lockout_policy =
  clientFailures :: int
  accountFailures :: int
  lockoutMs :: int

definition loginLockoutPolicy :: "(int \<times> int \<times> int) option \<Rightarrow> lockout_policy" where
  "loginLockoutPolicy settings =
     (case settings of
        Some (c, a, minutes) \<Rightarrow>
          \<lparr>clientFailures = c, accountFailures = a, lockoutMs = minutes * 60 * 1000\<rparr>
      | None \<Rightarrow> \<lparr>clientFailures = ACCOUNT_LOCKOUT_MAX_FAILURES,
                 accountFailures = ACCOUNT_WIDE_LOCKOUT_MAX_FAILURES,
                 lockoutMs = ACCOUNT_LOCKOUT_DURATION_MS\<rparr>)"

definition recordLoginFailureAsync ::
  "'s get_lockout \<Rightarrow> 's set_lockout \<Rightarrow> lockout_policy \<Rightarrow> (string \<Rightarrow> string) \<Rightarrow> string
     \<Rightarrow> string option \<Rightarrow> time \<Rightarrow> 's \<Rightarrow> 's \<times> lock_status" where
  "recordLoginFailureAsync getL setL policy nfkc username clientIp now s =
     (case recordFailure getL setL (clientLockoutKey nfkc username clientIp)
             (clientFailures policy) (lockoutMs policy) now s of
        (s1, client) \<Rightarrow>
     (case recordFailure getL setL (lockoutKey nfkc username)
             (accountFailures policy) (lockoutMs policy) now s1 of
        (s2, account) \<Rightarrow>
          let scope = (if lock_set account then Some Account
                       else if lock_set client then Some Client else None)
          in (s2, \<lparr>locked = (scope \<noteq> None),
                   lsLockedUntil = (case lockedUntil account of
                      None \<Rightarrow> lockedUntil client | Some u \<Rightarrow> Some u),
                   lsScope = scope, lsFailCount = failCount client,
                   lsAccountFailCount = failCount account\<rparr>)))"

definition clearLoginFailureAsync ::
  "'s del_lockout \<Rightarrow> (string \<Rightarrow> string) \<Rightarrow> string \<Rightarrow> string option \<Rightarrow> 's \<Rightarrow> 's" where
  "clearLoginFailureAsync delL nfkc username clientIp s =
     delL (clientLockoutKey nfkc username clientIp) (delL (lockoutKey nfkc username) s)"

section \<open>Counting failures\<close>

fun record_failures ::
  "'s get_lockout \<Rightarrow> 's set_lockout \<Rightarrow> string \<Rightarrow> int \<Rightarrow> int \<Rightarrow> time list \<Rightarrow> 's \<Rightarrow> 's" where
  "record_failures getL setL key m d [] s = s"
| "record_failures getL setL key m d (t # ts) s =
     record_failures getL setL key m d ts (fst (recordFailure getL setL key m d t s))"

context lockout_store
begin

text \<open>The counter of a key at \<open>c\<close> failures, the last at \<open>l\<close>, not locked.\<close>

definition counting :: "string \<Rightarrow> int \<Rightarrow> time \<Rightarrow> 's \<Rightarrow> bool" where
  "counting key c l s \<longleftrightarrow>
     (\<forall>t \<ge> l. look s t key = (if t < l + ACCOUNT_FAILURE_RETENTION_MS + 1000
        then Some \<lparr>failCount = c, lockedUntil = None, lastFailureAt = l\<rparr> else None))"

definition locking :: "string \<Rightarrow> int \<Rightarrow> time \<Rightarrow> int \<Rightarrow> 's \<Rightarrow> bool" where
  "locking key c l d s \<longleftrightarrow>
     (\<forall>t \<ge> l. look s t key = (if t < l + d + 1000
        then Some \<lparr>failCount = c, lockedUntil = Some (l + d), lastFailureAt = l\<rparr> else None))"

lemma recordFailure_look:
  "look (fst (recordFailure getL setL key m d now s)) t key =
     (let e = applyLoginFailure (look s now key) now m d in
      if t < now + max 1 (lockoutTtlMs e now) then Some e else None)"
proof -
  obtain s1 where "getL now key s = (s1, look s now key)"
    using get_result [of now key s] by (metis prod.collapse)
  then show ?thesis by (simp add: recordFailure_def Let_def set_look)
qed

lemma applied_first:
  assumes "0 < m"
  shows "applyLoginFailure None now m d =
     \<lparr>failCount = 1, lockedUntil = (if m = 1 then Some (now + d) else None), lastFailureAt = now\<rparr>"
  using assms by (auto simp: applyLoginFailure_def lock_set_def Let_def)

lemma applied_next:
  assumes "l \<le> now" and "now < l + ACCOUNT_FAILURE_RETENTION_MS"
  shows "applyLoginFailure (Some \<lparr>failCount = c, lockedUntil = None, lastFailureAt = l\<rparr>) now m d =
     \<lparr>failCount = c + 1, lockedUntil = (if m \<le> c + 1 then Some (now + d) else None),
      lastFailureAt = now\<rparr>"
  using assms by (auto simp: applyLoginFailure_def lock_set_def Let_def)

lemma ttl_counting:
  "lockoutTtlMs \<lparr>failCount = c, lockedUntil = None, lastFailureAt = now\<rparr> now
     = ACCOUNT_FAILURE_RETENTION_MS + 1000"
  by (simp add: lockoutTtlMs_def ACCOUNT_FAILURE_RETENTION_MS_def)

lemma ttl_locking:
  "0 < d \<Longrightarrow> lockoutTtlMs \<lparr>failCount = c, lockedUntil = Some (now + d), lastFailureAt = now\<rparr> now
     = d + 1000"
  by (simp add: lockoutTtlMs_def)

lemma recorded:
  assumes "applyLoginFailure (look s now key) now m d =
     \<lparr>failCount = c, lockedUntil = (if m \<le> c then Some (now + d) else None), lastFailureAt = now\<rparr>"
    and "0 < d"
  shows "if m \<le> c then locking key c now d (fst (recordFailure getL setL key m d now s))
         else counting key c now (fst (recordFailure getL setL key m d now s))"
  using assms(2)
  by (simp add: counting_def locking_def recordFailure_look assms(1) Let_def ttl_counting
      ttl_locking ACCOUNT_FAILURE_RETENTION_MS_def)

lemma count_on:
  assumes "counting key c l s" and "0 < d" and "c + int (length ts) \<le> m" and "c < m"
    and "successively (\<lambda>a b. a \<le> b \<and> b < a + ACCOUNT_FAILURE_RETENTION_MS) (l # ts)"
  shows "if m \<le> c + int (length ts)
         then locking key m (last (l # ts)) d (record_failures getL setL key m d ts s)
         else counting key (c + int (length ts)) (last (l # ts)) (record_failures getL setL key m d ts s)"
  using assms
proof (induction ts arbitrary: c l s)
  case Nil
  then show ?case by simp
next
  case (Cons t ts)
  have step: "l \<le> t" "t < l + ACCOUNT_FAILURE_RETENTION_MS"
    and rest: "successively (\<lambda>a b. a \<le> b \<and> b < a + ACCOUNT_FAILURE_RETENTION_MS) (t # ts)"
    using Cons.prems(5) by auto
  let ?s' = "fst (recordFailure getL setL key m d t s)"
  have "look s t key = Some \<lparr>failCount = c, lockedUntil = None, lastFailureAt = l\<rparr>"
    using Cons.prems(1) step by (simp add: counting_def)
  then have r: "if m \<le> c + 1 then locking key (c + 1) t d ?s' else counting key (c + 1) t ?s'"
    using recorded [of s t key m d "c + 1", OF _ Cons.prems(2)] applied_next [OF step, of c m d] by simp
  show ?case
  proof (cases "m \<le> c + 1")
    case True
    moreover have "c + 1 + int (length ts) \<le> m" using Cons.prems(3) by simp
    ultimately have "length ts = 0" and "m = c + 1" using Cons.prems(4) by linarith+
    with r show ?thesis by simp
  next
    case False
    then have "counting key (c + 1) t ?s'" and "c + 1 < m" using r by auto
    from Cons.IH [OF this(1) Cons.prems(2) _ this(2) rest] Cons.prems(3)
    show ?thesis by (simp add: algebra_simps split: if_splits)
  qed
qed

lemma count_from_none:
  assumes none: "look s t key = None" and "0 < d" and "int (length (t # ts)) \<le> m"
    and "successively (\<lambda>a b. a \<le> b \<and> b < a + ACCOUNT_FAILURE_RETENTION_MS) (t # ts)"
  shows "if m \<le> int (length (t # ts))
         then locking key m (last (t # ts)) d (record_failures getL setL key m d (t # ts) s)
         else counting key (int (length (t # ts))) (last (t # ts))
                (record_failures getL setL key m d (t # ts) s)"
proof -
  let ?s' = "fst (recordFailure getL setL key m d t s)"
  have m: "0 < m" using assms(3) by simp
  have r: "if m \<le> 1 then locking key 1 t d ?s' else counting key 1 t ?s'"
    using recorded [of s t key m d 1, OF _ assms(2)] applied_first [OF m, of t d] none m by auto
  show ?thesis
  proof (cases "m \<le> 1")
    case True
    moreover have "1 + int (length ts) \<le> m" using assms(3) by simp
    ultimately have "length ts = 0" and "m = 1" using m by linarith+
    with r show ?thesis by simp
  next
    case False
    then have "counting key 1 t ?s'" and "1 < m" using r by auto
    from count_on [OF this(1) assms(2) _ this(2) assms(4)] assms(3)
    show ?thesis by (simp add: algebra_simps split: if_splits)
  qed
qed

lemma readLock_result:
  "snd (readLock getL delL key now s) =
     (case look s now key of
        None \<Rightarrow> (False, None)
      | Some e \<Rightarrow> if lock_set e \<and> now \<le> the (lockedUntil e) then (True, lockedUntil e) else (False, None))"
  using get_result [of now key s]
  by (auto simp: readLock_def not_less split: prod.split option.split)

lemma lockout_counts:
  assumes none: "look s (hd stamps) key = None" and "stamps \<noteq> []" and "0 < hd stamps" and "0 < d"
    and "int (length stamps) \<le> m"
    and gaps: "successively (\<lambda>a b. a \<le> b \<and> b < a + ACCOUNT_FAILURE_RETENTION_MS) stamps"
    and "last stamps \<le> now"
  shows "snd (readLock getL delL key now (record_failures getL setL key m d stamps s)) =
     (if int (length stamps) = m \<and> now \<le> last stamps + d then (True, Some (last stamps + d))
      else (False, None))"
proof -
  obtain t ts where stamps: "stamps = t # ts" using assms(2) by (cases stamps) auto
  have "sorted stamps"
    using successively_mono [OF gaps, of "(\<le>)"] by (simp add: successively_conv_sorted_wrt)
  then have "hd stamps \<le> last stamps" by (simp add: stamps)
  then have pos: "0 < last stamps + d" using assms(3,4) by linarith
  note r = count_from_none [OF none [unfolded stamps list.sel] assms(4) assms(5) [unfolded stamps]
      gaps [unfolded stamps], folded stamps]
  show ?thesis
  proof (cases "m \<le> int (length stamps)")
    case True
    then have "int (length stamps) = m" using assms(5) by simp
    with r True assms(7) pos show ?thesis
      by (simp add: readLock_result locking_def lock_set_def)
  next
    case False
    with r assms(7) show ?thesis by (simp add: readLock_result counting_def lock_set_def)
  qed
qed

end

text \<open>
  C37. The lockout counts exactly: starting without a counter, failures less than the retention
  apart leave the key unlocked until the \<open>maxFailures\<close>-th, which locks it until \<open>lockoutMs\<close>
  after that failure and no longer.
\<close>

theorem lockout_exact:
  assumes "lockout_at sha s (hd stamps) key = None" and "stamps \<noteq> []" and "0 < hd stamps"
    and "0 < lockMs" and "int (length stamps) \<le> maxFailures"
    and "successively (\<lambda>a b. a \<le> b \<and> b < a + ACCOUNT_FAILURE_RETENTION_MS) stamps"
    and "last stamps \<le> now"
  shows "snd (readLock (getLockout sha) (deleteLockout sha) key now
           (record_failures (getLockout sha) (setLockout sha) key maxFailures lockMs stamps s)) =
     (if int (length stamps) = maxFailures \<and> now \<le> last stamps + lockMs
      then (True, Some (last stamps + lockMs)) else (False, None))"
  using assms by (rule memory_lockouts.lockout_counts)

theorem lockout_exact_witness:
  "snd (readLock (getLockout (\<lambda>_. [])) (deleteLockout (\<lambda>_. [])) ''bob@10.0.0.1'' 400
      (record_failures (getLockout (\<lambda>_. [])) (setLockout (\<lambda>_. [])) ''bob@10.0.0.1'' 3 900000
         [100, 200, 300] empty_store)) = (True, Some 900300)"
  using lockout_exact [of "\<lambda>_. []" empty_store "[100, 200, 300]" "''bob@10.0.0.1''" 900000 3 400]
  by (simp add: lockout_at_def empty_store_def ACCOUNT_FAILURE_RETENTION_MS_def)

definition collision_failures :: "memory_store \<Rightarrow> memory_store" where
  "collision_failures s =
     (let fail = (\<lambda>name ip t s. fst (recordLoginFailureAsync (getLockout (\<lambda>_. [])) (setLockout (\<lambda>_. []))
                    (loginLockoutPolicy None) (\<lambda>x. x) name (Some ip) t s))
      in fail ''bob'' ''203.0.113.7'' 5000
           (fail ''bob@203.0.113.7'' ''198.51.100.1'' 4000
           (fail ''bob@203.0.113.7'' ''198.51.100.1'' 3000
           (fail ''bob@203.0.113.7'' ''198.51.100.1'' 2000
           (fail ''bob@203.0.113.7'' ''198.51.100.1'' 1000 s)))))"

text \<open>
  The two counters of an account are not apart: the account-wide counter of the name
  \<open>bob@203.0.113.7\<close> is the client counter of \<open>bob\<close> at that address.  Four failed logins
  under the former name, from anywhere, and the first mistyped password of \<open>bob\<close> at
  \<open>203.0.113.7\<close> locks him out there.
\<close>

theorem lockout_keys_collide:
  "clientLockoutKey (\<lambda>x. x) ''bob'' (Some ''203.0.113.7'') = lockoutKey (\<lambda>x. x) ''bob@203.0.113.7''
   \<and> snd (isAccountLockedAsync (getLockout (\<lambda>_. [])) (deleteLockout (\<lambda>_. [])) (\<lambda>x. x) ''bob''
        (Some ''203.0.113.7'') 6000 (collision_failures empty_store))
     = (True, Some 905000, Some Client)"
proof
  show "clientLockoutKey (\<lambda>x. x) ''bob'' (Some ''203.0.113.7'') = lockoutKey (\<lambda>x. x) ''bob@203.0.113.7''"
    by code_simp
  have keys: "lockoutKey (\<lambda>x. x) ''bob'' = ''bob''"
    "lockoutKey (\<lambda>x. x) ''bob@203.0.113.7'' = ''bob@203.0.113.7''"
    "clientLockoutKey (\<lambda>x. x) ''bob'' (Some ''203.0.113.7'') = ''bob@203.0.113.7''"
    "clientLockoutKey (\<lambda>x. x) ''bob@203.0.113.7'' (Some ''198.51.100.1'')
       = ''bob@203.0.113.7@198.51.100.1''"
    by code_simp+
  show "snd (isAccountLockedAsync (getLockout (\<lambda>_. [])) (deleteLockout (\<lambda>_. [])) (\<lambda>x. x) ''bob''
        (Some ''203.0.113.7'') 6000 (collision_failures empty_store)) = (True, Some 905000, Some Client)"
    by (simp add: collision_failures_def isAccountLockedAsync_def recordLoginFailureAsync_def keys
        readLock_def recordFailure_def getLockout_def setLockout_def lockout_room_def empty_store_def
        boundedKey_def MEMORY_STORE_MAX_KEY_CHARS_def MEMORY_STORE_MAX_KEYS_def applyLoginFailure_def
        lockoutTtlMs_def lock_set_def loginLockoutPolicy_def ACCOUNT_LOCKOUT_MAX_FAILURES_def
        ACCOUNT_WIDE_LOCKOUT_MAX_FAILURES_def ACCOUNT_LOCKOUT_DURATION_MS_def
        ACCOUNT_FAILURE_RETENTION_MS_def Let_def)
qed

end
