(* ===== verification/Storage_Path.thy ===== *)
theory Storage_Path
  imports Errors "HOL-Library.Sublist"
begin

text \<open>
  \<^verbatim>\<open>src/lib/storage/path-utils.ts\<close> and \<^verbatim>\<open>src/lib/storage/remote-path.ts\<close>: how a user's path
  becomes a path inside a storage root.

  Paths here are full JavaScript strings, so they are lists of UTF-16 code units
  (\<open>ustring\<close>); lengths in bytes are those of \<open>TextEncoder\<close>.  \<open>path.posix.normalize\<close> and
  \<open>join\<close> are Node's.  \<open>win\<close> says whether the process runs on Windows.
\<close>

section \<open>UTF-16 strings\<close>

type_synonym ustring = "nat list"

abbreviation u :: "string \<Rightarrow> ustring" where "u s \<equiv> map of_char s"

abbreviation slash :: nat where "slash \<equiv> 47"
abbreviation backslash :: nat where "backslash \<equiv> 92"

definition us_space :: "nat \<Rightarrow> bool" where
  "us_space c \<longleftrightarrow>
     (9 \<le> c \<and> c \<le> 13) \<or> c = 32 \<or> c = 160 \<or> c = 5760 \<or> (8192 \<le> c \<and> c \<le> 8202)
     \<or> c = 8232 \<or> c = 8233 \<or> c = 8239 \<or> c = 8287 \<or> c = 12288 \<or> c = 65279"

definition us_trim :: "ustring \<Rightarrow> ustring" where
  "us_trim s = rev (dropWhile us_space (rev (dropWhile us_space s)))"

definition us_starts :: "ustring \<Rightarrow> ustring \<Rightarrow> bool" where
  "us_starts s pre \<longleftrightarrow> take (length pre) s = pre"

definition high_surrogate :: "nat \<Rightarrow> bool" where
  "high_surrogate c \<longleftrightarrow> 55296 \<le> c \<and> c \<le> 56319"

definition low_surrogate :: "nat \<Rightarrow> bool" where
  "low_surrogate c \<longleftrightarrow> 56320 \<le> c \<and> c \<le> 57343"

definition unit_bytes :: "nat \<Rightarrow> nat" where
  "unit_bytes c = (if c < 128 then 1 else if c < 2048 then 2 else 3)"

text \<open>A surrogate pair is four bytes, a lone surrogate the three of U+FFFD.\<close>

fun utf8_length :: "ustring \<Rightarrow> nat" where
  "utf8_length [] = 0"
| "utf8_length [c] = unit_bytes c"
| "utf8_length (c # d # cs) =
     (if high_surrogate c \<and> low_surrogate d then 4 + utf8_length cs
      else unit_bytes c + utf8_length (d # cs))"

section \<open>Node's path.posix\<close>

abbreviation dot :: ustring where "dot \<equiv> [46]"
abbreviation dotdot :: ustring where "dotdot \<equiv> [46, 46]"

definition norm_step :: "bool \<Rightarrow> ustring list \<Rightarrow> ustring \<Rightarrow> ustring list" where
  "norm_step allowAbove st seg =
     (if seg = [] \<or> seg = dot then st
      else if seg = dotdot
      then (case st of
              [] \<Rightarrow> if allowAbove then [dotdot] else []
            | s # rest \<Rightarrow> if s \<noteq> dotdot then rest
                          else if allowAbove then dotdot # st else st)
      else seg # st)"

definition norm_segments :: "bool \<Rightarrow> ustring list \<Rightarrow> ustring list" where
  "norm_segments allowAbove segs = rev (foldl (norm_step allowAbove) [] segs)"

definition posix_isAbsolute :: "ustring \<Rightarrow> bool" where
  "posix_isAbsolute p \<longleftrightarrow> p \<noteq> [] \<and> hd p = slash"

definition posix_normalize :: "ustring \<Rightarrow> ustring" where
  "posix_normalize p =
     (if p = [] then dot
      else (let isAbs = posix_isAbsolute p; trailing = (last p = slash);
                body = join_on slash (norm_segments (\<not> isAbs) (split_on slash p))
            in if body = [] then (if isAbs then [slash] else if trailing then [46, slash] else dot)
               else (if isAbs then [slash] else []) @ body @ (if trailing then [slash] else [])))"

definition posix_join :: "ustring \<Rightarrow> ustring \<Rightarrow> ustring" where
  "posix_join a b =
     (if a = [] \<and> b = [] then dot
      else if a = [] then posix_normalize b
      else if b = [] then posix_normalize a
      else posix_normalize (a @ slash # b))"

section \<open>path-utils.ts\<close>

definition MAX_PATH_LENGTH :: nat where "MAX_PATH_LENGTH = 4096"
definition MAX_STORAGE_PATH_BYTES :: nat where "MAX_STORAGE_PATH_BYTES = 2000"
definition MAX_SEGMENT_BYTES :: nat where "MAX_SEGMENT_BYTES = 255"

definition segmentTooLong :: "ustring \<Rightarrow> bool" where
  "segmentTooLong s \<longleftrightarrow> MAX_SEGMENT_BYTES < length s \<or> MAX_SEGMENT_BYTES < utf8_length s"

definition control_char :: "nat \<Rightarrow> bool" where
  "control_char c \<longleftrightarrow> c \<le> 31 \<or> c = 127"

definition hasInvalidSegmentChars :: "ustring \<Rightarrow> bool" where
  "hasInvalidSegmentChars s \<longleftrightarrow> (\<exists>c \<in> set s. control_char c \<or> c = backslash)"

text \<open>\<^verbatim>\<open>/[:*?"<>|]/\<close>\<close>

definition hasWindowsInvalidNameChars :: "ustring \<Rightarrow> bool" where
  "hasWindowsInvalidNameChars s \<longleftrightarrow> (\<exists>c \<in> set s. c \<in> {58, 42, 63, 34, 60, 62, 124})"

definition ascii_letter :: "nat \<Rightarrow> bool" where
  "ascii_letter c \<longleftrightarrow> (65 \<le> c \<and> c \<le> 90) \<or> (97 \<le> c \<and> c \<le> 122)"

definition drive_root :: "ustring \<Rightarrow> bool" where
  "drive_root s \<longleftrightarrow>
     (case s of
        a # b # rest \<Rightarrow> ascii_letter a \<and> b = 58
          \<and> (rest = [] \<or> hd rest = slash \<or> hd rest = backslash)
      | _ \<Rightarrow> False)"

definition isWindowsStorageBasePath :: "ustring \<Rightarrow> bool" where
  "isWindowsStorageBasePath basePath =
     (let s = us_trim basePath in
      drive_root s \<or> (us_starts s [slash] \<and> drive_root (drop 1 s)))"

definition to_slashes :: "ustring \<Rightarrow> ustring" where
  "to_slashes s = map (\<lambda>c. if c = backslash then slash else c) s"

definition normalizePathInput :: "ustring option \<Rightarrow> ustring" where
  "normalizePathInput value = us_trim (to_slashes (case value of None \<Rightarrow> [] | Some v \<Rightarrow> v))"

datatype path_reason =
    PathEmpty | PathAbsolute | PathTooLong | PathDots | SegmentTooLong | PathIllegalChars
  | PathWindowsChars | PathOutOfBounds | NameEmpty | NameSeparators | PathUnresolvable
  | PathThroughLink

type_synonym path_result = "path_reason + ustring"

definition segment_error :: "bool \<Rightarrow> ustring \<Rightarrow> path_reason option" where
  "segment_error win seg =
     (if seg = dot \<or> seg = dotdot then Some PathDots
      else if segmentTooLong seg then Some SegmentTooLong
      else if hasInvalidSegmentChars seg then Some PathIllegalChars
      else if win \<and> hasWindowsInvalidNameChars seg then Some PathWindowsChars
      else None)"

fun first_error :: "('a \<Rightarrow> 'e option) \<Rightarrow> 'a list \<Rightarrow> 'e option" where
  "first_error f [] = None"
| "first_error f (x # xs) = (case f x of Some e \<Rightarrow> Some e | None \<Rightarrow> first_error f xs)"

definition path_segments :: "ustring \<Rightarrow> ustring list" where
  "path_segments p = filter (\<lambda>s. s \<noteq> []) (map us_trim (split_on slash p))"

definition outside :: "ustring \<Rightarrow> bool" where
  "outside p \<longleftrightarrow> p = dotdot \<or> us_starts p (dotdot @ [slash]) \<or> posix_isAbsolute p"

definition validateSegments :: "bool \<Rightarrow> ustring \<Rightarrow> bool \<Rightarrow> path_result" where
  "validateSegments win rawValue allowEmpty =
     (let input = normalizePathInput (Some rawValue);
          empty' = (if allowEmpty then Inr [] else Inl PathEmpty)
      in if input = [] \<or> input = dot then empty'
         else if us_starts input [slash] then Inl PathAbsolute
         else if MAX_PATH_LENGTH < length input \<or> MAX_STORAGE_PATH_BYTES < utf8_length input
         then Inl PathTooLong
         else (let segments = path_segments input in
           if segments = [] then empty'
           else (case first_error (segment_error win) segments of
                   Some e \<Rightarrow> Inl e
                 | None \<Rightarrow>
                     (let normalized = posix_normalize (join_on slash segments) in
                      if normalized = dot \<or> outside normalized then Inl PathOutOfBounds
                      else Inr normalized))))"

definition or_empty :: "ustring option \<Rightarrow> ustring" where
  "or_empty value = (case value of None \<Rightarrow> [] | Some v \<Rightarrow> v)"

definition normalizeStorageRelativePath :: "bool \<Rightarrow> ustring option \<Rightarrow> path_result" where
  "normalizeStorageRelativePath win value = validateSegments win (or_empty value) False"

definition normalizeStorageTargetDirectory :: "bool \<Rightarrow> ustring option \<Rightarrow> path_result" where
  "normalizeStorageTargetDirectory win value = validateSegments win (or_empty value) True"

definition normalizeStorageEntryName :: "bool \<Rightarrow> ustring option \<Rightarrow> path_result" where
  "normalizeStorageEntryName win value =
     (let raw = us_trim (or_empty value) in
      if raw = [] then Inl NameEmpty
      else if slash \<in> set raw \<or> backslash \<in> set raw then Inl NameSeparators
      else validateSegments win raw False)"

definition joinStoragePath :: "bool \<Rightarrow> ustring option \<Rightarrow> ustring option \<Rightarrow> path_result" where
  "joinStoragePath win directory name =
     (case normalizeStorageTargetDirectory win directory of
        Inl e \<Rightarrow> Inl e
      | Inr dir \<Rightarrow>
          (case normalizeStorageEntryName win name of
             Inl e \<Rightarrow> Inl e
           | Inr entryName \<Rightarrow> Inr (if dir \<noteq> [] then dir @ slash # entryName else entryName)))"

definition getPathName :: "bool \<Rightarrow> ustring \<Rightarrow> ustring" where
  "getPathName win relativePath =
     (case normalizeStorageRelativePath win (Some relativePath) of
        Inl _ \<Rightarrow> [] | Inr p \<Rightarrow> last (split_on slash p))"

definition win32_isAbsolute :: "ustring \<Rightarrow> bool" where
  "win32_isAbsolute p \<longleftrightarrow>
     p \<noteq> [] \<and> (hd p = slash \<or> hd p = backslash
       \<or> (2 < length p \<and> ascii_letter (p ! 0) \<and> p ! 1 = 58 \<and> (p ! 2 = slash \<or> p ! 2 = backslash)))"

definition isSafeArchiveEntryPath :: "ustring option \<Rightarrow> bool" where
  "isSafeArchiveEntryPath value =
     (let rawInput = to_slashes (us_trim (or_empty value));
          input = normalizePathInput (Some rawInput)
      in if 2 \<le> length rawInput \<and> ascii_letter (rawInput ! 0) \<and> rawInput ! 1 = 58 then False
         else if input = [] \<or> MAX_PATH_LENGTH < length input \<or> us_starts input [slash]
                 \<or> win32_isAbsolute input \<or> dotdot \<in> set (split_on slash input)
         then False
         else (let normalized = posix_normalize input in
           if normalized = dot \<or> outside normalized then False
           else (\<forall>seg \<in> set (filter (\<lambda>s. s \<noteq> []) (split_on slash normalized)).
                   seg \<noteq> dot \<and> seg \<noteq> dotdot \<and> \<not> segmentTooLong seg
                   \<and> \<not> (\<exists>c \<in> set seg. control_char c))))"

definition sanitizeArchiveEntries :: "('e \<Rightarrow> ustring) \<Rightarrow> 'e list \<Rightarrow> 'e list" where
  "sanitizeArchiveEntries name entries =
     filter (\<lambda>e. isSafeArchiveEntryPath (Some (name e))) entries"

section \<open>remote-path.ts\<close>

datatype remote_path_error = WindowsNameCharacters | PathExceedsNodeRoot | TargetCannotBeRoot

definition strip_trailing_slashes :: "ustring \<Rightarrow> ustring" where
  "strip_trailing_slashes p = rev (dropWhile (\<lambda>c. c = slash) (rev p))"

definition normalizeAbsoluteBasePath :: "ustring \<Rightarrow> ustring" where
  "normalizeAbsoluteBasePath basePath =
     (let trimmed = (if us_trim basePath = [] then [slash] else us_trim basePath);
          rooted = (if us_starts trimmed [slash] then trimmed else slash # trimmed);
          normalized = strip_trailing_slashes (posix_normalize rooted)
      in if normalized = [] then [slash] else normalized)"

definition normalizeRemoteRelativePath :: "ustring option \<Rightarrow> remote_path_error + ustring" where
  "normalizeRemoteRelativePath requestedPath =
     (let requested = us_trim (or_empty requestedPath) in
      if requested = [] \<or> requested = [slash] then Inr []
      else (let normalizedRelative = posix_normalize (dropWhile (\<lambda>c. c = slash) requested) in
        if normalizedRelative = dot \<or> outside normalizedRelative then Inl PathExceedsNodeRoot
        else Inr normalizedRelative))"

definition normalizeRemotePath :: "ustring \<Rightarrow> ustring option \<Rightarrow> remote_path_error + ustring" where
  "normalizeRemotePath basePath requestedPath =
     (let base = normalizeAbsoluteBasePath basePath in
      case normalizeRemoteRelativePath requestedPath of
        Inl e \<Rightarrow> Inl e
      | Inr rel \<Rightarrow>
          if isWindowsStorageBasePath basePath \<and> hasWindowsInvalidNameChars rel
          then Inl WindowsNameCharacters
          else if rel = [] then Inr base
          else (let absolutePath = posix_normalize (posix_join base rel) in
            if base = [slash]
            then (if absolutePath \<noteq> [slash] \<and> \<not> us_starts absolutePath [slash]
                  then Inl PathExceedsNodeRoot else Inr absolutePath)
            else if absolutePath \<noteq> base \<and> \<not> us_starts absolutePath (base @ [slash])
            then Inl PathExceedsNodeRoot
            else Inr absolutePath))"

definition normalizeRemoteTargetPath :: "ustring \<Rightarrow> ustring option \<Rightarrow> remote_path_error + ustring" where
  "normalizeRemoteTargetPath basePath requestedPath =
     (case normalizeRemotePath basePath requestedPath of
        Inl e \<Rightarrow> Inl e
      | Inr normalized \<Rightarrow>
          if normalized = normalizeAbsoluteBasePath basePath then Inl TargetCannotBeRoot
          else Inr normalized)"

section \<open>Clean segments\<close>

text \<open>A clean segment is a name: neither empty nor a dot segment, without separator.\<close>

definition clean :: "ustring \<Rightarrow> bool" where
  "clean s \<longleftrightarrow> s \<noteq> [] \<and> s \<noteq> dot \<and> s \<noteq> dotdot \<and> slash \<notin> set s"

definition segs :: "ustring \<Rightarrow> ustring list" where
  "segs p = filter (\<lambda>s. s \<noteq> []) (split_on slash p)"

lemma norm_clean: "\<forall>s \<in> set ss. clean s \<Longrightarrow> foldl (norm_step b) st ss = rev ss @ st"
  by (induction ss arbitrary: st) (auto simp: norm_step_def clean_def)

lemma join_cons: "ps \<noteq> [] \<Longrightarrow> join_on c (p # ps) = p @ c # join_on c ps"
  by (cases ps) auto

lemma join_append: "ps \<noteq> [] \<Longrightarrow> qs \<noteq> [] \<Longrightarrow> join_on c (ps @ qs) = join_on c ps @ c # join_on c qs"
proof (induction ps)
  case (Cons p ps)
  then show ?case by (cases "ps = []") (simp_all add: join_cons)
qed simp

lemma join_split: "join_on c (split_on c s) = s"
proof (induction s)
  case Nil
  then show ?case by simp
next
  case (Cons x s)
  obtain p ps where s: "split_on c s = p # ps" by (cases "split_on c s") auto
  show ?case
  proof (cases "x = c")
    case True
    with Cons s show ?thesis by (simp add: join_cons)
  next
    case False
    with Cons s show ?thesis by (cases ps) auto
  qed
qed

lemma join_ne: "ps \<noteq> [] \<Longrightarrow> \<forall>p \<in> set ps. p \<noteq> [] \<Longrightarrow> join_on c ps \<noteq> []"
  by (induction c ps rule: join_on.induct) auto

lemma hd_join: "ps \<noteq> [] \<Longrightarrow> \<forall>p \<in> set ps. p \<noteq> [] \<Longrightarrow> hd (join_on c ps) = hd (hd ps)"
  by (induction c ps rule: join_on.induct) auto

lemma last_join: "ps \<noteq> [] \<Longrightarrow> \<forall>p \<in> set ps. p \<noteq> [] \<Longrightarrow> last (join_on c ps) = last (last ps)"
proof (induction c ps rule: join_on.induct)
  case (3 c p q ps)
  have "join_on c (q # ps) \<noteq> []" using 3 by (intro join_ne) auto
  with 3 show ?case by simp
qed auto

lemma split_no_sep: "p \<in> set (split_on c s) \<Longrightarrow> c \<notin> set p"
proof (induction s arbitrary: p)
  case (Cons x s)
  obtain q qs where "split_on c s = q # qs" by (cases "split_on c s") auto
  with Cons show ?case by (auto split: if_splits)
qed simp

lemma segs_join: "\<forall>s \<in> set ss. s \<noteq> [] \<and> slash \<notin> set s \<Longrightarrow> segs (join_on slash ss) = ss"
proof (cases "ss = []")
  case False
  assume a: "\<forall>s \<in> set ss. s \<noteq> [] \<and> slash \<notin> set s"
  then have "split_on slash (join_on slash ss) = ss" using False by (intro split_join) auto
  then show ?thesis using a by (simp add: segs_def)
qed (simp add: segs_def)

lemma posix_normalize_clean:
  assumes "ss \<noteq> []" and "\<forall>s \<in> set ss. clean s"
  shows "posix_normalize (join_on slash ss) = join_on slash ss"
proof -
  have ne: "\<forall>s \<in> set ss. s \<noteq> []" and ns: "\<forall>s \<in> set ss. slash \<notin> set s"
    using assms(2) by (auto simp: clean_def)
  have "hd (hd ss) \<noteq> slash" "last (last ss) \<noteq> slash"
    using assms ne ns by (metis hd_in_set, metis last_in_set)
  then have h: "hd (join_on slash ss) \<noteq> slash" "last (join_on slash ss) \<noteq> slash"
    using hd_join [OF assms(1) ne] last_join [OF assms(1) ne] by auto
  have sp: "split_on slash (join_on slash ss) = ss" using assms(1) ns by (intro split_join) auto
  show ?thesis
    using join_ne [OF assms(1) ne, of slash] h norm_clean [OF assms(2), of False "[]"]
      norm_clean [OF assms(2), of True "[]"]
    by (simp add: posix_normalize_def posix_isAbsolute_def norm_segments_def sp Let_def)
qed

section \<open>Sizes\<close>

text \<open>
  Dropping white space and empty segments never makes a path longer, in code units or in
  bytes: separators and white space are no surrogates, so no pair forms or breaks.
\<close>

definition plain :: "nat \<Rightarrow> bool" where
  "plain c \<longleftrightarrow> \<not> high_surrogate c \<and> \<not> low_surrogate c"

lemma plain_space: "us_space c \<Longrightarrow> plain c"
  by (auto simp: us_space_def plain_def high_surrogate_def low_surrogate_def)

lemma plain_slash: "plain slash"
  by (simp add: plain_def high_surrogate_def low_surrogate_def)

lemma utf8_Cons_plain: "plain c \<Longrightarrow> utf8_length (c # s) = unit_bytes c + utf8_length s"
  by (cases s) (auto simp: plain_def)

lemma utf8_append_plain:
  "plain c \<Longrightarrow> utf8_length (s @ c # t) = utf8_length s + unit_bytes c + utf8_length t"
proof (induction s rule: utf8_length.induct)
  case 1
  then show ?case by (simp add: utf8_Cons_plain)
next
  case (2 d)
  then show ?case by (auto simp: utf8_Cons_plain plain_def)
next
  case (3 a b cs)
  then show ?case by simp
qed

lemma utf8_dropWhile: "utf8_length (dropWhile us_space s) \<le> utf8_length s"
  by (induction s) (auto simp: utf8_Cons_plain plain_space)

lemma utf8_drop_trailing: "utf8_length (rev (dropWhile us_space (rev s))) \<le> utf8_length s"
proof (induction s rule: rev_induct)
  case (snoc x s)
  then show ?case
    using utf8_append_plain [of x s "[]"] plain_space [of x] by auto
qed simp

lemma utf8_trim: "utf8_length (us_trim s) \<le> utf8_length s"
  unfolding us_trim_def using utf8_dropWhile utf8_drop_trailing le_trans by blast

lemma length_trim: "length (us_trim s) \<le> length s"
  by (metis (no_types) length_dropWhile_le length_rev le_trans us_trim_def)

lemma shrink_join:
  assumes sep: "\<And>a b. m (a @ slash # b) = m a + 1 + m b" and nil: "m [] = (0::nat)"
    and t: "\<And>s. m (us_trim s) \<le> m s"
  shows "m (join_on slash (filter (\<lambda>s. s \<noteq> []) (map us_trim ps))) \<le> m (join_on slash ps)"
proof (induction ps)
  case Nil
  then show ?case by (simp add: nil)
next
  case (Cons p ps)
  let ?f = "\<lambda>ps. filter (\<lambda>s. s \<noteq> []) (map us_trim ps)"
  have rest: "m (join_on slash (?f ps)) \<le> m (join_on slash ps)" by (rule Cons)
  show ?case
  proof (cases "ps = []")
    case True
    then show ?thesis using t [of p] by (simp add: nil)
  next
    case ne: False
    have whole: "m (join_on slash (p # ps)) = m p + 1 + m (join_on slash ps)"
      by (simp add: join_cons [OF ne] sep)
    show ?thesis
    proof (cases "us_trim p = [] \<or> ?f ps = []")
      case True
      then show ?thesis using rest whole t [of p] by (auto simp: nil)
    next
      case False
      then have "m (join_on slash (?f (p # ps))) = m (us_trim p) + 1 + m (join_on slash (?f ps))"
        using sep [of "us_trim p" "join_on slash (?f ps)"] by (simp add: join_cons)
      then show ?thesis using rest whole t [of p] by simp
    qed
  qed
qed

lemma path_segments_shorter:
  "length (join_on slash (path_segments s)) \<le> length s"
  "utf8_length (join_on slash (path_segments s)) \<le> utf8_length s"
  using shrink_join [of length "split_on slash s"] length_trim
    shrink_join [of utf8_length "split_on slash s"] utf8_trim utf8_append_plain [OF plain_slash]
  by (simp_all add: path_segments_def join_split unit_bytes_def)

section \<open>What an accepted path is\<close>

lemma trim_edges:
  assumes "us_trim s \<noteq> []"
  shows "\<not> us_space (hd (us_trim s))" and "\<not> us_space (last (us_trim s))"
proof -
  let ?a = "dropWhile us_space s"
  have l: "\<not> us_space (hd (dropWhile us_space (rev ?a)))"
    using assms by (intro hd_dropWhile) (auto simp: us_trim_def dropWhile_eq_Nil_conv)
  then show "\<not> us_space (last (us_trim s))"
    using assms by (simp add: us_trim_def last_rev)
  have pre: "prefix (us_trim s) ?a"
    unfolding us_trim_def by (metis rev_rev_ident suffix_dropWhile suffix_to_prefix)
  then have "hd (us_trim s) = hd ?a" using assms by (auto elim: prefixE)
  moreover have "?a \<noteq> []" using pre assms by (metis prefix_Nil)
  ultimately show "\<not> us_space (hd (us_trim s))" by (metis hd_dropWhile dropWhile_eq_Nil_conv)
qed

lemma trim_id:
  assumes "s \<noteq> []" and "\<not> us_space (hd s)" and "\<not> us_space (last s)"
  shows "us_trim s = s"
proof -
  have "dropWhile us_space s = s" using assms by (cases s) auto
  moreover have "dropWhile us_space (rev s) = rev s"
    using assms by (cases "rev s") (auto simp: hd_rev dest: sym)
  ultimately show ?thesis by (simp add: us_trim_def)
qed

lemma first_error_None: "first_error f xs = None \<longleftrightarrow> (\<forall>x \<in> set xs. f x = None)"
  by (induction xs) (auto split: option.split)

lemma path_segments_mem:
  assumes "s \<in> set (path_segments p)"
  shows "s \<noteq> [] \<and> slash \<notin> set s \<and> \<not> us_space (hd s) \<and> \<not> us_space (last s)"
proof -
  obtain r where r: "r \<in> set (split_on slash p)" "s = us_trim r" "s \<noteq> []"
    using assms by (auto simp: path_segments_def)
  have "set (us_trim r) \<subseteq> set r"
    unfolding us_trim_def by (auto dest!: set_dropWhileD)
  then show ?thesis using r split_no_sep [OF r(1)] trim_edges [of r] by auto
qed

definition good_segment :: "bool \<Rightarrow> ustring \<Rightarrow> bool" where
  "good_segment win s \<longleftrightarrow> s \<noteq> [] \<and> slash \<notin> set s \<and> \<not> us_space (hd s) \<and> \<not> us_space (last s)
     \<and> segment_error win s = None"

lemma good_clean: "good_segment win s \<Longrightarrow> clean s"
  by (auto simp: good_segment_def clean_def segment_error_def split: if_splits)

lemma good_no_backslash: "good_segment win s \<Longrightarrow> backslash \<notin> set s"
  by (auto simp: good_segment_def segment_error_def hasInvalidSegmentChars_def split: if_splits)

lemma good_segment_facts:
  assumes "good_segment win s"
  shows "s \<noteq> [] \<and> s \<noteq> dot \<and> s \<noteq> dotdot \<and> utf8_length s \<le> MAX_SEGMENT_BYTES
      \<and> (\<forall>c \<in> set s. c \<noteq> backslash \<and> \<not> control_char c)"
  using assms by (auto simp: good_segment_def segment_error_def segmentTooLong_def
      hasInvalidSegmentChars_def split: if_splits)

text \<open>An accepted path is the join of good segments, and short enough.\<close>

definition good_path :: "bool \<Rightarrow> ustring \<Rightarrow> bool" where
  "good_path win p \<longleftrightarrow> p = [] \<or>
     (\<exists>ss. ss \<noteq> [] \<and> (\<forall>s \<in> set ss. good_segment win s) \<and> p = join_on slash ss
        \<and> length p \<le> MAX_PATH_LENGTH \<and> utf8_length p \<le> MAX_STORAGE_PATH_BYTES)"

lemma validate_good:
  assumes "validateSegments win raw e = Inr p"
  shows "good_path win p \<and> (p = [] \<longrightarrow> e)"
proof -
  let ?i = "normalizePathInput (Some raw)" and ?ss = "path_segments (normalizePathInput (Some raw))"
  show ?thesis
  proof (cases "p = []")
    case True
    have "posix_normalize q \<noteq> []" for q
      by (auto simp: posix_normalize_def Let_def)
    then show ?thesis
      using True assms by (auto simp: good_path_def validateSegments_def Let_def
          split: if_splits option.splits)
  next
    case False
    then have err: "first_error (segment_error win) ?ss = None" and ne: "?ss \<noteq> []"
      and p: "p = posix_normalize (join_on slash ?ss)"
      and len: "length ?i \<le> MAX_PATH_LENGTH" "utf8_length ?i \<le> MAX_STORAGE_PATH_BYTES"
      using assms by (auto simp: validateSegments_def Let_def split: if_splits option.splits)
    have good: "\<forall>s \<in> set ?ss. good_segment win s"
      using err path_segments_mem by (auto simp: first_error_None good_segment_def)
    then have "p = join_on slash ?ss"
      unfolding p using good_clean by (intro posix_normalize_clean [OF ne]) blast
    then show ?thesis
      using good ne False len path_segments_shorter [of ?i] by (auto simp: good_path_def)
  qed
qed

lemma good_normalize_input:
  assumes "ss \<noteq> []" and "\<forall>s \<in> set ss. good_segment win s"
  shows "normalizePathInput (Some (join_on slash ss)) = join_on slash ss"
proof -
  let ?p = "join_on slash ss"
  have ne: "\<forall>s \<in> set ss. s \<noteq> []" using assms(2) by (auto simp: good_segment_def)
  have "set (join_on slash qs) \<subseteq> insert slash (\<Union> (set ` set qs))" for qs
    by (induction slash qs rule: join_on.induct) auto
  then have "backslash \<notin> set ?p" using assms(2) good_no_backslash by fastforce
  then have "to_slashes ?p = ?p" unfolding to_slashes_def by (intro map_idI) auto
  moreover have "\<not> us_space (hd ?p)" "\<not> us_space (last ?p)"
    using hd_join [OF assms(1) ne] last_join [OF assms(1) ne] assms by (auto simp: good_segment_def)
  ultimately show ?thesis
    using trim_id [of ?p] join_ne [OF assms(1) ne] by (simp add: normalizePathInput_def)
qed

lemma good_path_segments:
  assumes "\<forall>s \<in> set ss. good_segment win s" and "ss \<noteq> []"
  shows "path_segments (join_on slash ss) = ss"
proof -
  have "split_on slash (join_on slash ss) = ss"
    using assms by (intro split_join) (auto simp: good_segment_def)
  moreover have "map us_trim ss = ss" and "filter (\<lambda>s. s \<noteq> []) ss = ss"
    using assms(1) by (auto simp: good_segment_def trim_id intro!: map_idI)
  ultimately show ?thesis by (simp add: path_segments_def)
qed

lemma good_not_outside:
  assumes "ss \<noteq> []" and "\<forall>s \<in> set ss. clean s"
  shows "\<not> outside (join_on slash ss)" and "join_on slash ss \<noteq> dot"
    and "\<not> us_starts (join_on slash ss) [slash]"
proof -
  let ?p = "join_on slash ss"
  have ns: "\<forall>s \<in> set ss. s \<noteq> [] \<and> slash \<notin> set s" using assms(2) by (auto simp: clean_def)
  have sg: "segs ?p = ss" by (rule segs_join [OF ns])
  have ne: "\<forall>s \<in> set ss. s \<noteq> []" using ns by blast
  have pn: "?p \<noteq> []" by (rule join_ne [OF assms(1) ne])
  have m: "hd ss \<in> set ss" using assms(1) by simp
  then have "hd (hd ss) \<in> set (hd ss)" using ne by simp
  then have h: "hd ?p \<noteq> slash" using hd_join [OF assms(1) ne, of slash] ns m by metis
  have nd: "?p \<noteq> d" if "segs d = [d]" "\<not> clean d" for d
  proof
    assume "?p = d"
    then have "ss = [d]" using sg that(1) by simp
    with assms(2) that(2) show False by simp
  qed
  show "?p \<noteq> dot" by (rule nd) (simp_all add: segs_def clean_def)
  show s1: "\<not> us_starts ?p [slash]" using h pn by (cases ?p) (auto simp: us_starts_def)
  have "?p \<noteq> dotdot" by (rule nd) (simp_all add: segs_def clean_def)
  moreover have "\<not> us_starts ?p (dotdot @ [slash])"
  proof
    assume "us_starts ?p (dotdot @ [slash])"
    then have "?p = dotdot @ slash # drop 3 ?p"
      using append_take_drop_id [of "Suc (Suc (Suc 0))" ?p]
      by (simp add: us_starts_def numeral_3_eq_3)
    then have "segs ?p = dotdot # segs (drop 3 ?p)"
      using split_on_append [of slash dotdot "drop 3 ?p"] by (simp add: segs_def)
    then have "dotdot \<in> set (segs ?p)" by (metis list.set_intros(1))
    then have "clean dotdot" using assms(2) unfolding sg by blast
    then show False by (simp add: clean_def)
  qed
  ultimately show "\<not> outside ?p" using h by (auto simp: outside_def posix_isAbsolute_def)
qed

lemma validate_fixpoint:
  assumes "good_path win p" and "p \<noteq> []"
  shows "validateSegments win p e = Inr p"
proof -
  obtain ss where ss: "ss \<noteq> []" "\<forall>s \<in> set ss. good_segment win s" "p = join_on slash ss"
    and len: "length p \<le> MAX_PATH_LENGTH" "utf8_length p \<le> MAX_STORAGE_PATH_BYTES"
    using assms by (auto simp: good_path_def)
  have cl: "\<forall>s \<in> set ss. clean s" using ss(2) good_clean by blast
  have "first_error (segment_error win) ss = None"
    using ss(2) by (simp add: first_error_None good_segment_def)
  then show ?thesis
    using len assms(2) good_normalize_input [OF ss(1,2)] good_path_segments [OF ss(2,1)]
      posix_normalize_clean [OF ss(1) cl] good_not_outside [OF ss(1) cl] ss(1)
    by (simp add: validateSegments_def Let_def ss(3))
qed

text \<open>
  C39. A storage path that is accepted is safe and canonical: every segment is a proper name
  (not empty, not a dot segment, without backslash or control character, at most 255 bytes),
  the whole is relative and at most 2000 bytes, and accepting it again gives the same path.
\<close>

theorem accepted_path_safe:
  assumes "normalizeStorageRelativePath win value = Inr p"
  shows "(\<forall>s \<in> set (split_on slash p). s \<noteq> [] \<and> s \<noteq> dot \<and> s \<noteq> dotdot
            \<and> utf8_length s \<le> MAX_SEGMENT_BYTES
            \<and> (\<forall>c \<in> set s. c \<noteq> backslash \<and> \<not> control_char c))
       \<and> \<not> posix_isAbsolute p \<and> utf8_length p \<le> MAX_STORAGE_PATH_BYTES
       \<and> normalizeStorageRelativePath win (Some p) = Inr p"
proof -
  have g: "good_path win p" and ne: "p \<noteq> []"
    using validate_good [OF assms [unfolded normalizeStorageRelativePath_def]] by auto
  obtain ss where ss: "ss \<noteq> []" "\<forall>s \<in> set ss. good_segment win s" "p = join_on slash ss"
    and len: "utf8_length p \<le> MAX_STORAGE_PATH_BYTES"
    using g ne unfolding good_path_def by blast
  have cl: "\<forall>s \<in> set ss. clean s" using ss(2) good_clean by blast
  have sp: "split_on slash p = ss"
    unfolding ss(3) using ss(1) cl by (intro split_join) (auto simp: clean_def)
  have "\<not> posix_isAbsolute p"
    using good_not_outside(1) [OF ss(1) cl] unfolding ss(3) outside_def by blast
  moreover have "normalizeStorageRelativePath win (Some p) = Inr p"
    using validate_fixpoint [OF g ne, of False]
    by (simp only: normalizeStorageRelativePath_def or_empty_def option.case)
  ultimately show ?thesis using ss(2) good_segment_facts len unfolding sp by blast
qed

lemmas path_eval = normalizeStorageRelativePath_def validateSegments_def normalizePathInput_def
  to_slashes_def us_trim_def us_space_def us_starts_def or_empty_def MAX_PATH_LENGTH_def
  MAX_STORAGE_PATH_BYTES_def MAX_SEGMENT_BYTES_def unit_bytes_def high_surrogate_def
  low_surrogate_def path_segments_def segment_error_def segmentTooLong_def
  hasInvalidSegmentChars_def control_char_def posix_normalize_def posix_isAbsolute_def
  norm_segments_def norm_step_def outside_def Let_def

theorem accepted_path_safe_witness:
  "normalizeStorageRelativePath False (Some (u ''docs/ a.txt '')) = Inr (u ''docs/a.txt'')
   \<and> normalizeStorageRelativePath False (Some (u ''docs/a.txt'')) = Inr (u ''docs/a.txt'')"
proof -
  have "normalizeStorageRelativePath False (Some (u ''docs/ a.txt '')) = Inr (u ''docs/a.txt'')"
    by (simp add: path_eval)
  from accepted_path_safe [OF this] this show ?thesis by blast
qed

end
