(* ===== verification/Remote_Path.thy ===== *)
theory Remote_Path
  imports Storage_Path
begin

text \<open>
  What \<^verbatim>\<open>src/lib/storage/remote-path.ts\<close> guarantees: a normalised remote path stays below the
  node's base path.  The definitions are in \<open>Storage_Path\<close>.
\<close>

section \<open>Node's normalisation\<close>

lemma norm_step_clean:
  "slash \<notin> set seg \<Longrightarrow> \<forall>s \<in> set st. clean s \<Longrightarrow> \<forall>s \<in> set (norm_step False st seg). clean s"
  by (cases st) (auto simp: norm_step_def clean_def)

lemma norm_absolute_clean:
  "\<forall>s \<in> set ss. slash \<notin> set s \<Longrightarrow> \<forall>s \<in> set st. clean s
   \<Longrightarrow> \<forall>s \<in> set (foldl (norm_step False) st ss). clean s"
proof (induction ss arbitrary: st)
  case (Cons seg ss)
  then show ?case using norm_step_clean [of seg st] by simp
qed simp

definition rel_stack :: "ustring list \<Rightarrow> bool" where
  "rel_stack st \<longleftrightarrow> (\<exists>cs n. st = cs @ replicate n dotdot \<and> (\<forall>s \<in> set cs. clean s))"

lemma rel_stackI: "st = cs @ replicate n dotdot \<Longrightarrow> \<forall>s \<in> set cs. clean s \<Longrightarrow> rel_stack st"
  by (auto simp: rel_stack_def)

lemma norm_step_rel:
  assumes "slash \<notin> set seg" and "rel_stack st"
  shows "rel_stack (norm_step True st seg)"
proof -
  obtain cs n where st: "st = cs @ replicate n dotdot" and cs: "\<forall>s \<in> set cs. clean s"
    using assms(2) by (auto simp: rel_stack_def)
  show ?thesis
  proof (cases "seg = [] \<or> seg = dot")
    case True
    then show ?thesis using assms(2) by (simp add: norm_step_def)
  next
    case nd: False
    show ?thesis
    proof (cases "seg = dotdot")
      case False
      then have "clean seg" using nd assms(1) by (simp add: clean_def)
      then show ?thesis
        using False nd st cs by (intro rel_stackI [of _ "seg # cs" n]) (auto simp: norm_step_def)
    next
      case dd: True
      show ?thesis
      proof (cases cs)
        case Nil
        then have "norm_step True st seg = replicate (Suc n) dotdot"
          using dd st by (cases n) (auto simp: norm_step_def)
        then show ?thesis by (intro rel_stackI [of _ "[]" "Suc n"]) auto
      next
        case (Cons c cs')
        then have "c \<noteq> dotdot" using cs by (auto simp: clean_def)
        then show ?thesis
          using dd st Cons cs by (intro rel_stackI [of _ cs' n]) (auto simp: norm_step_def)
      qed
    qed
  qed
qed

lemma norm_relative:
  "\<forall>s \<in> set ss. slash \<notin> set s \<Longrightarrow> rel_stack st \<Longrightarrow> rel_stack (foldl (norm_step True) st ss)"
proof (induction ss arbitrary: st)
  case (Cons seg ss)
  then show ?case using norm_step_rel [of seg st] by simp
qed simp

text \<open>Absolute paths in normal form.\<close>

definition abs_path :: "ustring list \<Rightarrow> bool \<Rightarrow> ustring" where
  "abs_path ds tr = (if ds = [] then [slash]
     else slash # join_on slash ds @ (if tr then [slash] else []))"

lemma normalize_absolute:
  assumes "posix_isAbsolute q"
  shows "posix_normalize q = abs_path (norm_segments False (split_on slash q)) (last q = slash)"
proof -
  let ?ds = "norm_segments False (split_on slash q)"
  have "\<forall>s \<in> set (foldl (norm_step False) [] (split_on slash q)). clean s"
    using split_no_sep [of _ slash q] by (intro norm_absolute_clean) auto
  then have "\<forall>s \<in> set ?ds. clean s" by (simp add: norm_segments_def)
  then have "\<forall>s \<in> set ?ds. s \<noteq> []" by (auto simp: clean_def)
  then have "?ds \<noteq> [] \<Longrightarrow> join_on slash ?ds \<noteq> []" by (intro join_ne) auto
  then show ?thesis
    using assms by (auto simp: posix_normalize_def abs_path_def Let_def posix_isAbsolute_def)
qed

lemma norm_segments_clean:
  "\<forall>s \<in> set (norm_segments False (split_on slash q)). clean s"
  using norm_absolute_clean [of "split_on slash q" "[]"] split_no_sep [of _ slash q]
  by (simp add: norm_segments_def)

lemma split_abs_path:
  assumes "\<forall>s \<in> set ds. clean s"
  shows "split_on slash (abs_path ds tr) =
     (if ds = [] then [[], []] else [] # ds @ (if tr then [[]] else []))"
proof (cases "ds = []")
  case False
  have "split_on slash (join_on slash ds) = ds"
    using assms False by (intro split_join) (auto simp: clean_def)
  then show ?thesis
    using False split_on_append_any [of slash "join_on slash ds" "[]"] by (simp add: abs_path_def)
qed (simp add: abs_path_def)

lemma norm_ignores_empty: "norm_step b st [] = st"
  by (simp add: norm_step_def)

lemma norm_abs_path:
  assumes "\<forall>s \<in> set ds. clean s"
  shows "foldl (norm_step False) [] (split_on slash (abs_path ds tr)) = rev ds"
  using norm_clean [OF assms, of False "[]"]
  by (simp add: split_abs_path [OF assms] norm_ignores_empty)

lemma abs_path_absolute: "posix_isAbsolute (abs_path ds tr)"
  by (simp add: abs_path_def posix_isAbsolute_def)

lemma last_abs_path:
  assumes "\<forall>s \<in> set ds. clean s" and "ds \<noteq> []"
  shows "last (abs_path ds tr) = slash \<longleftrightarrow> tr"
proof -
  have ne: "\<forall>s \<in> set ds. s \<noteq> []" using assms(1) by (auto simp: clean_def)
  have l: "last ds \<in> set ds" using assms(2) by simp
  then have "last (last ds) \<in> set (last ds)" using ne by simp
  moreover have "slash \<notin> set (last ds)" using l assms(1) unfolding clean_def by blast
  ultimately have "last (join_on slash ds) \<noteq> slash"
    unfolding last_join [OF assms(2) ne] by metis
  then show ?thesis using assms(2) join_ne [OF assms(2) ne, of slash] by (simp add: abs_path_def)
qed

lemma normalize_abs_path:
  assumes "\<forall>s \<in> set ds. clean s"
  shows "posix_normalize (abs_path ds tr) = abs_path ds tr"
proof (cases "ds = []")
  case True
  then show ?thesis
    by (simp add: abs_path_def posix_normalize_def posix_isAbsolute_def norm_segments_def norm_step_def)
next
  case False
  then show ?thesis
    using last_abs_path [OF assms False]
    by (simp add: normalize_absolute [OF abs_path_absolute] norm_segments_def norm_abs_path [OF assms])
qed

lemma segs_abs_path:
  assumes "\<forall>s \<in> set ds. clean s"
  shows "segs (abs_path ds tr) = ds"
proof -
  have "filter (\<lambda>s. s \<noteq> []) ds = ds" using assms by (auto simp: clean_def filter_id_conv)
  then show ?thesis by (simp add: segs_def split_abs_path [OF assms])
qed

lemma dropWhile_hd_ne: "xs \<noteq> [] \<Longrightarrow> hd xs \<noteq> c \<Longrightarrow> dropWhile (\<lambda>x. x = c) xs = xs"
  by (cases xs) auto

lemma strip_abs_path:
  assumes "\<forall>s \<in> set ds. clean s" and "ds \<noteq> []"
  shows "strip_trailing_slashes (abs_path ds tr) = abs_path ds False"
proof -
  let ?p = "abs_path ds False"
  have l: "last ?p \<noteq> slash" using last_abs_path [OF assms] by blast
  have ne: "?p \<noteq> []" by (simp add: abs_path_def)
  then have "hd (rev ?p) \<noteq> slash" using l by (simp add: hd_rev)
  then have "dropWhile (\<lambda>c. c = slash) (rev ?p) = rev ?p"
    using ne by (intro dropWhile_hd_ne) simp_all
  then have "strip_trailing_slashes ?p = ?p" by (simp add: strip_trailing_slashes_def)
  moreover have "strip_trailing_slashes (abs_path ds True) = strip_trailing_slashes ?p"
    using assms(2) by (simp add: strip_trailing_slashes_def abs_path_def)
  ultimately show ?thesis by (cases tr) simp_all
qed

section \<open>Base and relative path\<close>

lemma base_form:
  "\<exists>bs. (\<forall>s \<in> set bs. clean s) \<and> normalizeAbsoluteBasePath basePath = abs_path bs False"
proof -
  let ?t = "if us_trim basePath = [] then [slash] else us_trim basePath"
  let ?r = "if us_starts ?t [slash] then ?t else slash # ?t"
  let ?bs = "norm_segments False (split_on slash ?r)"
  have abs: "posix_isAbsolute ?r"
    by (cases ?t) (auto simp: posix_isAbsolute_def us_starts_def split: if_splits)
  have cl: "\<forall>s \<in> set ?bs. clean s" by (rule norm_segments_clean)
  have "normalizeAbsoluteBasePath basePath =
      (let n = strip_trailing_slashes (abs_path ?bs (last ?r = slash)) in if n = [] then [slash] else n)"
    unfolding normalizeAbsoluteBasePath_def Let_def normalize_absolute [OF abs] ..
  also have "\<dots> = abs_path ?bs False"
  proof (cases "?bs = []")
    case True
    then show ?thesis by (simp add: abs_path_def strip_trailing_slashes_def)
  next
    case False
    have ne: "abs_path ?bs False \<noteq> []" by (simp add: abs_path_def)
    show ?thesis unfolding strip_abs_path [OF cl False] Let_def using ne by (rule if_not_P)
  qed
  finally show ?thesis using cl by blast
qed

lemma relative_form:
  assumes "normalizeRemoteRelativePath requestedPath = Inr rel" and "rel \<noteq> []"
  shows "rel = [46, slash] \<or> (\<exists>cs tr. cs \<noteq> [] \<and> (\<forall>s \<in> set cs. clean s)
           \<and> rel = join_on slash cs @ (if tr then [slash] else []))"
proof -
  define q where "q = dropWhile (\<lambda>c. c = slash) (us_trim (or_empty requestedPath))"
  have rel: "rel = posix_normalize q" and ok: "rel \<noteq> dot" "\<not> outside rel"
    using assms by (auto simp: normalizeRemoteRelativePath_def Let_def q_def split: if_splits)
  then have qne: "q \<noteq> []" by (auto simp: posix_normalize_def)
  then have na: "\<not> posix_isAbsolute q"
    using hd_dropWhile [of "\<lambda>c. c = slash" "us_trim (or_empty requestedPath)"]
    by (auto simp: q_def posix_isAbsolute_def)
  obtain cs n where st: "foldl (norm_step True) [] (split_on slash q) = cs @ replicate n dotdot"
    and cs: "\<forall>s \<in> set cs. clean s"
    using norm_relative [of "split_on slash q" "[]"] split_no_sep [of _ slash q]
    by (force simp: rel_stack_def)
  then have segs: "norm_segments True (split_on slash q) = replicate n dotdot @ rev cs"
    by (simp add: norm_segments_def)
  let ?body = "join_on slash (replicate n dotdot @ rev cs)"
  let ?tr = "if last q = slash then [slash] else []"
  have form: "rel = (if ?body = [] then (if last q = slash then [46, slash] else dot) else ?body @ ?tr)"
    using qne na by (simp add: rel posix_normalize_def segs Let_def)
  have "n = 0"
  proof (rule ccontr)
    assume "n \<noteq> 0"
    then obtain m where n: "n = Suc m" by (cases n) auto
    obtain rest where "?body = dotdot @ rest" "rest = [] \<or> hd rest = slash"
      by (cases "replicate m dotdot @ rev cs") (auto simp: n join_cons)
    then have "rel = dotdot \<or> us_starts rel (dotdot @ [slash])"
      using form by (cases rest) (auto simp: us_starts_def split: if_splits)
    then show False using ok by (auto simp: outside_def)
  qed
  then show ?thesis
    using form ok cs by (cases "cs = []") (auto intro!: exI [of _ "rev cs"] split: if_splits)
qed

lemma joined_path:
  assumes bs: "\<forall>s \<in> set bs. clean s" and rel: "rel \<noteq> []"
    and fold: "\<And>st. foldl (norm_step False) st (split_on slash rel) = rev cs @ st"
    and cs: "\<forall>s \<in> set cs. clean s"
  shows "posix_normalize (posix_join (abs_path bs False) rel) = abs_path (bs @ cs) (last rel = slash)"
proof -
  let ?b = "abs_path bs False"
  have ne: "?b \<noteq> []" by (simp add: abs_path_def)
  have abs: "posix_isAbsolute (?b @ slash # rel)"
    using abs_path_absolute [of bs False] ne by (simp add: posix_isAbsolute_def)
  have cl: "\<forall>s \<in> set (bs @ cs). clean s" using bs cs by auto
  have "norm_segments False (split_on slash (?b @ slash # rel)) = bs @ cs"
    by (simp add: norm_segments_def split_on_append_any norm_abs_path [OF bs] fold)
  then have "posix_join ?b rel = abs_path (bs @ cs) (last rel = slash)"
    using ne rel normalize_absolute [OF abs] by (simp add: posix_join_def)
  then show ?thesis using normalize_abs_path [OF cl] by simp
qed

lemma starts_abs_path:
  assumes "bs \<noteq> []" and "cs \<noteq> [] \<or> tr"
  shows "us_starts (abs_path (bs @ cs) tr) (abs_path bs False @ [slash])"
proof (cases "cs = []")
  case True
  with assms show ?thesis by (simp add: us_starts_def abs_path_def)
next
  case False
  then have "abs_path (bs @ cs) tr =
      (abs_path bs False @ [slash]) @ join_on slash cs @ (if tr then [slash] else [])"
    using assms(1) by (simp add: abs_path_def join_append)
  then show ?thesis by (simp add: us_starts_def)
qed

lemma remote_path_form:
  assumes "normalizeRemoteRelativePath requestedPath = Inr rel"
    and "\<not> (isWindowsStorageBasePath basePath \<and> hasWindowsInvalidNameChars rel)"
  obtains bs cs tr where "\<forall>s \<in> set (bs @ cs). clean s"
    and "normalizeAbsoluteBasePath basePath = abs_path bs False"
    and "filter (\<lambda>s. s \<noteq> dot) (segs rel) = cs"
    and "normalizeRemotePath basePath requestedPath = Inr (abs_path (bs @ cs) tr)"
proof -
  obtain bs where bs: "\<forall>s \<in> set bs. clean s" and base: "normalizeAbsoluteBasePath basePath = abs_path bs False"
    using base_form by blast
  show thesis
  proof (cases "rel = []")
    case True
    then have "normalizeRemotePath basePath requestedPath = Inr (abs_path bs False)"
      using assms by (simp add: normalizeRemotePath_def base Let_def hasWindowsInvalidNameChars_def)
    then show thesis
      using True bs base by (intro that [of bs "[]" False]) (simp_all add: segs_def)
  next
    case False
    obtain cs where cs: "\<forall>s \<in> set cs. clean s" "filter (\<lambda>s. s \<noteq> dot) (segs rel) = cs"
      and fold: "\<And>st. foldl (norm_step False) st (split_on slash rel) = rev cs @ st"
      and tail: "cs \<noteq> [] \<or> last rel = slash"
      using relative_form [OF assms(1) False]
    proof (elim disjE exE conjE)
      assume r: "rel = [46, slash]"
      show thesis
        by (rule that [of "[]"]) (simp_all add: r segs_def norm_step_def)
    next
      fix cs tr
      assume c: "cs \<noteq> []" "\<forall>s \<in> set cs. clean s" and r: "rel = join_on slash cs @ (if tr then [slash] else [])"
      have sp: "split_on slash rel = cs @ (if tr then [[]] else [])"
        using split_join [OF c(1), of slash] c(2) split_on_append_any [of slash "join_on slash cs" "[]"]
        by (auto simp: r clean_def)
      have "filter (\<lambda>s. s \<noteq> []) cs = cs" "filter (\<lambda>s. s \<noteq> dot) cs = cs"
        using c(2) by (auto simp: clean_def filter_id_conv)
      then show thesis
        using c norm_clean [OF c(2), of False]
        by (intro that [of cs]) (auto simp: segs_def sp norm_ignores_empty)
    qed
    let ?p = "abs_path (bs @ cs) (last rel = slash)"
    have cl: "\<forall>s \<in> set (bs @ cs). clean s" using bs cs(1) by auto
    have j: "posix_normalize (posix_join (abs_path bs False) rel) = ?p"
      by (rule joined_path [OF bs False fold cs(1)])
    have "normalizeRemotePath basePath requestedPath = Inr ?p"
    proof (cases "bs = []")
      case True
      have "us_starts ?p [slash]" by (simp add: us_starts_def abs_path_def)
      then show ?thesis
        using assms False True j by (simp add: normalizeRemotePath_def base Let_def abs_path_def)
    next
      case ne: False
      have "abs_path bs False \<noteq> [slash]"
        using last_abs_path [OF bs ne, of False] by (metis last.simps)
      then show ?thesis
        using assms False j starts_abs_path [OF ne tail]
        by (simp add: normalizeRemotePath_def base Let_def)
    qed
    then show thesis by (rule that [OF cl base cs(2)])
  qed
qed



text \<open>
  \<open>normalizeRemoteTargetPath\<close> is there to refuse the storage root as the target of an
  operation, yet the request \<^verbatim>\<open>./\<close> names the root of a node below \<open>/\<close> and is accepted: the
  trailing slash makes the two strings differ while their segments are the same.
\<close>

theorem remote_target_accepts_root:
  "normalizeRemoteTargetPath (u ''/srv/data'') (Some (u ''./'')) = Inr (u ''/srv/data/'')
   \<and> normalizeRemoteTargetPath (u ''/srv/data'') (Some (u ''a/../'')) = Inr (u ''/srv/data/'')
   \<and> normalizeRemoteTargetPath (u ''/srv/data'') (Some (u ''/'')) = Inl TargetCannotBeRoot
   \<and> segs (u ''/srv/data/'') = segs (normalizeAbsoluteBasePath (u ''/srv/data''))"
  by (simp add: path_eval normalizeRemoteTargetPath_def normalizeRemotePath_def
      normalizeRemoteRelativePath_def normalizeAbsoluteBasePath_def strip_trailing_slashes_def
      posix_join_def isWindowsStorageBasePath_def drive_root_def ascii_letter_def segs_def)

text \<open>
  Apart from a trailing slash the target guard does its work: an accepted target that does
  not end in a slash lies strictly below the node's root.
\<close>

theorem remote_target_below_root:
  assumes "normalizeRemoteTargetPath basePath requestedPath = Inr p" and "last p \<noteq> slash"
  shows "strict_prefix (segs (normalizeAbsoluteBasePath basePath)) (segs p)"
proof -
  have np: "normalizeRemotePath basePath requestedPath = Inr p"
    and root: "p \<noteq> normalizeAbsoluteBasePath basePath"
    using assms(1) by (auto simp: normalizeRemoteTargetPath_def split: sum.splits if_splits)
  then obtain rel where rel: "normalizeRemoteRelativePath requestedPath = Inr rel"
    by (cases "normalizeRemoteRelativePath requestedPath") (auto simp: normalizeRemotePath_def Let_def)
  have w: "\<not> (isWindowsStorageBasePath basePath \<and> hasWindowsInvalidNameChars rel)"
    using np by (auto simp: normalizeRemotePath_def rel Let_def)
  show ?thesis
  proof (rule remote_path_form [OF rel w])
    fix bs cs tr
    assume cl: "\<forall>s \<in> set (bs @ cs). clean s"
      and b: "normalizeAbsoluteBasePath basePath = abs_path bs False"
      and "normalizeRemotePath basePath requestedPath = Inr (abs_path (bs @ cs) tr)"
    then have p: "p = abs_path (bs @ cs) tr" using np by simp
    have bs: "\<forall>s \<in> set bs. clean s" using cl by simp
    have "bs @ cs \<noteq> []" using assms(2) by (auto simp: p abs_path_def)
    then have "tr = False" using last_abs_path [OF cl] assms(2) unfolding p by blast
    then have "cs \<noteq> []" using root unfolding p b by auto
    then show ?thesis
      unfolding p b segs_abs_path [OF cl] segs_abs_path [OF bs] by (auto simp: strict_prefix_def)
  qed
qed

theorem remote_target_below_root_witness:
  "strict_prefix (segs (normalizeAbsoluteBasePath (u ''/srv''))) (segs (u ''/srv/a''))"
proof -
  have "normalizeRemoteTargetPath (u ''/srv'') (Some (u ''a'')) = Inr (u ''/srv/a'')"
    by (simp add: path_eval normalizeRemoteTargetPath_def normalizeRemotePath_def
      normalizeRemoteRelativePath_def normalizeAbsoluteBasePath_def strip_trailing_slashes_def
      posix_join_def isWindowsStorageBasePath_def drive_root_def ascii_letter_def)
  from remote_target_below_root [OF this] show ?thesis by simp
qed

end
