(* ===== verification/Like_Pattern.thy ===== *)
theory Like_Pattern
  imports Storage_Path
begin

text \<open>
  \<^verbatim>\<open>src/lib/db/like-pattern.ts\<close>: user text inside SQL \<open>LIKE\<close> patterns.

  \<open>like_match\<close> is PostgreSQL's \<open>LIKE\<close> with the default escape character: \<open>%\<close> matches any
  text, \<open>_\<close> one character, and a backslash takes the next character literally (a pattern that
  ends with a backslash, which PostgreSQL refuses, cannot arise: the filters below end with
  \<open>%\<close>).  Prisma's
  \<open>startsWith\<close> and \<open>contains\<close> filters put \<open>%\<close> around the value and leave it as it is.
\<close>

abbreviation percent :: nat where "percent \<equiv> 37"
abbreviation underscore :: nat where "underscore \<equiv> 95"

definition escapeLikeLiteral :: "ustring \<Rightarrow> ustring" where
  "escapeLikeLiteral value =
     concat (map (\<lambda>c. if c \<in> {backslash, percent, underscore} then [backslash, c] else [c]) value)"

function like_match :: "ustring \<Rightarrow> ustring \<Rightarrow> bool" where
  "like_match [] s = (s = [])"
| "like_match (p # ps) s =
     (if p = percent
      then like_match ps s \<or> (case s of [] \<Rightarrow> False | c # cs \<Rightarrow> like_match (p # ps) cs)
      else (case s of
              [] \<Rightarrow> False
            | c # cs \<Rightarrow>
                if p = underscore then like_match ps cs
                else if p = backslash
                then (case ps of [] \<Rightarrow> c = p \<and> cs = [] | q # qs \<Rightarrow> c = q \<and> like_match qs cs)
                else c = p \<and> like_match ps cs))"
  by pat_completeness auto

termination
  by (relation "measures [\<lambda>(ps, s). length s, \<lambda>(ps, s). length ps]") auto

declare like_match.simps(2) [simp del]

definition startsWith_filter :: "ustring \<Rightarrow> ustring \<Rightarrow> bool" where
  "startsWith_filter value s = like_match (value @ [percent]) s"

definition contains_filter :: "ustring \<Rightarrow> ustring \<Rightarrow> bool" where
  "contains_filter value s = like_match (percent # value @ [percent]) s"

lemma escape_simps [simp]:
  "escapeLikeLiteral [] = []"
  "escapeLikeLiteral (c # v) =
     (if c \<in> {backslash, percent, underscore} then [backslash, c] else [c]) @ escapeLikeLiteral v"
  by (simp_all add: escapeLikeLiteral_def)

lemma like_any [simp]: "like_match [percent] s"
  by (induction s) (simp_all add: like_match.simps(2))

lemma like_literal:
  "like_match (escapeLikeLiteral v @ ps) s
     \<longleftrightarrow> (\<exists>t. s = v @ t \<and> like_match ps t)"
proof (induction v arbitrary: s)
  case Nil
  then show ?case by simp
next
  case (Cons c v)
  have "like_match (escapeLikeLiteral (c # v) @ ps) s
      \<longleftrightarrow> s \<noteq> [] \<and> hd s = c \<and> like_match (escapeLikeLiteral v @ ps) (tl s)"
    by (cases s) (auto simp: like_match.simps(2))
  also have "\<dots> \<longleftrightarrow> (\<exists>t. s = (c # v) @ t \<and> like_match ps t)"
    by (cases s) (auto simp: Cons)
  finally show ?case .
qed

lemma like_percent: "like_match (percent # ps) s \<longleftrightarrow> (\<exists>a b. s = a @ b \<and> like_match ps b)"
proof (induction s)
  case Nil
  then show ?case by (simp add: like_match.simps(2))
next
  case (Cons c s)
  have "like_match (percent # ps) (c # s) \<longleftrightarrow> like_match ps (c # s) \<or> like_match (percent # ps) s"
    by (subst like_match.simps(2)) simp
  also have "\<dots> \<longleftrightarrow> (\<exists>a b. c # s = a @ b \<and> like_match ps b)"
    unfolding Cons.IH by (metis append_Cons append_Nil append_eq_Cons_conv)
  finally show ?case .
qed

lemma startsWith_escaped [simp]: "startsWith_filter (escapeLikeLiteral v) s \<longleftrightarrow> prefix v s"
  by (auto simp: startsWith_filter_def like_literal prefix_def)

text \<open>
  An escaped value is matched literally, whatever pattern characters it holds: the
  \<open>startsWith\<close> filter selects exactly the texts that begin with it, the \<open>contains\<close> filter
  exactly those that contain it.
\<close>

theorem escaped_value_literal:
  "(startsWith_filter (escapeLikeLiteral v) s \<longleftrightarrow> prefix v s)
   \<and> (contains_filter (escapeLikeLiteral v) s \<longleftrightarrow> sublist v s)"
  by (auto simp: contains_filter_def like_percent like_literal sublist_def)

end
