(* ===== verification/Storage_Access.thy ===== *)
theory Storage_Access
  imports Team_Scope Like_Pattern "HOL-Library.AList"
begin

text \<open>
  \<^verbatim>\<open>src/lib/storage/access-control.ts\<close>: who may read, write and delete where on a storage
  node, and how much.

  The tables are lists of rows.  Sizes are \<open>bigint\<close>s, hence \<open>int\<close>; a size the caller passes
  may also be a number.  Reads and writes of one call see the same tables: the quota check
  holds the node's advisory lock, which is part of the decision (\<open>adGuard\<close>).
\<close>

section \<open>Rows and inputs\<close>

datatype StorageAccessOperation = OpRead | OpWrite | OpDelete

record grant =
  gId :: string
  gUserId :: string
  gNodeId :: string
  gPathPrefix :: ustring
  gCanRead :: bool
  gCanWrite :: bool
  gCanDelete :: bool
  gQuotaBytes :: "int option"
  gMaxFileBytes :: "int option"

record storage_node =
  snId :: string
  snTeamId :: "string option"

record file_entry =
  feNodeId :: string
  fePath :: ustring
  feIsFile :: bool
  feSize :: "int option"
  feIsDeleted :: bool

record storage_db =
  sdNodes :: "storage_node list"
  sdGrants :: "grant list"
  sdFiles :: "file_entry list"

datatype denied_reason = MissingPermission | NoAccess | PathNotAllowed | FileTooLarge | QuotaExceeded

text \<open>\<open>adReason = None\<close> is \<open>allowed: true\<close>.\<close>

record decision =
  adReason :: "denied_reason option"
  adGrantId :: "string option"
  adGuard :: bool

definition allowed :: "decision \<Rightarrow> bool" where
  "allowed d \<longleftrightarrow> adReason d = None"

definition releaseStorageQuotaGuard :: "decision option \<Rightarrow> decision option" where
  "releaseStorageQuotaGuard d = (case d of None \<Rightarrow> None | Some x \<Rightarrow> Some (x\<lparr>adGuard := False\<rparr>))"

text \<open>A byte count as given; a conversion \<open>BigInt(\<dots>)\<close> that raises is \<open>RangeError\<close>.\<close>

datatype js_bytes = Big int | Number jsnum
datatype range_error = RangeError

section \<open>Grants\<close>

definition normalizeAccessPath :: "bool \<Rightarrow> ustring option \<Rightarrow> ustring option" where
  "normalizeAccessPath win value =
     (case normalizeStorageTargetDirectory win value of Inl _ \<Rightarrow> None | Inr p \<Rightarrow> Some p)"

definition pathMatchesGrant :: "bool \<Rightarrow> ustring \<Rightarrow> ustring \<Rightarrow> bool" where
  "pathMatchesGrant win targetPath pathPrefix =
     (case (normalizeAccessPath win (Some targetPath), normalizeAccessPath win (Some pathPrefix)) of
        (Some t, Some p) \<Rightarrow> p = [] \<or> t = p \<or> us_starts t (p @ [slash])
      | _ \<Rightarrow> False)"

fun grantAllowsOperation :: "grant \<Rightarrow> StorageAccessOperation \<Rightarrow> bool" where
  "grantAllowsOperation g OpRead = gCanRead g"
| "grantAllowsOperation g OpWrite = gCanWrite g"
| "grantAllowsOperation g OpDelete = gCanDelete g"

datatype js_value = JsNullish | JsBigInt int | JsNumber jsnum | JsString ustring | JsOther

definition is_digit :: "nat \<Rightarrow> bool" where
  "is_digit c \<longleftrightarrow> 48 \<le> c \<and> c \<le> 57"

definition decimal :: "ustring \<Rightarrow> int" where
  "decimal ds = foldl (\<lambda>n c. 10 * n + (int c - 48)) 0 ds"

fun parseNullableBigIntInput :: "js_value \<Rightarrow> int option" where
  "parseNullableBigIntInput JsNullish = None"
| "parseNullableBigIntInput (JsBigInt n) = (if 0 \<le> n then Some n else None)"
| "parseNullableBigIntInput (JsNumber x) =
     (case x of Fin r \<Rightarrow> if 0 \<le> r then Some \<lfloor>r\<rfloor> else None | _ \<Rightarrow> None)"
| "parseNullableBigIntInput (JsString s) =
     (let trimmed = us_trim s in
      if trimmed = [] then None
      else if \<not> list_all is_digit trimmed then None
      else Some (decimal trimmed))"
| "parseNullableBigIntInput JsOther = None"

section \<open>Usage\<close>

definition entry_size :: "file_entry \<Rightarrow> int" where
  "entry_size e = (case feSize e of None \<Rightarrow> 0 | Some n \<Rightarrow> n)"

definition live_file :: "string \<Rightarrow> file_entry \<Rightarrow> bool" where
  "live_file node e \<longleftrightarrow> feNodeId e = node \<and> \<not> feIsDeleted e \<and> feIsFile e"

definition counted :: "string \<Rightarrow> ustring \<Rightarrow> file_entry \<Rightarrow> bool" where
  "counted node pre e \<longleftrightarrow> live_file node e \<and>
     (pre = [] \<or> fePath e = pre
      \<or> startsWith_filter (escapeLikeLiteral (pre @ [slash])) (fePath e))"

definition getGrantUsageBytes :: "bool \<Rightarrow> file_entry list \<Rightarrow> string \<Rightarrow> ustring \<Rightarrow> int" where
  "getGrantUsageBytes win files node pathPrefix =
     (case normalizeAccessPath win (Some pathPrefix) of
        None \<Rightarrow> 0
      | Some pre \<Rightarrow> sum_list (map entry_size (filter (counted node pre) files)))"

definition getReplacedFileBytes :: "file_entry list \<Rightarrow> string \<Rightarrow> ustring \<Rightarrow> int" where
  "getReplacedFileBytes files node targetPath =
     (if targetPath = [] then 0
      else case find_first (\<lambda>e. live_file node e \<and> fePath e = targetPath) files of
        None \<Rightarrow> 0 | Some e \<Rightarrow> entry_size e)"

section \<open>The decision\<close>

definition required_permission :: "StorageAccessOperation \<Rightarrow> permission" where
  "required_permission op =
     (if op = OpDelete then ''storage:delete''
      else if op = OpRead then ''storage:read'' else ''storage:write'')"

definition node_visible :: "session \<Rightarrow> storage_node list \<Rightarrow> string \<Rightarrow> bool" where
  "node_visible s nodes i =
     (\<exists>n \<in> set nodes. (case storageNodeTeamWhere s of
          AllRows \<Rightarrow> snId n = i
        | TeamRows t \<Rightarrow> snId n = i \<and> snTeamId n = Some t
        | IdRows k \<Rightarrow> snId n = k))"

definition unrestricted :: "session \<Rightarrow> bool" where
  "unrestricted s \<longleftrightarrow> isGlobalTeamManager s \<or> sessionHasPermission s ''storage:manage-node''"

definition grant_order :: "grant \<Rightarrow> grant \<Rightarrow> bool" where
  "grant_order a b = str_le (gId a) (gId b)"

definition loadStorageGrants :: "grant list \<Rightarrow> string \<Rightarrow> string \<Rightarrow> grant list" where
  "loadStorageGrants grants uid node =
     fetch_pages 499 (sort_by grant_order (filter (\<lambda>g. gUserId g = uid \<and> gNodeId g = node) grants))"

fun write_bytes :: "js_bytes \<Rightarrow> range_error + int" where
  "write_bytes (Big n) = Inr n"
| "write_bytes (Number (Fin r)) = Inr (max 0 \<lfloor>r\<rfloor>)"
| "write_bytes (Number NegInfinity) = Inr 0"
| "write_bytes (Number _) = Inl RangeError"

fun to_bigint :: "js_bytes \<Rightarrow> range_error + int" where
  "to_bigint (Big n) = Inr n"
| "to_bigint (Number (Fin r)) = (if r = of_int \<lfloor>r\<rfloor> then Inr \<lfloor>r\<rfloor> else Inl RangeError)"
| "to_bigint (Number _) = Inl RangeError"

record access_input =
  aiSession :: session
  aiNodeId :: string
  aiPath :: "ustring option"
  aiOperation :: StorageAccessOperation
  aiWriteBytes :: "js_bytes option"
  aiLargestFileBytes :: "js_bytes option"
  aiMovedFrom :: "ustring option"

definition deny :: "denied_reason \<Rightarrow> string option \<Rightarrow> decision" where
  "deny r g = \<lparr>adReason = Some r, adGrantId = g, adGuard = False\<rparr>"

definition allow :: "string option \<Rightarrow> bool \<Rightarrow> decision" where
  "allow g guard = \<lparr>adReason = None, adGrantId = g, adGuard = guard\<rparr>"

definition already_counted :: "bool \<Rightarrow> ustring option \<Rightarrow> grant \<Rightarrow> bool" where
  "already_counted win movedFrom g =
     (case movedFrom of None \<Rightarrow> False
      | Some m \<Rightarrow> (case normalizeAccessPath win (Some m) of
          None \<Rightarrow> False | Some p \<Rightarrow> pathMatchesGrant win p (gPathPrefix g)))"

text \<open>The limits of the grant that allows the operation.\<close>

definition check_limits ::
  "bool \<Rightarrow> storage_db \<Rightarrow> access_input \<Rightarrow> ustring \<Rightarrow> grant \<Rightarrow> int \<Rightarrow> int \<Rightarrow> decision" where
  "check_limits win db inp targetPath g writeBytes largest =
     (if (case gMaxFileBytes g of None \<Rightarrow> False | Some m \<Rightarrow> m < largest)
      then deny FileTooLarge (Some (gId g))
      else case gQuotaBytes g of
        None \<Rightarrow> allow (Some (gId g)) False
      | Some quota \<Rightarrow>
          if already_counted win (aiMovedFrom inp) g then allow (Some (gId g)) False
          else
            let used = getGrantUsageBytes win (sdFiles db) (aiNodeId inp) (gPathPrefix g);
                replaced = getReplacedFileBytes (sdFiles db) (aiNodeId inp) targetPath
            in if quota < used - replaced + writeBytes
               then deny QuotaExceeded (Some (gId g))
               else allow (Some (gId g)) True)"

definition assertStorageAccess ::
  "bool \<Rightarrow> storage_db \<Rightarrow> access_input \<Rightarrow> range_error + decision" where
  "assertStorageAccess win db inp =
     (let s = aiSession inp; node = aiNodeId inp; op = aiOperation inp in
      if \<not> sessionHasPermission s (required_permission op) then Inr (deny MissingPermission None)
      else if \<not> node_visible s (sdNodes db) node then Inr (deny NoAccess None)
      else if unrestricted s then Inr (allow None False)
      else
        let grants = loadStorageGrants (sdGrants db) (userId s) node in
        if grants = [] then Inr (allow None False)
        else case normalizeAccessPath win (aiPath inp) of
          None \<Rightarrow> Inr (deny PathNotAllowed None)
        | Some targetPath \<Rightarrow>
            let matching = filter (\<lambda>g. pathMatchesGrant win targetPath (gPathPrefix g)) grants in
            case find_first (\<lambda>g. grantAllowsOperation g op) matching of
              None \<Rightarrow> Inr (deny NoAccess None)
            | Some g \<Rightarrow>
                (case aiWriteBytes inp of
                   None \<Rightarrow> Inr (allow (Some (gId g)) False)
                 | Some wb \<Rightarrow>
                     (case write_bytes wb of
                        Inl e \<Rightarrow> Inl e
                      | Inr w \<Rightarrow>
                          if op = OpRead then Inr (allow (Some (gId g)) False)
                          else (case (case aiLargestFileBytes inp of
                                        None \<Rightarrow> Inr w | Some l \<Rightarrow> to_bigint l) of
                                  Inl e \<Rightarrow> Inl e
                                | Inr largest \<Rightarrow>
                                    Inr (check_limits win db inp targetPath g w largest)))))"

section \<open>What a write may add\<close>

record write_capacity =
  wcMaxFileBytes :: "int option"
  wcRemainingBytes :: "int option"

definition getStorageWriteCapacity ::
  "bool \<Rightarrow> storage_db \<Rightarrow> session \<Rightarrow> string \<Rightarrow> ustring option \<Rightarrow> write_capacity" where
  "getStorageWriteCapacity win db s node path =
     (let unlimited = \<lparr>wcMaxFileBytes = None, wcRemainingBytes = None\<rparr> in
      if unrestricted s then unlimited
      else
        let grants = loadStorageGrants (sdGrants db) (userId s) node in
        if grants = [] then unlimited
        else
          case (case normalizeAccessPath win path of
                  None \<Rightarrow> None
                | Some t \<Rightarrow> find_first (\<lambda>g. pathMatchesGrant win t (gPathPrefix g)
                              \<and> grantAllowsOperation g OpWrite) grants) of
            None \<Rightarrow> \<lparr>wcMaxFileBytes = Some 0, wcRemainingBytes = Some 0\<rparr>
          | Some g \<Rightarrow>
              (case gQuotaBytes g of
                 None \<Rightarrow> \<lparr>wcMaxFileBytes = gMaxFileBytes g, wcRemainingBytes = None\<rparr>
               | Some quota \<Rightarrow>
                   let used = getGrantUsageBytes win (sdFiles db) node (gPathPrefix g);
                       remaining = quota - used
                   in \<lparr>wcMaxFileBytes = gMaxFileBytes g,
                       wcRemainingBytes = Some (if 0 < remaining then remaining else 0)\<rparr>))"

definition largestAllowedWrite :: "write_capacity \<Rightarrow> int option" where
  "largestAllowedWrite c =
     (case (wcMaxFileBytes c, wcRemainingBytes c) of
        (None, None) \<Rightarrow> None
      | (Some a, None) \<Rightarrow> Some a
      | (None, Some b) \<Rightarrow> Some b
      | (Some a, Some b) \<Rightarrow> Some (if a < b then a else b))"

section \<open>Capabilities of many paths\<close>

record capability =
  capRead :: bool
  capWrite :: bool
  capDelete :: bool

definition no_capability :: capability where
  "no_capability = \<lparr>capRead = False, capWrite = False, capDelete = False\<rparr>"

text \<open>\<open>`${storageNodeId}:${normalizedPath}`\<close>\<close>

definition capability_key :: "string \<Rightarrow> ustring \<Rightarrow> ustring" where
  "capability_key node p = u node @ 58 # p"

definition getStorageAccessCapabilityKey :: "bool \<Rightarrow> string \<Rightarrow> ustring option \<Rightarrow> ustring option" where
  "getStorageAccessCapabilityKey win node path =
     (case normalizeAccessPath win path of None \<Rightarrow> None | Some p \<Rightarrow> Some (capability_key node p))"

type_synonym capabilities = "(ustring \<times> capability) list"
type_synonym targets = "(ustring \<times> string \<times> ustring) list"

text \<open>A JavaScript \<open>Map\<close> is an association list in insertion order; \<open>AList.update\<close> is \<open>set\<close>.\<close>

fun collect_targets ::
  "bool \<Rightarrow> (string \<times> ustring option) list \<Rightarrow> capabilities \<times> targets \<Rightarrow> capabilities \<times> targets" where
  "collect_targets win [] acc = acc"
| "collect_targets win ((node, path) # ts) (res, uts) =
     collect_targets win ts
       (case normalizeAccessPath win path of
          None \<Rightarrow> (AList.update (capability_key node []) no_capability res, uts)
        | Some p \<Rightarrow> (res, AList.update (capability_key node p) (node, p) uts))"

fun set_capabilities ::
  "(string \<Rightarrow> ustring \<Rightarrow> capability option) \<Rightarrow> targets \<Rightarrow> capabilities \<Rightarrow> capabilities" where
  "set_capabilities f [] res = res"
| "set_capabilities f ((k, node, p) # uts) res =
     set_capabilities f uts (case f node p of None \<Rightarrow> res | Some c \<Rightarrow> AList.update k c res)"

definition role_capability :: "session \<Rightarrow> capability" where
  "role_capability s =
     \<lparr>capRead = sessionHasPermission s ''storage:read'',
      capWrite = sessionHasPermission s ''storage:write'',
      capDelete = sessionHasPermission s ''storage:delete''\<rparr>"

definition grant_capability :: "bool \<Rightarrow> session \<Rightarrow> grant list \<Rightarrow> ustring \<Rightarrow> capability" where
  "grant_capability win s nodeGrants p =
     (if nodeGrants = [] then role_capability s
      else
        let matching = filter (\<lambda>g. pathMatchesGrant win p (gPathPrefix g)) nodeGrants;
            r = role_capability s
        in \<lparr>capRead = capRead r \<and> (\<exists>g \<in> set matching. gCanRead g),
            capWrite = capWrite r \<and> (\<exists>g \<in> set matching. gCanWrite g),
            capDelete = capDelete r \<and> (\<exists>g \<in> set matching. gCanDelete g)\<rparr>)"

text \<open>\<open>where: { id: { in: ids }, ...nodeScope }, take: 5000\<close>: a scope on the id replaces \<open>in\<close>.\<close>

definition visible_nodes :: "session \<Rightarrow> storage_node list \<Rightarrow> string list \<Rightarrow> string list" where
  "visible_nodes s nodes ids =
     map snId (take 5000 (filter (\<lambda>n. case storageNodeTeamWhere s of
          AllRows \<Rightarrow> snId n \<in> set ids
        | TeamRows t \<Rightarrow> snId n \<in> set ids \<and> snTeamId n = Some t
        | IdRows k \<Rightarrow> snId n = k) nodes))"

definition getStorageAccessCapabilities ::
  "bool \<Rightarrow> storage_db \<Rightarrow> session \<Rightarrow> (string \<times> ustring option) list \<Rightarrow> capabilities" where
  "getStorageAccessCapabilities win db s targets =
     (case collect_targets win targets ([], []) of (res0, uts) \<Rightarrow>
      if uts = [] then res0
      else
        let ids = dedup (map (\<lambda>(k, node, p). node) uts);
            vis = visible_nodes s (sdNodes db) ids;
            res1 = set_capabilities (\<lambda>node p. if node \<notin> set vis then Some no_capability else None) uts res0
        in if unrestricted s
           then set_capabilities
                  (\<lambda>node p. if node \<in> set vis then Some (role_capability s) else None) uts res1
           else if vis = [] then res1
           else
             let grants = fetch_pages 499 (sort_by grant_order
                   (filter (\<lambda>g. gUserId g = userId s \<and> gNodeId g \<in> set vis) (sdGrants db)))
             in set_capabilities
                  (\<lambda>node p. Some (grant_capability win s
                     (filter (\<lambda>g. gNodeId g = node) grants) p)) uts res1)"

section \<open>Grant matching on segments\<close>

lemma normalizeAccessPath_good:
  "normalizeAccessPath win v = Some p \<Longrightarrow> good_path win p"
  using validate_good
  by (auto simp: normalizeAccessPath_def normalizeStorageTargetDirectory_def split: sum.splits)

lemma normalize_empty [simp]: "normalizeAccessPath win (Some []) = Some []"
  by (simp add: normalizeAccessPath_def normalizeStorageTargetDirectory_def validateSegments_def
      normalizePathInput_def or_empty_def to_slashes_def us_trim_def)

lemma normalizeAccessPath_fixpoint [simp]:
  assumes "normalizeAccessPath win v = Some p"
  shows "normalizeAccessPath win (Some p) = Some p"
proof (cases "p = []")
  case False
  then show ?thesis
    using validate_fixpoint [OF normalizeAccessPath_good [OF assms]]
    by (simp add: normalizeAccessPath_def normalizeStorageTargetDirectory_def or_empty_def)
qed simp

lemma us_starts_prefix: "us_starts s p \<longleftrightarrow> prefix p s"
  unfolding us_starts_def by (metis append_eq_conv_conj prefix_def)

lemma good_path_segs:
  assumes "good_path win p"
  shows "join_on slash (segs p) = p" and "\<forall>s \<in> set (segs p). s \<noteq> [] \<and> slash \<notin> set s"
proof -
  have "join_on slash (segs p) = p \<and> (\<forall>s \<in> set (segs p). s \<noteq> [] \<and> slash \<notin> set s)"
  proof (cases "p = []")
    case True
    then show ?thesis by (simp add: segs_def)
  next
    case False
    then obtain ss where ss: "\<forall>s \<in> set ss. good_segment win s" "p = join_on slash ss"
      using assms by (auto simp: good_path_def)
    then have n: "\<forall>s \<in> set ss. s \<noteq> [] \<and> slash \<notin> set s" by (auto simp: good_segment_def)
    then have "segs p = ss" unfolding ss(2) by (rule segs_join)
    then show ?thesis using ss(2) n by simp
  qed
  then show "join_on slash (segs p) = p" and "\<forall>s \<in> set (segs p). s \<noteq> [] \<and> slash \<notin> set s"
    by blast+
qed

lemma prefix_join:
  assumes "\<forall>s \<in> set ps. slash \<notin> set s" and "\<forall>s \<in> set ts. slash \<notin> set s" and "ps \<noteq> []" and "ts \<noteq> []"
  shows "(join_on slash ts = join_on slash ps \<or> prefix (join_on slash ps @ [slash]) (join_on slash ts))
     \<longleftrightarrow> prefix ps ts"
proof
  assume "prefix ps ts"
  then obtain rs where ts: "ts = ps @ rs" by (rule prefixE)
  show "join_on slash ts = join_on slash ps \<or> prefix (join_on slash ps @ [slash]) (join_on slash ts)"
    using assms(3) by (cases "rs = []") (simp_all add: ts join_append)
next
  assume a: "join_on slash ts = join_on slash ps \<or> prefix (join_on slash ps @ [slash]) (join_on slash ts)"
  have sp: "split_on slash (join_on slash ps) = ps" "split_on slash (join_on slash ts) = ts"
    using assms by (auto intro: split_join)
  from a show "prefix ps ts"
  proof
    assume "join_on slash ts = join_on slash ps"
    then show ?thesis using sp by simp
  next
    assume "prefix (join_on slash ps @ [slash]) (join_on slash ts)"
    then obtain r where "join_on slash ts = join_on slash ps @ slash # r" by (auto elim: prefixE)
    then have "ts = split_on slash (join_on slash ps @ slash # r)" using sp(2) by simp
    then have "ts = ps @ split_on slash r" unfolding split_on_append_any using sp(1) by simp
    then show ?thesis by simp
  qed
qed

text \<open>
  C31. A grant reaches exactly its directory tree: with both paths valid, a path matches a
  grant's prefix if and only if the prefix's segments are the first segments of the path - a
  grant on \<open>docs\<close> covers \<open>docs\<close> and \<open>docs/a\<close>, never \<open>docs2\<close>, and the empty prefix is the whole
  node.
\<close>

theorem grant_covers_subtree:
  assumes "normalizeAccessPath win target = Some t" and "normalizeAccessPath win pre = Some p"
  shows "pathMatchesGrant win t p \<longleftrightarrow> prefix (segs p) (segs t)"
proof -
  have g: "good_path win t" "good_path win p" using assms normalizeAccessPath_good by auto
  note t = good_path_segs [OF g(1)] and p = good_path_segs [OF g(2)]
  have "pathMatchesGrant win t p \<longleftrightarrow> p = [] \<or> t = p \<or> prefix (p @ [slash]) t"
    using assms by (simp add: pathMatchesGrant_def us_starts_prefix)
  also have "\<dots> \<longleftrightarrow> prefix (segs p) (segs t)"
  proof (cases "segs p = [] \<or> segs t = []")
    case True
    then show ?thesis
    proof
      assume s: "segs p = []"
      then have "p = []" using p(1) by simp
      with s show ?thesis by simp
    next
      assume s: "segs t = []"
      then have "t = []" using t(1) by simp
      moreover have "segs p = [] \<longleftrightarrow> p = []" using p(1) by (auto simp: segs_def)
      ultimately show ?thesis using s by auto
    qed
  next
    case False
    then have "p \<noteq> []" by (auto simp: segs_def)
    then show ?thesis
      using prefix_join [of "segs p" "segs t"] False p t by simp
  qed
  finally show ?thesis .
qed

theorem grant_covers_subtree_witness:
  "pathMatchesGrant False (u ''docs/a'') (u ''docs'') \<longleftrightarrow> prefix (segs (u ''docs'')) (segs (u ''docs/a''))"
proof -
  have "normalizeAccessPath False (Some (u ''docs/ a '')) = Some (u ''docs/a'')"
    "normalizeAccessPath False (Some (u ''docs/'')) = Some (u ''docs'')"
    by (simp_all add: normalizeAccessPath_def normalizeStorageTargetDirectory_def path_eval)
  then show ?thesis by (rule grant_covers_subtree)
qed

section \<open>Quotas\<close>

lemma loadStorageGrants_set [simp]:
  "set (loadStorageGrants grants uid node) = {g \<in> set grants. gUserId g = uid \<and> gNodeId g = node}"
  by (auto simp: loadStorageGrants_def)

lemma sum_update_one:
  assumes "distinct_keys key rows" and "r \<in> set rows" and "\<And>x. key (g x) = key x"
  shows "sum_list (map f (map (\<lambda>x. if key x = key r then g x else x) rows))
       = sum_list (map f rows) - f r + (f (g r) :: int)"
  using assms
proof (induction rows)
  case (Cons x rows)
  show ?case
  proof (cases "x = r")
    case True
    then have "\<forall>y \<in> set rows. key y \<noteq> key r" using Cons.prems(1) by (auto simp: distinct_keys_def image_iff)
    then have "map (\<lambda>x. if key x = key r then g x else x) rows = rows" by (intro map_idI) auto
    then show ?thesis using True by simp
  next
    case False
    then have "r \<in> set rows" using Cons.prems(2) by simp
    moreover have "key x \<noteq> key r"
      using Cons.prems(1) \<open>r \<in> set rows\<close> by (auto simp: distinct_keys_def image_iff)
    ultimately show ?thesis using Cons by (simp add: distinct_keys_def)
  qed
qed simp

definition counted_size :: "string \<Rightarrow> ustring \<Rightarrow> file_entry \<Rightarrow> int" where
  "counted_size node pre e = (if counted node pre e then entry_size e else 0)"

lemma usage_counted_size:
  "sum_list (map entry_size (filter (counted node pre) files)) = sum_list (map (counted_size node pre) files)"
  by (induction files) (auto simp: counted_size_def)

text \<open>
  The index after the write: the row of the target, found by its unique key, becomes a live
  file of the written size, or a new row is added.
\<close>

definition file_key :: "file_entry \<Rightarrow> string \<times> ustring" where
  "file_key e = (feNodeId e, fePath e)"

definition written :: "string \<Rightarrow> ustring \<Rightarrow> int \<Rightarrow> file_entry" where
  "written node path n =
     \<lparr>feNodeId = node, fePath = path, feIsFile = True, feSize = Some n, feIsDeleted = False\<rparr>"

definition commit_write :: "string \<Rightarrow> ustring \<Rightarrow> int \<Rightarrow> file_entry list \<Rightarrow> file_entry list" where
  "commit_write node path n files =
     (if (node, path) \<in> set (map file_key files)
      then map (\<lambda>e. if file_key e = (node, path)
             then e\<lparr>feIsFile := True, feSize := Some n, feIsDeleted := False\<rparr> else e) files
      else files @ [written node path n])"

lemma counted_prefix:
  "counted node pre e \<longleftrightarrow> live_file node e \<and> (pre = [] \<or> fePath e = pre \<or> prefix (pre @ [slash]) (fePath e))"
  unfolding counted_def startsWith_escaped by blast

lemma usage_after_commit:
  assumes d: "distinct_keys file_key files" and p: "path \<noteq> []"
    and cov: "pre = [] \<or> path = pre \<or> prefix (pre @ [slash]) path"
  shows "sum_list (map (counted_size node pre) (commit_write node path n files))
       = sum_list (map (counted_size node pre) files) - getReplacedFileBytes files node path + n"
proof (cases "(node, path) \<in> set (map file_key files)")
  case True
  then obtain r where r: "r \<in> set files" "file_key r = (node, path)" by auto
  let ?g = "\<lambda>e. e\<lparr>feIsFile := True, feSize := Some n, feIsDeleted := False\<rparr>"
  have one: "e = r" if "e \<in> set files" "file_key e = (node, path)" for e
    using distinct_keys_unique [OF d that(1) r(1)] that(2) r(2) by simp
  have g: "counted_size node pre (?g r) = n"
    using r(2) cov by (auto simp: counted_size_def counted_prefix live_file_def entry_size_def file_key_def)
  have "getReplacedFileBytes files node path = counted_size node pre r"
  proof (cases "live_file node r")
    case live: True
    have "find_first (\<lambda>e. live_file node e \<and> fePath e = path) files = Some r"
    proof (cases "find_first (\<lambda>e. live_file node e \<and> fePath e = path) files")
      case None
      then show ?thesis using r live by (auto simp: find_first_None file_key_def)
    next
      case (Some e)
      then show ?thesis using one [of e] find_first_Some [OF Some] by (auto simp: file_key_def live_file_def)
    qed
    then show ?thesis
      using p r(2) live cov by (auto simp: getReplacedFileBytes_def counted_size_def counted_prefix file_key_def)
  next
    case dead: False
    have "find_first (\<lambda>e. live_file node e \<and> fePath e = path) files = None"
      using one dead by (auto simp: find_first_None file_key_def live_file_def)
    then show ?thesis
      using dead by (simp add: getReplacedFileBytes_def counted_size_def counted_prefix)
  qed
  moreover have "commit_write node path n files
      = map (\<lambda>x. if file_key x = file_key r then ?g x else x) files"
    using True by (simp add: commit_write_def r(2))
  moreover have "file_key (?g x) = file_key x" for x by (simp add: file_key_def)
  ultimately show ?thesis
    using sum_update_one [OF d r(1), of ?g "counted_size node pre"] g by simp
next
  case False
  have "find_first (\<lambda>e. live_file node e \<and> fePath e = path) files = None"
    using False by (force simp: find_first_None file_key_def live_file_def)
  moreover have "counted_size node pre (written node path n) = n"
    using cov by (auto simp: counted_size_def counted_prefix live_file_def entry_size_def written_def)
  ultimately show ?thesis
    using False by (simp add: commit_write_def getReplacedFileBytes_def)
qed

lemma find_first_filter: "find_first p (filter q xs) = find_first (\<lambda>x. q x \<and> p x) xs"
  by (induction xs) (auto simp: find_first_def)

text \<open>The grant that decides: the first, by id, that matches the path and allows the operation.\<close>

definition deciding_grant :: "bool \<Rightarrow> storage_db \<Rightarrow> session \<Rightarrow> string \<Rightarrow> ustring \<Rightarrow> StorageAccessOperation \<Rightarrow> grant option" where
  "deciding_grant win db s node t op =
     find_first (\<lambda>g. pathMatchesGrant win t (gPathPrefix g) \<and> grantAllowsOperation g op)
       (loadStorageGrants (sdGrants db) (userId s) node)"

lemma decision_simps [simp]:
  "adGrantId (deny r g) = g" "adGrantId (allow g b) = g" "\<not> allowed (deny r g)" "allowed (allow g b)"
  "adGuard (allow g b) = b"
  by (simp_all add: deny_def allow_def allowed_def)

lemma assert_by_grant:
  assumes "assertStorageAccess win db inp = Inr d" and "adGrantId d = Some i"
    and "aiWriteBytes inp = Some wb" and "write_bytes wb = Inr w" and "aiOperation inp \<noteq> OpRead"
  shows "\<exists>g t largest. normalizeAccessPath win (aiPath inp) = Some t
    \<and> deciding_grant win db (aiSession inp) (aiNodeId inp) t (aiOperation inp) = Some g \<and> gId g = i
    \<and> d = check_limits win db inp t g w largest"
proof -
  have lim: "adGrantId (check_limits win db inp t g w l) = Some (gId g)" for t g l
    by (simp add: check_limits_def Let_def split: option.split)
  show ?thesis
    using assms
    by (auto simp: assertStorageAccess_def Let_def find_first_filter deciding_grant_def lim
        split: if_splits option.splits sum.splits)
qed

lemma match_covers:
  assumes "pathMatchesGrant win t pre" and "normalizeAccessPath win (Some t) = Some t"
  shows "\<exists>p. normalizeAccessPath win (Some pre) = Some p \<and> (p = [] \<or> t = p \<or> prefix (p @ [slash]) t)"
  using assms by (auto simp: pathMatchesGrant_def us_starts_prefix split: option.splits)

text \<open>
  C29. A grant's quota is never overrun by a write it admits: when a write (or a restore) of a
  given size is allowed by a grant with a quota, the caller holds the node's quota guard, and
  once the file is in the index the live bytes under the grant's prefix - the file it
  replaces no longer counted - are at most the quota.
\<close>

theorem quota_respected:
  assumes r: "assertStorageAccess win db inp = Inr d" "allowed d" "aiOperation inp \<noteq> OpRead"
    and w: "aiWriteBytes inp = Some wb" "write_bytes wb = Inr w"
    and path: "normalizeAccessPath win (aiPath inp) = Some t" "t \<noteq> []"
    and g: "g \<in> set (sdGrants db)" "adGrantId d = Some (gId g)" "gQuotaBytes g = Some quota"
      "\<not> already_counted win (aiMovedFrom inp) g"
    and keys: "distinct_keys gId (sdGrants db)" "distinct_keys file_key (sdFiles db)"
  shows "adGuard d \<and>
    getGrantUsageBytes win (commit_write (aiNodeId inp) t w (sdFiles db)) (aiNodeId inp) (gPathPrefix g) \<le> quota"
proof -
  obtain g' t' largest where n: "normalizeAccessPath win (aiPath inp) = Some t'"
    and f: "deciding_grant win db (aiSession inp) (aiNodeId inp) t' (aiOperation inp) = Some g'"
    and i: "gId g' = gId g" and d: "d = check_limits win db inp t' g' w largest"
    using assert_by_grant [OF r(1) g(2) w r(3)] by blast
  have t: "t' = t" using n path(1) by simp
  note ff = find_first_Some [OF f [unfolded deciding_grant_def]]
  have gg: "g' = g"
    using distinct_keys_unique [OF keys(1) _ g(1) i] ff by simp
  have m: "pathMatchesGrant win t (gPathPrefix g)" using ff gg t by simp
  obtain p where p: "normalizeAccessPath win (Some (gPathPrefix g)) = Some p"
    "p = [] \<or> t = p \<or> prefix (p @ [slash]) t"
    using match_covers [OF m normalizeAccessPath_fixpoint [OF path(1)]] by blast
  have "adGuard d \<and> getGrantUsageBytes win (sdFiles db) (aiNodeId inp) (gPathPrefix g)
      - getReplacedFileBytes (sdFiles db) (aiNodeId inp) t + w \<le> quota"
    using r(2) g(3,4)
    by (auto simp: d gg t check_limits_def Let_def split: if_splits)
  then show ?thesis
    using usage_after_commit [OF keys(2) path(2) p(2), of "aiNodeId inp" w]
    by (simp add: getGrantUsageBytes_def p(1) usage_counted_size)
qed

text \<open>
  What a download is told it may write is what an upload would be allowed: for a new file
  of positive size, the access check admits the write if and only if the size is within
  \<open>largestAllowedWrite\<close> of the capacity.
\<close>

theorem capacity_agrees:
  assumes may: "sessionHasPermission (aiSession inp) ''storage:write''"
      "node_visible (aiSession inp) (sdNodes db) (aiNodeId inp)"
    and inp: "aiOperation inp = OpWrite" "aiWriteBytes inp = Some (Big n)" "0 < n"
      "aiLargestFileBytes inp = None" "aiMovedFrom inp = None"
    and new: "\<And>t. normalizeAccessPath win (aiPath inp) = Some t \<Longrightarrow>
      getReplacedFileBytes (sdFiles db) (aiNodeId inp) t = 0"
  shows "(\<exists>d. assertStorageAccess win db inp = Inr d \<and> allowed d) \<longleftrightarrow>
    (case largestAllowedWrite (getStorageWriteCapacity win db (aiSession inp) (aiNodeId inp) (aiPath inp)) of
       None \<Rightarrow> True | Some m \<Rightarrow> n \<le> m)"
proof -
  let ?grants = "loadStorageGrants (sdGrants db) (userId (aiSession inp)) (aiNodeId inp)"
  have perm: "sessionHasPermission (aiSession inp) (required_permission (aiOperation inp))"
    using may(1) inp(1) by (simp add: required_permission_def)
  show ?thesis
  proof (cases "unrestricted (aiSession inp) \<or> ?grants = []")
    case True
    then show ?thesis
      using perm may(2)
      by (auto simp: assertStorageAccess_def getStorageWriteCapacity_def Let_def
          largestAllowedWrite_def)
  next
    case False
    show ?thesis
    proof (cases "normalizeAccessPath win (aiPath inp)")
      case None
      with False show ?thesis
        using perm may(2) inp(3)
        by (simp add: assertStorageAccess_def getStorageWriteCapacity_def Let_def
            largestAllowedWrite_def)
    next
      case (Some t)
      let ?g = "find_first (\<lambda>g. pathMatchesGrant win t (gPathPrefix g) \<and> grantAllowsOperation g OpWrite) ?grants"
      show ?thesis
      proof (cases ?g)
        case None
        with False Some show ?thesis
          using perm may(2) inp(1,3)
          by (simp add: assertStorageAccess_def getStorageWriteCapacity_def Let_def find_first_filter
              largestAllowedWrite_def)
      next
        case (Some g)
        have "assertStorageAccess win db inp = Inr (check_limits win db inp t g n n)"
          using False Some \<open>normalizeAccessPath win (aiPath inp) = Some t\<close> perm may(2) inp
          by (simp add: assertStorageAccess_def Let_def find_first_filter)
        moreover have "getStorageWriteCapacity win db (aiSession inp) (aiNodeId inp) (aiPath inp) =
            (case gQuotaBytes g of
               None \<Rightarrow> \<lparr>wcMaxFileBytes = gMaxFileBytes g, wcRemainingBytes = None\<rparr>
             | Some quota \<Rightarrow>
                 let remaining = quota - getGrantUsageBytes win (sdFiles db) (aiNodeId inp) (gPathPrefix g)
                 in \<lparr>wcMaxFileBytes = gMaxFileBytes g,
                     wcRemainingBytes = Some (if 0 < remaining then remaining else 0)\<rparr>)"
          using False Some \<open>normalizeAccessPath win (aiPath inp) = Some t\<close>
          by (simp add: getStorageWriteCapacity_def Let_def cong: option.case_cong)
        moreover have "already_counted win (aiMovedFrom inp) g = False"
          using inp(5) by (simp add: already_counted_def)
        ultimately show ?thesis
          using inp(3) new [OF \<open>normalizeAccessPath win (aiPath inp) = Some t\<close>]
          by (cases "gMaxFileBytes g"; cases "gQuotaBytes g")
            (auto simp: check_limits_def Let_def largestAllowedWrite_def)
      qed
    qed
  qed
qed

section \<open>Capabilities\<close>

text \<open>A capability table is a map: what a loop over the targets leaves under a key.\<close>

lemma map_of_set_capabilities:
  assumes "distinct (map fst uts)"
  shows "map_of (set_capabilities f uts res) k =
     (case map_of uts k of
        None \<Rightarrow> map_of res k
      | Some (node, p) \<Rightarrow> (case f node p of None \<Rightarrow> map_of res k | Some c \<Rightarrow> Some c))"
  using assms
proof (induction f uts res rule: set_capabilities.induct)
  case (2 f k' node p uts res)
  have "map_of uts k' = None" using "2.prems" by (simp add: map_of_eq_None_iff)
  then show ?case
    using 2 by (auto simp: update_conv' split: option.splits)
qed simp

definition targets_ok :: "string set \<Rightarrow> targets \<Rightarrow> bool" where
  "targets_ok N uts \<longleftrightarrow> distinct (map fst uts)
     \<and> (\<forall>k node p. map_of uts k = Some (node, p) \<longrightarrow> k = capability_key node p \<and> node \<in> N)"

lemma targets_ok_update:
  "targets_ok N uts \<Longrightarrow> node \<in> N \<Longrightarrow> targets_ok N (AList.update (capability_key node p) (node, p) uts)"
  by (simp add: targets_ok_def distinct_update update_conv')

lemma collect_ok:
  "targets_ok N (snd acc) \<Longrightarrow> fst ` set ts \<subseteq> N \<Longrightarrow> targets_ok N (snd (collect_targets win ts acc))"
proof (induction win ts acc rule: collect_targets.induct)
  case (2 win node path ts res uts)
  then show ?case by (simp add: targets_ok_update split: option.split)
qed simp

lemma length_update_le: "length (AList.update k v al) \<le> Suc (length al)"
  by (induction al) auto

lemma collect_length: "length (snd (collect_targets win ts acc)) \<le> length (snd acc) + length ts"
proof (induction win ts acc rule: collect_targets.induct)
  case (2 win node path ts res uts)
  have "length (AList.update (capability_key node p) (node, p) uts) \<le> Suc (length uts)" for p
    by (rule length_update_le)
  then show ?case
    using 2 by (cases "normalizeAccessPath win path") (auto intro: le_trans)
qed simp

lemma collect_keeps:
  "map_of (snd acc) k \<noteq> None \<Longrightarrow> map_of (snd (collect_targets win ts acc)) k \<noteq> None"
  by (induction win ts acc rule: collect_targets.induct) (auto simp: update_conv' split: option.split)

lemma collect_finds:
  "(node, path) \<in> set ts \<Longrightarrow> normalizeAccessPath win path = Some p \<Longrightarrow>
     map_of (snd (collect_targets win ts acc)) (capability_key node p) \<noteq> None"
proof (induction win ts acc rule: collect_targets.induct)
  case (2 win node' path' ts res uts)
  show ?case
  proof (cases "(node, path) \<in> set ts")
    case True
    then show ?thesis using 2 by simp
  next
    case False
    then have e: "node' = node" "path' = path" using "2.prems"(1) by auto
    have "map_of (AList.update (capability_key node p) (node, p) uts) (capability_key node p) \<noteq> None"
      by (simp add: update_conv')
    then show ?thesis using collect_keeps "2.prems"(2) e by simp
  qed
qed simp

lemma key_inj:
  assumes "capability_key n p = capability_key m q" and "CHR '':'' \<notin> set n" and "CHR '':'' \<notin> set m"
  shows "n = m \<and> p = q"
proof -
  have c: "58 \<notin> set (u x)" if "CHR '':'' \<notin> set x" for x :: string
  proof
    assume "58 \<in> set (u x)"
    then obtain y where "y \<in> set x" "(of_char y :: nat) = of_char CHR '':''" by auto
    then have "y = CHR '':''" by (simp only: of_char_eq_iff)
    with that \<open>y \<in> set x\<close> show False by simp
  qed
  from assms(1) have "u n @ 58 # p = u m @ 58 # q" by (simp add: capability_key_def)
  then have "split_on 58 (u n @ 58 # p) = split_on 58 (u m @ 58 # q)" by simp
  then have "u n = u m"
    using c [OF assms(2)] c [OF assms(3)] by (simp add: split_on_append)
  moreover have "inj (of_char :: char \<Rightarrow> nat)" by (simp add: inj_def)
  ultimately have "n = m" by (simp add: inj_map_eq_map)
  then show ?thesis using assms(1) by (simp add: capability_key_def)
qed

lemma collect_lookup:
  assumes "(node, path) \<in> set ts" and "normalizeAccessPath win path = Some p"
    and "\<forall>(n, q) \<in> set ts. CHR '':'' \<notin> set n"
  shows "map_of (snd (collect_targets win ts ([], []))) (capability_key node p) = Some (node, p)"
proof -
  let ?uts = "snd (collect_targets win ts ([], []))"
  have ok: "targets_ok (fst ` set ts) ?uts"
    by (rule collect_ok) (auto simp: targets_ok_def)
  obtain m q where l: "map_of ?uts (capability_key node p) = Some (m, q)"
    using collect_finds [OF assms(1,2), of "([], [])"] by auto
  then have "capability_key node p = capability_key m q" "m \<in> fst ` set ts"
    using ok unfolding targets_ok_def by blast+
  moreover have "CHR '':'' \<notin> set m" "CHR '':'' \<notin> set node"
    using assms(1,3) calculation(2) by auto
  ultimately have "node = m \<and> p = q" by (intro key_inj)
  with l show ?thesis by simp
qed

lemma length_filter_key_le:
  assumes "distinct_keys key rows"
  shows "length (filter (\<lambda>r. key r \<in> set ks) rows) \<le> length ks"
proof -
  have "distinct (map key (filter (\<lambda>r. key r \<in> set ks) rows))"
    using distinct_keys_filter [OF assms] by (simp add: distinct_keys_def)
  then have "length (filter (\<lambda>r. key r \<in> set ks) rows) = card (key ` {r \<in> set rows. key r \<in> set ks})"
    using distinct_card by force
  also have "\<dots> \<le> card (set ks)" by (rule card_mono) auto
  also have "\<dots> \<le> length ks" by (rule card_length)
  finally show ?thesis .
qed

lemma visible_nodes_iff:
  assumes "node \<in> set ids" and "distinct_keys snId nodes" and "length ids \<le> 5000"
    and "\<forall>n \<in> set nodes. genuine_id (snId n)"
  shows "node \<in> set (visible_nodes s nodes ids) \<longleftrightarrow> node_visible s nodes node"
proof (cases "storageNodeTeamWhere s")
  case (IdRows k)
  then have "\<not> genuine_id k"
    by (auto simp: storageNodeTeamWhere_def strictCustomerScope_def split: option.splits if_splits)
  then show ?thesis
    using IdRows assms(4) by (auto simp: visible_nodes_def node_visible_def dest!: in_set_takeD)
next
  case AllRows
  have "length (filter (\<lambda>n. snId n \<in> set ids) nodes) \<le> length ids"
    by (rule length_filter_key_le [OF assms(2)])
  then show ?thesis
    using AllRows assms(1,3) by (auto simp: visible_nodes_def node_visible_def)
next
  case (TeamRows t)
  have "length (filter (\<lambda>n. snId n \<in> set ids \<and> snTeamId n = Some t) nodes)
      \<le> length (filter (\<lambda>n. snId n \<in> set ids) nodes)"
    unfolding count_where_def [symmetric] by (rule count_where_mono) simp
  also have "\<dots> \<le> length ids"
    by (rule length_filter_key_le [OF assms(2)])
  finally show ?thesis
    using TeamRows assms(1,3) by (auto simp: visible_nodes_def node_visible_def)
qed

fun capability_allows :: "capability \<Rightarrow> StorageAccessOperation \<Rightarrow> bool" where
  "capability_allows c OpRead = capRead c"
| "capability_allows c OpWrite = capWrite c"
| "capability_allows c OpDelete = capDelete c"

definition plain_access :: "session \<Rightarrow> string \<Rightarrow> ustring option \<Rightarrow> StorageAccessOperation \<Rightarrow> access_input" where
  "plain_access s node path op = \<lparr>aiSession = s, aiNodeId = node, aiPath = path, aiOperation = op,
     aiWriteBytes = None, aiLargestFileBytes = None, aiMovedFrom = None\<rparr>"

lemma assert_plain:
  assumes "normalizeAccessPath win path = Some p"
  shows "(\<exists>d. assertStorageAccess win db (plain_access s node path op) = Inr d \<and> allowed d) \<longleftrightarrow>
     sessionHasPermission s (required_permission op) \<and> node_visible s (sdNodes db) node
     \<and> (unrestricted s
        \<or> (let gs = set (loadStorageGrants (sdGrants db) (userId s) node) in
            gs = {} \<or> (\<exists>g \<in> gs. pathMatchesGrant win p (gPathPrefix g) \<and> grantAllowsOperation g op)))"
proof -
  let ?gs = "loadStorageGrants (sdGrants db) (userId s) node"
  let ?f = "find_first (\<lambda>g. pathMatchesGrant win p (gPathPrefix g) \<and> grantAllowsOperation g op) ?gs"
  have f: "(\<exists>g. ?f = Some g) \<longleftrightarrow>
      (\<exists>g \<in> set ?gs. pathMatchesGrant win p (gPathPrefix g) \<and> grantAllowsOperation g op)"
    using find_first_None [of "\<lambda>g. pathMatchesGrant win p (gPathPrefix g) \<and> grantAllowsOperation g op" ?gs]
    by (cases ?f) auto
  have e: "?gs = [] \<longleftrightarrow> set ?gs = {}" by (simp only: set_empty)
  show ?thesis
    unfolding Let_def f [symmetric] e [symmetric]
    using assms
    by (cases ?f) (simp_all add: assertStorageAccess_def plain_access_def Let_def find_first_filter
        del: loadStorageGrants_set)
qed

lemma capability_allows_role:
  "capability_allows (role_capability s) op = sessionHasPermission s (required_permission op)"
  by (cases op) (simp_all add: role_capability_def required_permission_def)

lemma capability_allows_grant:
  "capability_allows (grant_capability win s gs p) op \<longleftrightarrow>
     sessionHasPermission s (required_permission op)
     \<and> (set gs = {} \<or> (\<exists>g \<in> set gs. pathMatchesGrant win p (gPathPrefix g) \<and> grantAllowsOperation g op))"
  by (cases op; cases "gs = []")
    (auto simp: grant_capability_def role_capability_def required_permission_def Let_def)

lemma grant_capability_cong:
  assumes "set gs = set gs'"
  shows "grant_capability win s gs p = grant_capability win s gs' p"
proof -
  have "gs = [] \<longleftrightarrow> gs' = []" using assms by (metis set_empty)
  then show ?thesis using assms by (simp add: grant_capability_def Let_def)
qed

lemma grants_of_node:
  "grant_capability win s (filter (\<lambda>g. gNodeId g = node) (fetch_pages 499 (sort_by grant_order
        (filter (\<lambda>g. gUserId g = uid \<and> gNodeId g \<in> set vis) grants)))) p
   = grant_capability win s (if node \<in> set vis then loadStorageGrants grants uid node else []) p"
  by (rule grant_capability_cong) auto

lemma capabilities_lookup:
  assumes t: "(node, path) \<in> set targets" "normalizeAccessPath win path = Some p"
    and keys: "\<forall>(n, q) \<in> set targets. CHR '':'' \<notin> set n" "distinct_keys snId (sdNodes db)"
      "\<forall>n \<in> set (sdNodes db). genuine_id (snId n)" "length targets \<le> 5000"
    and uts: "uts = snd (collect_targets win targets ([], []))"
    and vis: "vis = visible_nodes s (sdNodes db) (dedup (map (\<lambda>(k, node, p). node) uts))"
    and gs: "gs = (if node \<in> set vis then loadStorageGrants (sdGrants db) (userId s) node else [])"
  shows "map_of (getStorageAccessCapabilities win db s targets) (capability_key node p) =
       (if unrestricted s then Some (if node \<in> set vis then role_capability s else no_capability)
        else if vis = [] then Some no_capability
        else Some (grant_capability win s gs p))"
    and "node \<in> set vis \<longleftrightarrow> node_visible s (sdNodes db) node"
    and "(m, q) \<in> set targets \<Longrightarrow> normalizeAccessPath win q = Some r \<Longrightarrow>
         node_visible s (sdNodes db) m \<Longrightarrow> vis \<noteq> []"
proof -
  let ?ids = "dedup (map (\<lambda>(k, node, p). node) uts)"
  have l: "map_of uts (capability_key m r) = Some (m, r)"
    if "(m, q) \<in> set targets" "normalizeAccessPath win q = Some r" for m q r
    unfolding uts by (rule collect_lookup [OF that keys(1)])
  have d: "distinct (map fst uts)"
    using collect_ok [of UNIV "([], [])" targets win] unfolding uts by (simp add: targets_ok_def)
  have ids: "length ?ids \<le> 5000"
  proof -
    have "length ?ids \<le> length uts"
      unfolding dedup_def by (metis length_map length_remdups_leq length_rev)
    also have "\<dots> \<le> length targets" using collect_length [of win targets "([], [])"] by (simp add: uts)
    finally show ?thesis using keys(4) by simp
  qed
  have v: "m \<in> set vis \<longleftrightarrow> node_visible s (sdNodes db) m"
    if "(m, q) \<in> set targets" "normalizeAccessPath win q = Some r" for m q r
  proof -
    have "m \<in> set ?ids" using map_of_SomeD [OF l [OF that]] by force
    then show ?thesis unfolding vis by (rule visible_nodes_iff [OF _ keys(2) ids keys(3)])
  qed
  show "node \<in> set vis \<longleftrightarrow> node_visible s (sdNodes db) node" by (rule v [OF t])
  show "vis \<noteq> []" if "(m, q) \<in> set targets" "normalizeAccessPath win q = Some r"
    "node_visible s (sdNodes db) m"
    using v [OF that(1,2)] that(3) by auto
  have ne: "uts \<noteq> []" using l [OF t] by auto
  obtain res0 where c: "collect_targets win targets ([], []) = (res0, uts)"
    by (cases "collect_targets win targets ([], [])") (simp add: uts)
  show "map_of (getStorageAccessCapabilities win db s targets) (capability_key node p) =
       (if unrestricted s then Some (if node \<in> set vis then role_capability s else no_capability)
        else if vis = [] then Some no_capability
        else Some (grant_capability win s gs p))"
    unfolding getStorageAccessCapabilities_def c prod.case Let_def vis [symmetric] gs grants_of_node
    using ne l [OF t] by (auto simp: map_of_set_capabilities [OF d])
qed

text \<open>
  C30. The capabilities shown for a path are exactly what the access check would decide: for a
  target on a node the session can see, the read, write and delete flags are those of
  \<open>assertStorageAccess\<close> for the same path.
\<close>

theorem capabilities_agree:
  assumes t: "(node, path) \<in> set targets" "normalizeAccessPath win path = Some p"
    and vis: "node_visible s (sdNodes db) node"
    and keys: "\<forall>(n, q) \<in> set targets. CHR '':'' \<notin> set n" "distinct_keys snId (sdNodes db)"
      "\<forall>n \<in> set (sdNodes db). genuine_id (snId n)" "length targets \<le> 5000"
  shows "\<exists>c. map_of (getStorageAccessCapabilities win db s targets) (capability_key node p) = Some c
    \<and> (\<forall>op. capability_allows c op \<longleftrightarrow>
          (\<exists>d. assertStorageAccess win db (plain_access s node path op) = Inr d \<and> allowed d))"
proof -
  note look = capabilities_lookup [OF t keys refl refl refl, where s = s]
  show ?thesis
    using look(1) look(2) look(3) [OF t vis] vis
    by (cases "unrestricted s")
      (simp_all add: assert_plain [OF t(2)] capability_allows_role capability_allows_grant Let_def)
qed

text \<open>
  For a target on a foreign node the capabilities are wrong whenever the list also names a
  visible node: the session without node management is shown its whole role's capability
  there, although the access check denies every operation.  The denial written first is
  overwritten by the loop over all targets, which finds no grants for a node it did not query.
\<close>

theorem foreign_node_capabilities:
  assumes t: "(node, path) \<in> set targets" "normalizeAccessPath win path = Some p"
    and other: "(m, q) \<in> set targets" "normalizeAccessPath win q = Some r" "node_visible s (sdNodes db) m"
    and foreign: "\<not> node_visible s (sdNodes db) node" "\<not> unrestricted s"
    and keys: "\<forall>(n, q) \<in> set targets. CHR '':'' \<notin> set n" "distinct_keys snId (sdNodes db)"
      "\<forall>n \<in> set (sdNodes db). genuine_id (snId n)" "length targets \<le> 5000"
  shows "map_of (getStorageAccessCapabilities win db s targets) (capability_key node p)
       = Some (role_capability s)
    \<and> \<not> (\<exists>d. assertStorageAccess win db (plain_access s node path op) = Inr d \<and> allowed d)"
proof -
  note look = capabilities_lookup [OF t keys refl refl refl, where s = s]
  have "map_of (getStorageAccessCapabilities win db s targets) (capability_key node p)
      = Some (grant_capability win s [] p)"
    using look(1) look(3) [OF other] look(2) foreign by simp
  then show ?thesis
    using foreign(1) by (simp add: assert_plain [OF t(2)] grant_capability_def)
qed

section \<open>A sample node\<close>

definition sample_grant :: grant where
  "sample_grant = \<lparr>gId = ''g1'', gUserId = ''u1'', gNodeId = ''n1'', gPathPrefix = u ''docs'',
     gCanRead = True, gCanWrite = True, gCanDelete = False, gQuotaBytes = Some 100, gMaxFileBytes = Some 80\<rparr>"

definition sample_storage :: storage_db where
  "sample_storage = \<lparr>sdNodes = [\<lparr>snId = ''n1'', snTeamId = Some ''t1''\<rparr>, \<lparr>snId = ''n2'', snTeamId = Some ''t2''\<rparr>],
     sdGrants = [sample_grant],
     sdFiles = [\<lparr>feNodeId = ''n1'', fePath = u ''docs/a'', feIsFile = True, feSize = Some 30, feIsDeleted = False\<rparr>]\<rparr>"

definition files_session :: session where
  "files_session = \<lparr>userId = ''u1'', username = ''ann'', roles = [''viewer''], mustChangePassword = False,
     currentTeamId = Some ''t1'', permissions = Some [''storage:read'', ''storage:write'']\<rparr>"

definition sample_access :: "int \<Rightarrow> access_input" where
  "sample_access n = \<lparr>aiSession = files_session, aiNodeId = ''n1'', aiPath = Some (u ''docs/b''),
     aiOperation = OpWrite, aiWriteBytes = Some (Big n), aiLargestFileBytes = None, aiMovedFrom = None\<rparr>"

lemma sample_paths:
  "normalizeAccessPath False (Some (u ''docs/b'')) = Some (u ''docs/b'')"
  "normalizeAccessPath False (Some (u ''docs'')) = Some (u ''docs'')"
  by (simp_all add: normalizeAccessPath_def normalizeStorageTargetDirectory_def path_eval)

lemma sample_session_facts:
  "sessionHasPermission files_session ''storage:write''" "sessionHasPermission files_session ''storage:read''"
  "\<not> sessionHasPermission files_session ''storage:delete''"
  "\<not> unrestricted files_session" "node_visible files_session (sdNodes sample_storage) ''n1''"
  "storageNodeTeamWhere files_session = TeamRows ''t1''"
  by (simp_all add: files_session_def sessionHasPermission_def PLATFORM_ONLY_PERMISSIONS_def
      unrestricted_def isGlobalTeamManager_def node_visible_def sample_storage_def
      storageNodeTeamWhere_def strictCustomerScope_def seesAllCustomers_def)

lemma sample_match: "pathMatchesGrant False (u ''docs/b'') (u ''docs'')"
  using sample_paths by (simp add: pathMatchesGrant_def us_starts_def)

lemma sample_grants: "loadStorageGrants (sdGrants sample_storage) (userId files_session) ''n1'' = [sample_grant]"
  by (simp add: loadStorageGrants_def sample_storage_def sample_grant_def files_session_def)

lemma sample_usage: "getGrantUsageBytes False (sdFiles sample_storage) ''n1'' (u ''docs'') = 30"
  using sample_paths(2)
  by (simp add: getGrantUsageBytes_def sample_storage_def counted_prefix live_file_def entry_size_def)

lemma sample_replaced: "getReplacedFileBytes (sdFiles sample_storage) ''n1'' (u ''docs/b'') = 0"
  by (simp add: getReplacedFileBytes_def sample_storage_def live_file_def)

lemma sample_decision:
  "assertStorageAccess False sample_storage (sample_access 60) = Inr (allow (Some ''g1'') True)"
  using sample_paths sample_match sample_usage sample_replaced sample_grants sample_session_facts
  by (simp add: assertStorageAccess_def sample_access_def Let_def required_permission_def
      sample_grant_def check_limits_def already_counted_def)

theorem quota_respected_witness:
  "getGrantUsageBytes False (commit_write ''n1'' (u ''docs/b'') 60 (sdFiles sample_storage)) ''n1'' (u ''docs'')
     \<le> 100"
proof -
  have "getGrantUsageBytes False (commit_write (aiNodeId (sample_access 60)) (u ''docs/b'') 60 (sdFiles sample_storage))
      (aiNodeId (sample_access 60)) (gPathPrefix sample_grant) \<le> 100"
    using sample_paths
    by (intro conjunct2 [OF quota_respected [OF sample_decision, where wb = "Big 60"]])
      (simp_all add: sample_access_def sample_grant_def sample_storage_def
        already_counted_def distinct_keys_def)
  then show ?thesis by (simp add: sample_access_def sample_grant_def)
qed

theorem capacity_agrees_witness:
  "(\<exists>d. assertStorageAccess False sample_storage (sample_access 60) = Inr d \<and> allowed d) \<longleftrightarrow>
    (case largestAllowedWrite (getStorageWriteCapacity False sample_storage files_session ''n1''
        (Some (u ''docs/b''))) of
       None \<Rightarrow> True | Some m \<Rightarrow> 60 \<le> m)"
proof -
  have i: "aiSession (sample_access 60) = files_session" "aiNodeId (sample_access 60) = ''n1''"
    "aiPath (sample_access 60) = Some (u ''docs/b'')"
    by (simp_all add: sample_access_def)
  show ?thesis
    using capacity_agrees [of "sample_access 60" sample_storage 60 False, unfolded i]
      sample_session_facts(1,5) sample_paths(1) sample_replaced
    by (simp add: sample_access_def)
qed

definition sample_targets :: "(string \<times> ustring option) list" where
  "sample_targets = [(''n1'', Some (u ''docs/b'')), (''n2'', Some (u ''docs''))]"

lemma sample_targets_ok:
  "(''n1'', Some (u ''docs/b'')) \<in> set sample_targets" "(''n2'', Some (u ''docs'')) \<in> set sample_targets"
  "\<forall>(n, q) \<in> set sample_targets. CHR '':'' \<notin> set n" "distinct_keys snId (sdNodes sample_storage)"
  "\<forall>n \<in> set (sdNodes sample_storage). genuine_id (snId n)" "length sample_targets \<le> 5000"
  by (simp_all add: sample_targets_def sample_storage_def distinct_keys_def genuine_id_def)

theorem capabilities_agree_witness:
  "\<exists>c. map_of (getStorageAccessCapabilities False sample_storage files_session sample_targets)
        (capability_key ''n1'' (u ''docs/b'')) = Some c
    \<and> (\<forall>op. capability_allows c op \<longleftrightarrow>
          (\<exists>d. assertStorageAccess False sample_storage
                (plain_access files_session ''n1'' (Some (u ''docs/b'')) op) = Inr d \<and> allowed d))"
  by (rule capabilities_agree [OF sample_targets_ok(1) sample_paths(1) sample_session_facts(5)
        sample_targets_ok(3-6)])

theorem foreign_node_capabilities_witness:
  "map_of (getStorageAccessCapabilities False sample_storage files_session sample_targets)
     (capability_key ''n2'' (u ''docs'')) = Some \<lparr>capRead = True, capWrite = True, capDelete = False\<rparr>
   \<and> \<not> (\<exists>d. assertStorageAccess False sample_storage
         (plain_access files_session ''n2'' (Some (u ''docs'')) OpRead) = Inr d \<and> allowed d)"
proof -
  have "\<not> node_visible files_session (sdNodes sample_storage) ''n2''"
    using sample_session_facts(6) by (simp add: node_visible_def sample_storage_def)
  from foreign_node_capabilities [OF sample_targets_ok(2) sample_paths(2) sample_targets_ok(1)
      sample_paths(1) sample_session_facts(5) this sample_session_facts(4) sample_targets_ok(3-6),
      where op = OpRead]
  show ?thesis using sample_session_facts(1-3) by (simp add: role_capability_def)
qed

end
