(* ===== verification/Ip_Blocklist.thy ===== *)
theory Ip_Blocklist
  imports Prelude "HOL-Library.Sublist"
begin

unbundle bit_operations_syntax

text \<open>
  \<^verbatim>\<open>src/lib/security/ip-blocklist.ts\<close>: which IP addresses the server must not contact.

  Addresses are \<open>string\<close>s of ASCII characters.  A group \<open>Number.parseInt\<close> cannot read is
  \<open>None\<close> (\<open>NaN\<close>).  The numbers the code shifts and masks are below \<open>2 ^ 16\<close>, so the bit
  operations of \<open>int\<close> are those of JavaScript's 32-bit integers.
\<close>

section \<open>Reading and writing numbers\<close>

definition digit_value :: "char \<Rightarrow> nat option" where
  "digit_value c =
     (let n = (of_char c :: nat) in
      if 48 \<le> n \<and> n \<le> 57 then Some (n - 48)
      else if 97 \<le> n \<and> n \<le> 102 then Some (n - 87)
      else if 65 \<le> n \<and> n \<le> 70 then Some (n - 55)
      else None)"

definition is_radix_digit :: "nat \<Rightarrow> char \<Rightarrow> bool" where
  "is_radix_digit radix c = (case digit_value c of None \<Rightarrow> False | Some d \<Rightarrow> d < radix)"

definition digits_value :: "nat \<Rightarrow> string \<Rightarrow> int" where
  "digits_value radix ds = foldl (\<lambda>n c. int radix * n + int (the (digit_value c))) 0 ds"

definition parseInt :: "nat \<Rightarrow> string \<Rightarrow> int option" where
  "parseInt radix str =
     (let s = dropWhile js_space str;
          negative = (s \<noteq> [] \<and> hd s = CHR ''-'');
          unsigned = (if s \<noteq> [] \<and> (hd s = CHR ''-'' \<or> hd s = CHR ''+'') then tl s else s);
          body = (if radix = 16 \<and> map ascii_lower (take 2 unsigned) = ''0x'' then drop 2 unsigned else unsigned);
          ds = takeWhile (is_radix_digit radix) body
      in if ds = [] then None
         else Some (if negative then - digits_value radix ds else digits_value radix ds))"

definition digit_char :: "nat \<Rightarrow> char" where
  "digit_char d = (if d < 10 then char_of (48 + d) else char_of (87 + d))"

text \<open>\<open>Number.prototype.toString(radix)\<close> of a natural number.\<close>

function to_radix :: "nat \<Rightarrow> nat \<Rightarrow> string" where
  "to_radix radix n =
     (if n < radix \<or> radix < 2 then [digit_char n]
      else to_radix radix (n div radix) @ [digit_char (n mod radix)])"
  by pat_completeness auto

termination
  by (relation "measure snd") (auto intro: div_less_dividend)

declare to_radix.simps [simp del]

section \<open>The code\<close>

definition IPV4_BLOCKED_BYTES :: "int \<Rightarrow> int \<Rightarrow> bool" where
  "IPV4_BLOCKED_BYTES a b \<longleftrightarrow>
     a = 0 \<or> a = 10 \<or> a = 127
     \<or> (a = 100 \<and> 64 \<le> b \<and> b \<le> 127)
     \<or> (a = 169 \<and> b = 254)
     \<or> (a = 172 \<and> 16 \<le> b \<and> b \<le> 31)
     \<or> (a = 192 \<and> (b = 0 \<or> b = 88 \<or> b = 168))
     \<or> (a = 198 \<and> (b = 18 \<or> b = 19))
     \<or> 224 \<le> a"

definition dec_digit :: "char \<Rightarrow> bool" where
  "dec_digit c \<longleftrightarrow> 48 \<le> (of_char c :: nat) \<and> (of_char c :: nat) \<le> 57"

definition quad_byte :: "string \<Rightarrow> int option" where
  "quad_byte part =
     (if 1 \<le> length part \<and> length part \<le> 3 \<and> list_all dec_digit part
      then (let value = digits_value 10 part in if 0 \<le> value \<and> value \<le> 255 then Some value else None)
      else None)"

definition parseDottedQuad :: "string \<Rightarrow> int list option" where
  "parseDottedQuad hostname =
     (let parts = split_on CHR ''.'' hostname in
      if length parts \<noteq> 4 then None
      else let bytes = map quad_byte parts
           in if list_all (\<lambda>b. b \<noteq> None) bytes then Some (map the bytes) else None)"

text \<open>\<open>s.split("::")\<close>\<close>

fun split_double_colon :: "string \<Rightarrow> string list" where
  "split_double_colon [] = [[]]"
| "split_double_colon [c] = [[c]]"
| "split_double_colon (c # d # s) =
     (if c = CHR '':'' \<and> d = CHR '':'' then [] # split_double_colon s
      else (case split_double_colon (d # s) of [] \<Rightarrow> [[c]] | p # ps \<Rightarrow> (c # p) # ps))"

definition colon_groups :: "string \<Rightarrow> string list" where
  "colon_groups raw = (if raw \<noteq> [] then filter (\<lambda>g. g \<noteq> []) (split_on CHR '':'' raw) else [])"

definition ipv4_tail_groups :: "string \<Rightarrow> string list option" where
  "ipv4_tail_groups ipv4Tail =
     (let octets = map (parseInt 10) (split_on CHR ''.'' ipv4Tail) in
      if length octets \<noteq> 4 \<or> list_ex (\<lambda>part. case part of None \<Rightarrow> True | Some n \<Rightarrow> n < 0 \<or> 255 < n) octets
      then None
      else Some [to_radix 16 (nat (push_bit 8 (the (octets ! 0)) OR the (octets ! 1))),
                 to_radix 16 (nat (push_bit 8 (the (octets ! 2)) OR the (octets ! 3)))])"

definition group_value :: "string \<Rightarrow> int option" where
  "group_value part = parseInt 16 (if part \<noteq> [] then part else ''0'')"

definition expandIpv6Address :: "string \<Rightarrow> int option list option" where
  "expandIpv6Address address =
     (let normalized = map ascii_lower address in
      if CHR '':'' \<notin> set normalized then None
      else
        let pieces = split_double_colon normalized;
            head = colon_groups (hd pieces);
            tail = (if 2 \<le> length pieces then colon_groups (pieces ! 1) else []);
            embedded = (head @ tail \<noteq> [] \<and> CHR ''.'' \<in> set (last (head @ tail)))
        in case (if embedded then ipv4_tail_groups (last (head @ tail)) else Some []) of
             None \<Rightarrow> None
           | Some gs \<Rightarrow>
               let head' = (if embedded \<and> tail = [] then butlast head @ gs else head);
                   tail' = (if embedded \<and> tail \<noteq> [] then butlast tail @ gs else tail)
               in if 2 \<le> length pieces
                  then (if 8 < length head' + length tail' then None
                        else Some (map group_value
                          (head' @ replicate (8 - (length head' + length tail')) ''0'' @ tail')))
                  else (if length head' = 8 then Some (map group_value head') else None))"

text \<open>\<open>replace(/^\[(.*)\]$/, "$1")\<close>\<close>

definition strip_brackets :: "string \<Rightarrow> string" where
  "strip_brackets s =
     (if 2 \<le> length s \<and> hd s = CHR ''['' \<and> last s = CHR '']''
         \<and> CHR 0x0A \<notin> set (butlast (tl s)) \<and> CHR 0x0D \<notin> set (butlast (tl s))
      then butlast (tl s) else s)"

definition blocked_dotted_quad :: "string \<Rightarrow> bool" where
  "blocked_dotted_quad normalized =
     (case parseDottedQuad normalized of None \<Rightarrow> False | Some ipv4 \<Rightarrow> IPV4_BLOCKED_BYTES (ipv4 ! 0) (ipv4 ! 1))"

text \<open>\<open>`${a}.${b}.${c}.${d}`\<close>\<close>

definition dotted :: "nat \<Rightarrow> nat \<Rightarrow> nat \<Rightarrow> nat \<Rightarrow> string" where
  "dotted a b c d = join_on CHR ''.'' (map (to_radix 10) [a, b, c, d])"

definition embedded_ipv4 :: "int \<Rightarrow> int \<Rightarrow> string" where
  "embedded_ipv4 p6 p7 =
     dotted (nat (drop_bit 8 p6 AND 255)) (nat (p6 AND 255)) (nat (drop_bit 8 p7 AND 255)) (nat (p7 AND 255))"

text \<open>The recursive call gets a dotted quad, which is its own normal form and has no colon.\<close>

definition isBlockedIpAddress :: "string \<Rightarrow> bool" where
  "isBlockedIpAddress address =
     (let normalized = strip_brackets (map ascii_lower (trim address)) in
      if normalized = [] then True
      else if CHR '':'' \<in> set normalized then
        (case expandIpv6Address normalized of
           None \<Rightarrow> True
         | Some groups \<Rightarrow>
             if list_ex (\<lambda>part. case part of None \<Rightarrow> True | Some n \<Rightarrow> n < 0 \<or> 0xffff < n) groups then True
             else
               let parts = map the groups;
                   allZero = list_all (\<lambda>p. p = 0) parts;
                   loopback = list_all (\<lambda>p. p = 0) (take 7 parts) \<and> parts ! 7 = 1;
                   uniqueLocal = (parts ! 0 AND 0xfe00 = 0xfc00);
                   linkLocal = (parts ! 0 AND 0xffc0 = 0xfe80);
                   multicast = (parts ! 0 AND 0xff00 = 0xff00);
                   ipv4Mapped = (list_all (\<lambda>p. p = 0) (take 5 parts) \<and> parts ! 5 = 0xffff);
                   ipv4Compatible = list_all (\<lambda>p. p = 0) (take 6 parts)
               in if ipv4Mapped \<or> ipv4Compatible
                  then blocked_dotted_quad (embedded_ipv4 (parts ! 6) (parts ! 7))
                  else allZero \<or> loopback \<or> uniqueLocal \<or> linkLocal \<or> multicast)
      else blocked_dotted_quad normalized)"

section \<open>Numbers round trip\<close>

lemma digit_char_value: "d < 16 \<Longrightarrow> digit_value (digit_char d) = Some d"
  by (auto simp: digit_value_def digit_char_def)

lemma to_radix_small: "n < radix \<Longrightarrow> to_radix radix n = [digit_char n]"
  by (subst to_radix.simps) simp

lemma to_radix_big:
  "2 \<le> radix \<Longrightarrow> radix \<le> n \<Longrightarrow> to_radix radix n = to_radix radix (n div radix) @ [digit_char (n mod radix)]"
  by (subst to_radix.simps) simp

lemma to_radix_ne [simp]: "to_radix radix n \<noteq> []"
  by (subst to_radix.simps) simp

lemma to_radix_digits:
  "2 \<le> radix \<Longrightarrow> radix \<le> 16 \<Longrightarrow> c \<in> set (to_radix radix n) \<Longrightarrow> \<exists>d < radix. c = digit_char d"
proof (induction radix n rule: to_radix.induct)
  case (1 radix n)
  show ?case
  proof (cases "n < radix")
    case True
    then show ?thesis using "1.prems"(3) by (auto simp: to_radix_small)
  next
    case False
    then have c: "c \<in> set (to_radix radix (n div radix)) \<or> c = digit_char (n mod radix)"
      using "1.prems" by (auto simp: to_radix_big)
    have "\<not> (n < radix \<or> radix < 2)" using False "1.prems"(1) by simp
    note ih = "1.IH" [OF this "1.prems"(1,2)]
    have "n mod radix < radix" using "1.prems"(1) by simp
    with c ih show ?thesis by blast
  qed
qed

lemma digits_value_snoc:
  "digits_value radix (ds @ [c]) = int radix * digits_value radix ds + int (the (digit_value c))"
  by (simp add: digits_value_def)

lemma digits_value_to_radix:
  "2 \<le> radix \<Longrightarrow> radix \<le> 16 \<Longrightarrow> digits_value radix (to_radix radix n) = int n"
proof (induction radix n rule: to_radix.induct)
  case (1 radix n)
  show ?case
  proof (cases "n < radix")
    case True
    then show ?thesis
      using "1.prems"(2) digit_char_value [of n] by (simp add: to_radix_small digits_value_def)
  next
    case False
    have nz: "\<not> (n < radix \<or> radix < 2)" using False "1.prems"(1) by simp
    note ih = "1.IH" [OF this "1.prems"]
    have "n mod radix < 16" using "1.prems" by (meson less_le_trans mod_less_divisor pos2 order_less_le_trans)
    then have "digits_value radix (to_radix radix n) = int radix * int (n div radix) + int (n mod radix)"
      using False "1.prems"(1) ih digit_char_value [of "n mod radix"]
      by (simp add: to_radix_big digits_value_snoc)
    also have "\<dots> = int (radix * (n div radix) + n mod radix)" by (simp only: of_nat_add of_nat_mult)
    finally show ?thesis by simp
  qed
qed

lemma digit_char_props:
  assumes "d < 16"
  shows "\<not> js_space (digit_char d)" and "digit_char d \<noteq> CHR ''-''" and "digit_char d \<noteq> CHR ''+''"
    and "ascii_lower (digit_char d) = digit_char d" and "digit_char d \<noteq> CHR '':''"
    and "digit_char d \<noteq> CHR ''.''" and "digit_char d \<noteq> CHR ''x''"
    and "digit_char d \<noteq> CHR ''[''" and "digit_char d \<noteq> CHR '']''"
proof -
  let ?n = "of_char (digit_char d) :: nat"
  have n: "(48 \<le> ?n \<and> ?n \<le> 57) \<or> (97 \<le> ?n \<and> ?n \<le> 102)"
    using assms by (auto simp: digit_char_def)
  have ne: "digit_char d \<noteq> c" if "(of_char c :: nat) < 48 \<or> (57 < (of_char c :: nat) \<and> (of_char c :: nat) < 97)
      \<or> 102 < (of_char c :: nat)" for c
    using n that by auto
  show "\<not> js_space (digit_char d)" using n by (auto simp: js_space_def)
  show "ascii_lower (digit_char d) = digit_char d" using n by (auto simp: ascii_lower_def Let_def)
  show "digit_char d \<noteq> CHR ''-''" "digit_char d \<noteq> CHR ''+''" "digit_char d \<noteq> CHR '':''"
    "digit_char d \<noteq> CHR ''.''" "digit_char d \<noteq> CHR ''x''" "digit_char d \<noteq> CHR ''[''"
    "digit_char d \<noteq> CHR '']''"
    by (rule ne, simp)+
qed

text \<open>A text of digits, as \<open>to_radix\<close> writes them.\<close>

definition digit_text :: "string \<Rightarrow> bool" where
  "digit_text s \<longleftrightarrow> s \<noteq> [] \<and> (\<forall>c \<in> set s. \<exists>d < 16. c = digit_char d)"

lemma digit_text_radix: "2 \<le> radix \<Longrightarrow> radix \<le> 16 \<Longrightarrow> digit_text (to_radix radix n)"
  unfolding digit_text_def using to_radix_digits to_radix_ne by (meson less_le_trans)

lemma digit_text_free:
  assumes "digit_text s"
  shows "CHR '':'' \<notin> set s" and "CHR ''.'' \<notin> set s" and "map ascii_lower s = s" and "s \<noteq> []"
    and "\<forall>c \<in> set s. \<not> js_space c \<and> c \<noteq> CHR ''['' \<and> c \<noteq> CHR '']'' \<and> c \<noteq> CHR ''-'' \<and> c \<noteq> CHR ''+''
      \<and> c \<noteq> CHR ''x''"
proof -
  have p: "\<exists>d < 16. c = digit_char d" if "c \<in> set s" for c
    using assms that unfolding digit_text_def by blast
  show "CHR '':'' \<notin> set s" and "CHR ''.'' \<notin> set s" using p digit_char_props(5,6) by metis+
  show "map ascii_lower s = s" using p digit_char_props(4) by (intro map_idI) metis
  show "s \<noteq> []" using assms by (simp add: digit_text_def)
  show "\<forall>c \<in> set s. \<not> js_space c \<and> c \<noteq> CHR ''['' \<and> c \<noteq> CHR '']'' \<and> c \<noteq> CHR ''-'' \<and> c \<noteq> CHR ''+''
      \<and> c \<noteq> CHR ''x''"
    using p digit_char_props(1-3,7-9) by metis
qed

lemma parseInt_to_radix:
  assumes "2 \<le> radix" and "radix \<le> 16"
  shows "parseInt radix (to_radix radix n) = Some (int n)"
proof -
  let ?s = "to_radix radix n"
  have t: "digit_text ?s" using assms by (rule digit_text_radix)
  note f = digit_text_free [OF t]
  obtain c cs where s: "?s = c # cs" using f(4) by (cases ?s) auto
  have c: "\<not> js_space c" "c \<noteq> CHR ''-''" "c \<noteq> CHR ''+''" using f(5) s by auto
  have d: "dropWhile js_space ?s = ?s" using c(1) s by simp
  have x: "map ascii_lower (take 2 ?s) \<noteq> ''0x''"
  proof -
    have "CHR ''x'' \<notin> set (take 2 ?s)" using f(5) by (metis in_set_takeD)
    moreover have "map ascii_lower (take 2 ?s) = take 2 ?s" using f(3) by (metis take_map)
    ultimately show ?thesis by auto
  qed
  have "\<forall>c \<in> set ?s. is_radix_digit radix c"
  proof
    fix c assume "c \<in> set ?s"
    then obtain d where "d < radix" "c = digit_char d" using to_radix_digits [OF assms] by blast
    then show "is_radix_digit radix c" using digit_char_value [of d] assms(2) by (simp add: is_radix_digit_def)
  qed
  then have w: "takeWhile (is_radix_digit radix) ?s = ?s" by simp
  have h: "hd ?s \<noteq> CHR ''-''" "hd ?s \<noteq> CHR ''+''" using c s by simp_all
  show ?thesis
    by (simp only: parseInt_def Let_def d h x w f(4) digits_value_to_radix [OF assms] simp_thms if_False)
qed

section \<open>IPv4\<close>

text \<open>Address ranges in CIDR notation: base address and prefix length.\<close>

definition in_cidr :: "nat \<Rightarrow> nat \<times> nat \<Rightarrow> nat \<Rightarrow> bool" where
  "in_cidr width r addr \<longleftrightarrow> addr div 2 ^ (width - snd r) = fst r div 2 ^ (width - snd r)"

definition quad :: "nat \<Rightarrow> nat \<Rightarrow> nat \<Rightarrow> nat \<Rightarrow> nat" where
  "quad a b c d = ((a * 256 + b) * 256 + c) * 256 + d"

definition IPV4_RANGES :: "(nat \<times> nat) list" where
  "IPV4_RANGES =
     [(quad 0 0 0 0, 8), (quad 10 0 0 0, 8), (quad 100 64 0 0, 10), (quad 127 0 0 0, 8),
      (quad 169 254 0 0, 16), (quad 172 16 0 0, 12), (quad 192 0 0 0, 16), (quad 192 88 0 0, 16),
      (quad 192 168 0 0, 16), (quad 198 18 0 0, 15), (quad 224 0 0 0, 4), (quad 240 0 0 0, 4)]"

lemma quad_div:
  assumes "c < 256" and "d < 256"
  shows "quad a b c d div 65536 = a * 256 + b"
proof -
  have "quad a b c d = (a * 256 + b) * 65536 + (c * 256 + d)" by (simp add: quad_def)
  moreover have "c * 256 + d < 65536" using assms by simp
  ultimately show ?thesis by simp
qed

lemma in_cidr_quad:
  assumes "b < 256" and "c < 256" and "d < 256"
  shows "in_cidr 32 (quad a' b' 0 0, 8) (quad a b c d) \<longleftrightarrow> a = (a' * 256 + b') div 256"
    and "len \<le> 16 \<Longrightarrow> in_cidr 32 (quad a' b' 0 0, len) (quad a b c d)
           \<longleftrightarrow> (a * 256 + b) div 2 ^ (16 - len) = (a' * 256 + b') div 2 ^ (16 - len)"
proof -
  have s: "x div 2 ^ (32 - len) = x div 65536 div 2 ^ (16 - len)" if "len \<le> 16" for x len :: nat
  proof -
    have "(2::nat) ^ (32 - len) = 2 ^ 16 * 2 ^ (16 - len)"
      using that unfolding power_add [symmetric] by simp
    then show ?thesis by (simp add: div_mult2_eq)
  qed
  show "len \<le> 16 \<Longrightarrow> in_cidr 32 (quad a' b' 0 0, len) (quad a b c d)
           \<longleftrightarrow> (a * 256 + b) div 2 ^ (16 - len) = (a' * 256 + b') div 2 ^ (16 - len)" for len
    using assms by (simp add: in_cidr_def s quad_div)
  from this [of 8] show "in_cidr 32 (quad a' b' 0 0, 8) (quad a b c d) \<longleftrightarrow> a = (a' * 256 + b') div 256"
    using assms(1) by simp
qed

lemma digits_eq:
  fixes x :: nat
  assumes "y < m" and "r < m"
  shows "x * m + y = k * m + r \<longleftrightarrow> x = k \<and> y = r"
proof
  assume e: "x * m + y = k * m + r"
  then have "(x * m + y) div m = (k * m + r) div m" by simp
  then have "x = k" using assms by simp
  with e show "x = k \<and> y = r" by simp
qed simp

lemma div_eq_range: 
  fixes n m q :: nat
  assumes "0 < m"
  shows "n div m = q \<longleftrightarrow> q * m \<le> n \<and> n < Suc q * m"
proof
  assume "n div m = q"
  then have "n = q * m + n mod m" by (metis div_mult_mod_eq)
  moreover have "n mod m < m" using assms by simp
  ultimately show "q * m \<le> n \<and> n < Suc q * m" by simp
next
  assume "q * m \<le> n \<and> n < Suc q * m"
  then show "n div m = q" by (intro div_nat_eqI) (simp_all add: mult.commute)
qed

lemma blocked_bytes_cidr:
  assumes "a < 256" and "b < 256" and "c < 256" and "d < 256"
  shows "IPV4_BLOCKED_BYTES (int a) (int b) \<longleftrightarrow> (\<exists>r \<in> set IPV4_RANGES. in_cidr 32 r (quad a b c d))"
proof -
  note q = in_cidr_quad(2) [OF assms(2-4)]
  have e8: "(a * 256 + b) div 256 = a" using assms(2) by simp
  note e16 = digits_eq [OF assms(2), of _ a]
  have s64: "(a * 256 + b) div 64 = a * 4 + b div 64"
    using div_mult_self3 [of 64 "a * 4" b] by simp
  have s16: "(a * 256 + b) div 16 = a * 16 + b div 16"
    using div_mult_self3 [of 16 "a * 16" b] by simp
  have s2: "(a * 256 + b) div 2 = a * 128 + b div 2"
    using div_mult_self3 [of 2 "a * 128" b] by simp
  have s4: "(a * 256 + b) div 4096 = a div 16"
    using div_mult2_eq [of "a * 256 + b" 256 16] e8 by simp
  have "b div 64 < 4" "b div 16 < 16" "b div 2 < 128" using assms(2) by simp_all
  note r = digits_eq [OF this(1), of 1 a 100] digits_eq [OF this(2), of 1 a 172]
    digits_eq [OF this(3), of 9 a 198]
  have t: "b div 64 = 1 \<longleftrightarrow> 64 \<le> b \<and> b \<le> 127" by (auto simp: div_eq_range)
  have t': "b div 16 = 1 \<longleftrightarrow> 16 \<le> b \<and> b \<le> 31" by (auto simp: div_eq_range)
  have t'': "b div 2 = 9 \<longleftrightarrow> b = 18 \<or> b = 19" by (auto simp: div_eq_range)
  have r4: "a div 16 = 14 \<or> a div 16 = 15 \<longleftrightarrow> 224 \<le> a" using assms(1) by (auto simp: div_eq_range)
  have left: "IPV4_BLOCKED_BYTES (int a) (int b) \<longleftrightarrow>
      a = 0 \<or> a = 10 \<or> a = 127 \<or> (a = 100 \<and> 64 \<le> b \<and> b \<le> 127) \<or> (a = 169 \<and> b = 254)
      \<or> (a = 172 \<and> 16 \<le> b \<and> b \<le> 31) \<or> (a = 192 \<and> (b = 0 \<or> b = 88 \<or> b = 168))
      \<or> (a = 198 \<and> (b = 18 \<or> b = 19)) \<or> 224 \<le> a"
    by (simp add: IPV4_BLOCKED_BYTES_def)
  have right: "(\<exists>r \<in> set IPV4_RANGES. in_cidr 32 r (quad a b c d)) \<longleftrightarrow>
      a = 0 \<or> a = 10 \<or> (a = 100 \<and> b div 64 = 1) \<or> a = 127 \<or> (a = 169 \<and> b = 254)
      \<or> (a = 172 \<and> b div 16 = 1) \<or> (a = 192 \<and> b = 0) \<or> (a = 192 \<and> b = 88) \<or> (a = 192 \<and> b = 168)
      \<or> (a = 198 \<and> b div 2 = 9) \<or> a div 16 = 14 \<or> a div 16 = 15"
    using e16 [of 254 169] e16 [of 0 192] e16 [of 88 192] e16 [of 168 192] r
    by (simp add: IPV4_RANGES_def q e8 s64 s16 s2 s4)
  show ?thesis unfolding left right t t' t'' using r4 by blast
qed

lemma trim_no_space: "\<forall>c \<in> set s. \<not> js_space c \<Longrightarrow> trim s = s"
proof -
  assume a: "\<forall>c \<in> set s. \<not> js_space c"
  have "dropWhile js_space t = t" if "\<forall>c \<in> set t. \<not> js_space c" for t
    using that by (cases t) auto
  from this [of s] this [of "rev s"] show ?thesis using a by (simp add: trim_def)
qed

lemma radix10_byte:
  assumes "n < 256"
  shows "quad_byte (to_radix 10 n) = Some (int n)"
proof -
  have t: "to_radix 10 n = [digit_char n] \<or> to_radix 10 n = [digit_char (n div 10), digit_char (n mod 10)]
      \<or> to_radix 10 n = [digit_char (n div 10 div 10), digit_char (n div 10 mod 10), digit_char (n mod 10)]"
  proof -
    consider "n < 10" | "10 \<le> n" "n div 10 < 10" | "10 \<le> n" "10 \<le> n div 10" by linarith
    then show ?thesis
    proof cases
      case 3
      moreover have "n div 10 div 10 < 10" using assms by simp
      ultimately show ?thesis by (simp add: to_radix_big to_radix_small del: div_mult2_eq)
    qed (simp_all add: to_radix_big to_radix_small)
  qed
  then have "length (to_radix 10 n) \<le> 3" by auto
  moreover have "list_all dec_digit (to_radix 10 n)"
  proof -
    have "dec_digit c" if m: "c \<in> set (to_radix 10 n)" for c
    proof -
      obtain d where "d < 10" "c = digit_char d" using to_radix_digits [OF _ _ m] by auto
      then show ?thesis by (simp add: dec_digit_def digit_char_def)
    qed
    then show ?thesis by (simp add: list_all_iff)
  qed
  moreover have "1 \<le> length (to_radix 10 n)" using to_radix_ne [of 10 n] by (cases "to_radix 10 n") auto
  ultimately show ?thesis
    using assms digits_value_to_radix [of 10 n] by (simp add: quad_byte_def Let_def)
qed

lemma dotted_digits:
  "\<exists>ps. dotted a b c d = join_on CHR ''.'' ps \<and> length ps = 4 \<and> ps = map (to_radix 10) [a, b, c, d]
    \<and> (\<forall>p \<in> set ps. digit_text p)"
  by (rule exI [of _ "map (to_radix 10) [a, b, c, d]"]) (simp add: dotted_def digit_text_radix)

lemma parse_dotted:
  assumes "a < 256" and "b < 256" and "c < 256" and "d < 256"
  shows "parseDottedQuad (dotted a b c d) = Some [int a, int b, int c, int d]"
proof -
  have "split_on CHR ''.'' (dotted a b c d) = map (to_radix 10) [a, b, c, d]"
    unfolding dotted_def using digit_text_free(2) [OF digit_text_radix [of 10]]
    by (intro split_join) auto
  then show ?thesis using assms by (simp add: parseDottedQuad_def Let_def radix10_byte)
qed

lemma blocked_dotted:
  assumes "a < 256" and "b < 256" and "c < 256" and "d < 256"
  shows "blocked_dotted_quad (dotted a b c d) \<longleftrightarrow> (\<exists>r \<in> set IPV4_RANGES. in_cidr 32 r (quad a b c d))"
  using blocked_bytes_cidr [OF assms] by (simp add: blocked_dotted_quad_def parse_dotted [OF assms])

section \<open>IPv6\<close>

definition ipv6_text :: "nat list \<Rightarrow> string" where
  "ipv6_text ps = join_on CHR '':'' (map (to_radix 16) ps)"

definition group_text :: "string \<Rightarrow> bool" where
  "group_text p \<longleftrightarrow> p \<noteq> [] \<and> CHR '':'' \<notin> set p \<and> map ascii_lower p = p
     \<and> (\<forall>c \<in> set p. \<not> js_space c \<and> c \<noteq> CHR ''['' \<and> c \<noteq> CHR '']'')"

lemma group_text_digits: "digit_text p \<Longrightarrow> group_text p"
  using digit_text_free by (simp add: group_text_def)

lemma set_join: "set (join_on c ps) \<subseteq> insert c (\<Union> (set ` set ps))"
  by (induction c ps rule: join_on.induct) auto

lemma map_join: "map f (join_on c ps) = join_on (f c) (map (map f) ps)"
  by (induction c ps rule: join_on.induct) auto

lemma group_textD:
  assumes "group_text p"
  shows "p \<noteq> []" and "CHR '':'' \<notin> set p" and "map ascii_lower p = p"
    and "c \<in> set p \<Longrightarrow> \<not> js_space c \<and> c \<noteq> CHR ''['' \<and> c \<noteq> CHR '']''"
  using assms unfolding group_text_def by blast+

lemma join_groups:
  assumes g: "\<forall>p \<in> set ps. group_text p"
  shows "map ascii_lower (join_on CHR '':'' ps) = join_on CHR '':'' ps"
    and "\<forall>c \<in> set (join_on CHR '':'' ps). \<not> js_space c \<and> c \<noteq> CHR ''['' \<and> c \<noteq> CHR '']''"
proof -
  have "map (map ascii_lower) ps = ps" by (rule map_idI) (use g group_textD(3) in blast)
  then show "map ascii_lower (join_on CHR '':'' ps) = join_on CHR '':'' ps"
    by (simp only: map_join) (simp add: ascii_lower_def)
  have "c = CHR '':'' \<or> (\<exists>p \<in> set ps. c \<in> set p)" if "c \<in> set (join_on CHR '':'' ps)" for c
    using that set_join [of "CHR '':''" ps] by blast
  moreover have "\<not> js_space CHR '':'' \<and> CHR '':'' \<noteq> CHR ''['' \<and> CHR '':'' \<noteq> CHR '']''"
    by (simp add: js_space_def)
  ultimately show "\<forall>c \<in> set (join_on CHR '':'' ps). \<not> js_space c \<and> c \<noteq> CHR ''['' \<and> c \<noteq> CHR '']''"
    using g group_textD(4) by blast
qed

lemma split_no_double:
  "(\<And>xs ys. s \<noteq> xs @ CHR '':'' # CHR '':'' # ys) \<Longrightarrow> split_double_colon s = [s]"
proof (induction s rule: split_double_colon.induct)
  case (3 c d s)
  have "\<not> (c = CHR '':'' \<and> d = CHR '':'')" using "3.prems" [of "[]" s] by auto
  moreover have "split_double_colon (d # s) = [d # s]"
  proof (rule "3.IH"(2))
    show "\<not> (c = CHR '':'' \<and> d = CHR '':'')" by fact
    show "d # s \<noteq> xs @ CHR '':'' # CHR '':'' # ys" for xs ys
      using "3.prems" [of "c # xs" ys] by simp
  qed
  ultimately show ?case by simp
qed simp_all

lemma split_double_join:
  assumes "\<forall>p \<in> set ps. group_text p" and "ps \<noteq> []"
  shows "split_double_colon (join_on CHR '':'' ps) = [join_on CHR '':'' ps]"
proof (rule split_no_double)
  fix xs ys
  show "join_on CHR '':'' ps \<noteq> xs @ CHR '':'' # CHR '':'' # ys"
  proof
    assume e: "join_on CHR '':'' ps = xs @ CHR '':'' # CHR '':'' # ys"
    have "split_on CHR '':'' (join_on CHR '':'' ps) = ps"
      using assms by (intro split_join) (auto simp: group_text_def)
    moreover have "[] \<in> set (split_on CHR '':'' (xs @ CHR '':'' # CHR '':'' # ys))"
      by (simp add: split_on_append_any)
    ultimately show False using e assms(1) by (auto simp: group_text_def)
  qed
qed

lemma colon_groups_join:
  assumes "\<forall>p \<in> set ps. group_text p" and "ps \<noteq> []"
  shows "colon_groups (join_on CHR '':'' ps) = ps"
proof -
  have "split_on CHR '':'' (join_on CHR '':'' ps) = ps"
    using assms by (intro split_join) (auto simp: group_text_def)
  moreover have "join_on CHR '':'' ps \<noteq> []"
    using assms by (cases "(CHR '':'', ps)" rule: join_on.cases) (auto simp: group_text_def)
  moreover have "filter (\<lambda>g. g \<noteq> []) ps = ps" using assms(1) by (auto simp: group_text_def filter_id_conv)
  ultimately show ?thesis by (simp add: colon_groups_def)
qed

lemma colon_in_join: "2 \<le> length ps \<Longrightarrow> c \<in> set (join_on c ps)"
  by (cases "(c, ps)" rule: join_on.cases) auto

lemma expand_full:
  assumes "length ps = 8"
  shows "expandIpv6Address (ipv6_text ps) = Some (map (\<lambda>p. Some (int p)) ps)"
proof -
  let ?ts = "map (to_radix 16) ps"
  have d: "\<forall>p \<in> set ?ts. digit_text p" by (auto intro: digit_text_radix)
  then have g: "\<forall>p \<in> set ?ts. group_text p" using group_text_digits by blast
  have ne: "?ts \<noteq> []" using assms by auto
  have "CHR ''.'' \<notin> set (last ?ts)" using d ne digit_text_free(2) by (metis last_in_set)
  moreover have "CHR '':'' \<in> set (join_on CHR '':'' ?ts)" using assms by (intro colon_in_join) simp
  ultimately show ?thesis
    using assms ne
    by (simp add: expandIpv6Address_def ipv6_text_def join_groups(1) [OF g] Let_def
        split_double_join [OF g ne] colon_groups_join [OF g ne] group_value_def parseInt_to_radix)
qed

text \<open>The bit masks.\<close>

lemma low_bits_zero: "take_bit 8 (b::int) = b \<Longrightarrow> push_bit 8 a AND b = 0"
proof (rule bit_eqI)
  fix n assume t: "take_bit 8 b = b"
  have "bit b n \<Longrightarrow> n < 8" using t by (metis bit_take_bit_iff)
  then show "bit (push_bit 8 a AND b) n = bit 0 n" by (auto simp: bit_simps)
qed

lemma octet_groups:
  assumes "a < 256" and "b < 256"
  shows "nat (push_bit 8 (int a) OR int b) = a * 256 + b"
proof -
  have "take_bit 8 (int b) = int b" using assms(2) by (simp add: take_bit_int_eq_self)
  then have "push_bit 8 (int a) OR int b = push_bit 8 (int a) + int b"
    using disjunctive_add_eq_or [OF low_bits_zero] by metis
  also have "\<dots> = int (a * 256 + b)" by (simp add: push_bit_eq_mult)
  finally show ?thesis by simp
qed

lemma mask_high:
  fixes p :: int
  assumes "0 \<le> p" and "p < 65536" and "n \<le> 16"
  shows "p AND push_bit n (mask (16 - n)) = push_bit n (drop_bit n p)"
proof (rule bit_eqI)
  fix i
  have "take_bit 16 p = p" using assms by (simp add: take_bit_int_eq_self)
  then have "bit p i \<Longrightarrow> i < 16" by (metis bit_take_bit_iff)
  then show "bit (p AND push_bit n (mask (16 - n))) i = bit (push_bit n (drop_bit n p)) i"
    using assms(3) by (auto simp: bit_simps)
qed

lemma high_mask_range:
  fixes p :: nat
  assumes "p < 65536"
  shows "(int p AND 0xfe00 = 0xfc00) \<longleftrightarrow> p div 512 = 126"
    and "(int p AND 0xffc0 = 0xfe80) \<longleftrightarrow> p div 64 = 1018"
    and "(int p AND 0xff00 = 0xff00) \<longleftrightarrow> p div 256 = 255"
proof -
  have m: "int p AND push_bit n (mask (16 - n)) = int (p div 2 ^ n * 2 ^ n)" if "n \<le> 16" for n
    using mask_high [of "int p" n] assms that by (simp add: push_bit_eq_mult drop_bit_eq_div zdiv_int)
  have "push_bit 9 (mask (16 - 9)) = (0xfe00 :: int)" "push_bit 6 (mask (16 - 6)) = (0xffc0 :: int)"
    "push_bit 8 (mask (16 - 8)) = (0xff00 :: int)" by (simp_all add: push_bit_eq_mult mask_eq_exp_minus_1)
  then have "int p AND 0xfe00 = int (p div 512 * 512)" "int p AND 0xffc0 = int (p div 64 * 64)"
    "int p AND 0xff00 = int (p div 256 * 256)" 
    using m [of 9] m [of 6] m [of 8] by simp_all
  then show "(int p AND 0xfe00 = 0xfc00) \<longleftrightarrow> p div 512 = 126"
    and "(int p AND 0xffc0 = 0xfe80) \<longleftrightarrow> p div 64 = 1018"
    and "(int p AND 0xff00 = 0xff00) \<longleftrightarrow> p div 256 = 255" by auto
qed

lemma byte_mask: "int p AND 255 = int (p mod 256)"
proof -
  have "int p AND mask 8 = take_bit 8 (int p)" by (simp only: take_bit_eq_mask)
  then show ?thesis by (simp add: mask_eq_exp_minus_1 take_bit_eq_mod zmod_int)
qed

text \<open>An address as a number, and the groups of its high and low parts.\<close>

definition addr6 :: "nat list \<Rightarrow> nat" where
  "addr6 ps = foldl (\<lambda>n p. n * 65536 + p) 0 ps"

lemma addr6_snoc [simp]: "addr6 (ps @ [p]) = addr6 ps * 65536 + p"
  by (simp add: addr6_def)

lemma addr6_Nil [simp]: "addr6 [] = 0"
  by (simp add: addr6_def)

lemma addr6_append: "addr6 (ps @ qs) = addr6 ps * 65536 ^ length qs + addr6 qs"
proof (induction qs rule: rev_induct)
  case (snoc q qs)
  then show ?case
    using addr6_snoc [of "ps @ qs" q] by (simp add: algebra_simps)
qed simp

lemma addr6_less: "\<forall>p \<in> set ps. p < 65536 \<Longrightarrow> addr6 ps < 65536 ^ length ps"
proof (induction ps rule: rev_induct)
  case (snoc p ps)
  then have "addr6 ps + 1 \<le> 65536 ^ length ps" and "p < 65536" by simp_all
  then have "(addr6 ps + 1) * 65536 \<le> 65536 ^ length ps * 65536" by (intro mult_le_mono1)
  then show ?case using \<open>p < 65536\<close> by simp
qed simp

lemma addr6_parts:
  assumes "\<forall>p \<in> set qs. p < 65536"
  shows "addr6 (ps @ qs) div 65536 ^ length qs = addr6 ps"
    and "addr6 (ps @ qs) mod 65536 ^ length qs = addr6 qs"
  using addr6_less [OF assms] by (simp_all add: addr6_append)

definition IPV6_RANGES :: "(nat \<times> nat) list" where
  "IPV6_RANGES = [(addr6 [0xfc00, 0, 0, 0, 0, 0, 0, 0], 7), (addr6 [0xfe80, 0, 0, 0, 0, 0, 0, 0], 10),
     (addr6 [0xff00, 0, 0, 0, 0, 0, 0, 0], 8)]"

text \<open>\<open>::/96\<close> and \<open>::ffff:0:0/96\<close>, which hold the IPv4 addresses.\<close>

definition IPV4_IN_IPV6 :: "(nat \<times> nat) list" where
  "IPV4_IN_IPV6 = [(addr6 [0, 0, 0, 0, 0, 0, 0, 0], 96), (addr6 [0, 0, 0, 0, 0, 0xffff, 0, 0], 96)]"

lemma cidr6_first_group:
  assumes "\<forall>p \<in> set (p0 # ps). p < 65536" and "length ps = 7" and "len \<le> 16"
  shows "in_cidr 128 (addr6 [v, 0, 0, 0, 0, 0, 0, 0], len) (addr6 (p0 # ps))
    \<longleftrightarrow> p0 div 2 ^ (16 - len) = v div 2 ^ (16 - len)"
proof -
  have s: "x div 2 ^ (128 - len) = x div 65536 ^ 7 div 2 ^ (16 - len)" for x :: nat
  proof -
    have "(2::nat) ^ (128 - len) = 2 ^ 112 * 2 ^ (16 - len)"
      using assms(3) unfolding power_add [symmetric] by simp
    also have "(2::nat) ^ 112 = 65536 ^ 7" by simp
    finally show ?thesis by (simp only: div_mult2_eq)
  qed
  have one: "addr6 [x] = x" for x by (simp add: addr6_def)
  have "addr6 (p0 # ps) div 65536 ^ 7 = p0"
    using addr6_parts(1) [of ps "[p0]"] assms(1,2) by (simp add: one)
  moreover have "addr6 [v, 0, 0, 0, 0, 0, 0, 0] div 65536 ^ 7 = v"
    using addr6_parts(1) [of "[0, 0, 0, 0, 0, 0, 0]" "[v]"] by (simp add: one)
  ultimately show ?thesis unfolding in_cidr_def by (simp only: fst_conv snd_conv s)
qed

lemma cidr6_high:
  assumes "\<forall>p \<in> set qs. p < 65536" and "length qs = 2"
  shows "in_cidr 128 (addr6 (ps' @ [0, 0]), 96) (addr6 (ps @ qs)) \<longleftrightarrow> addr6 ps = addr6 ps'"
proof -
  have "(2::nat) ^ (128 - 96) = 65536 ^ 2" by simp
  then show ?thesis
    unfolding in_cidr_def
    using addr6_parts(1) [OF assms(1), of ps] addr6_parts(1) [of "[0, 0]" ps'] assms(2)
    by (simp only: fst_conv snd_conv) simp
qed

lemma addr6_zero: "addr6 ps = 0 \<longleftrightarrow> (\<forall>p \<in> set ps. p = 0)"
  by (induction ps rule: rev_induct) auto

lemma strip_plain: "\<forall>c \<in> set s. c \<noteq> CHR ''['' \<Longrightarrow> strip_brackets s = s"
  by (cases s) (auto simp: strip_brackets_def)

lemma blocked_quad:
  assumes "a < 256" and "b < 256" and "c < 256" and "d < 256"
  shows "isBlockedIpAddress (dotted a b c d) \<longleftrightarrow> (\<exists>r \<in> set IPV4_RANGES. in_cidr 32 r (quad a b c d))"
proof -
  obtain ps where ps: "dotted a b c d = join_on CHR ''.'' ps" "length ps = 4" "\<forall>p \<in> set ps. digit_text p"
    using dotted_digits by blast
  let ?s = "join_on CHR ''.'' ps"
  note f = digit_text_free
  have "map (map ascii_lower) ps = ps" by (rule map_idI) (use ps(3) f(3) in blast)
  then have l: "map ascii_lower ?s = ?s" by (simp only: map_join) (simp add: ascii_lower_def)
  have "c = CHR ''.'' \<or> (\<exists>p \<in> set ps. c \<in> set p)" if "c \<in> set ?s" for c
    using that set_join [of "CHR ''.''" ps] by blast
  moreover have "\<not> js_space CHR ''.'' \<and> CHR ''.'' \<noteq> CHR ''['' \<and> CHR ''.'' \<noteq> CHR '':''"
    by (simp add: js_space_def)
  ultimately have c: "\<forall>c \<in> set ?s. \<not> js_space c \<and> c \<noteq> CHR ''['' \<and> c \<noteq> CHR '':''"
    using ps(3) f(1,5) by blast
  have ne: "?s \<noteq> []" using ps(2) by (cases "(CHR ''.'', ps)" rule: join_on.cases) auto
  have n: "strip_brackets (map ascii_lower (trim ?s)) = ?s"
    using c by (simp add: trim_no_space strip_plain l)
  have nc: "CHR '':'' \<notin> set ?s" using c by blast
  show ?thesis
    unfolding isBlockedIpAddress_def Let_def ps(1) n
    using ne nc blocked_dotted [OF assms] by (simp add: ps(1))
qed

lemma groups_in_range:
  "\<forall>p \<in> set ps. p < 65536 \<Longrightarrow>
     \<not> list_ex (\<lambda>part. case part of None \<Rightarrow> True | Some n \<Rightarrow> n < 0 \<or> 0xffff < n) (map (\<lambda>p. Some (int p)) ps)"
  by (induction ps) auto

lemma ipv6_text_norm:
  assumes "length ps = 8"
  shows "strip_brackets (map ascii_lower (trim (ipv6_text ps))) = ipv6_text ps"
    and "CHR '':'' \<in> set (ipv6_text ps)" and "ipv6_text ps \<noteq> []"
proof -
  have g: "\<forall>p \<in> set (map (to_radix 16) ps). group_text p"
    by (simp add: group_text_digits digit_text_radix)
  note j = join_groups [OF g, folded ipv6_text_def]
  show "strip_brackets (map ascii_lower (trim (ipv6_text ps))) = ipv6_text ps"
    using j(2) by (simp add: trim_no_space strip_plain j(1))
  show "CHR '':'' \<in> set (ipv6_text ps)"
    unfolding ipv6_text_def using assms by (intro colon_in_join) simp
  then show "ipv6_text ps \<noteq> []" by auto
qed

definition ipv4_mapped :: "nat list \<Rightarrow> bool" where
  "ipv4_mapped ps \<longleftrightarrow> (\<forall>p \<in> set (take 5 ps). p = 0) \<and> ps ! 5 = 0xffff"

definition ipv4_compatible :: "nat list \<Rightarrow> bool" where
  "ipv4_compatible ps \<longleftrightarrow> (\<forall>p \<in> set (take 6 ps). p = 0)"

definition high_blocked :: "nat \<Rightarrow> bool" where
  "high_blocked p \<longleftrightarrow> (int p AND 0xfe00 = 0xfc00) \<or> (int p AND 0xffc0 = 0xfe80) \<or> (int p AND 0xff00 = 0xff00)"

lemma zero_groups: "list_all (\<lambda>p. p = 0) (take k (map int ps)) \<longleftrightarrow> (\<forall>p \<in> set (take k ps). p = 0)"
  by (simp add: list_all_iff take_map)

lemma blocked_ipv6_code:
  assumes l: "length ps = 8" and r: "\<forall>p \<in> set ps. p < 65536"
  shows "isBlockedIpAddress (ipv6_text ps) \<longleftrightarrow>
     (if ipv4_mapped ps \<or> ipv4_compatible ps
      then blocked_dotted_quad (embedded_ipv4 (int (ps ! 6)) (int (ps ! 7)))
      else high_blocked (ps ! 0))"
proof -
  have parts: "map the (map (\<lambda>p. Some (int p)) ps) = map int ps" by simp
  have nth: "map int ps ! i = int (ps ! i)" if "i < 8" for i using l that by simp
  have z: "list_all (\<lambda>p. p = 0) (map int ps) \<longleftrightarrow> (\<forall>p \<in> set ps. p = 0)"
    by (simp add: list_all_iff)
  have sub: "set (take 6 ps) \<subseteq> set ps" "set (take 6 ps) \<subseteq> set (take 7 ps)"
    by (rule set_take_subset, rule set_take_subset_set_take) simp
  have "isBlockedIpAddress (ipv6_text ps) \<longleftrightarrow>
     (if ipv4_mapped ps \<or> ipv4_compatible ps
      then blocked_dotted_quad (embedded_ipv4 (int (ps ! 6)) (int (ps ! 7)))
      else (\<forall>p \<in> set ps. p = 0) \<or> ((\<forall>p \<in> set (take 7 ps). p = 0) \<and> int (ps ! 7) = 1) \<or> high_blocked (ps ! 0))"
    unfolding isBlockedIpAddress_def Let_def ipv6_text_norm(1) [OF l] expand_full [OF l] option.case
      parts z zero_groups high_blocked_def ipv4_mapped_def ipv4_compatible_def
    using ipv6_text_norm(2,3) [OF l] groups_in_range [OF r] nth [of 0] nth [of 5] nth [of 6] nth [of 7]
    by auto
  moreover have "ipv4_compatible ps"
    if "(\<forall>p \<in> set ps. p = 0) \<or> (\<forall>p \<in> set (take 7 ps). p = 0)"
    using that sub unfolding ipv4_compatible_def by blast
  ultimately show ?thesis by auto
qed

lemma high_blocked_cidr:
  assumes "length ps = 8" and "\<forall>p \<in> set ps. p < 65536"
  shows "high_blocked (ps ! 0) \<longleftrightarrow> (\<exists>r \<in> set IPV6_RANGES. in_cidr 128 r (addr6 ps))"
proof -
  obtain p0 qs where ps: "ps = p0 # qs" "length qs = 7" using assms(1) by (cases ps) auto
  have p0: "p0 < 65536" using assms(2) ps(1) by simp
  note c = cidr6_first_group [OF assms(2) [unfolded ps(1)] ps(2)]
  show ?thesis
    unfolding high_blocked_def ps(1) nth_Cons_0 high_mask_range [OF p0] IPV6_RANGES_def
    by (simp add: c)
qed

lemma take6_snoc: "length ps = 8 \<Longrightarrow> take 6 ps = take 5 ps @ [ps ! 5]"
  using take_Suc_conv_app_nth [of 5 ps] by simp

lemma embedded_cidr:
  assumes l: "length ps = 8" and r: "\<forall>p \<in> set ps. p < 65536"
  shows "ipv4_mapped ps \<or> ipv4_compatible ps \<longleftrightarrow> (\<exists>r \<in> set IPV4_IN_IPV6. in_cidr 128 r (addr6 ps))"
proof -
  have d: "length (drop 6 ps) = 2" "\<forall>p \<in> set (drop 6 ps). p < 65536"
    using l r by (auto dest: in_set_dropD)
  have p5: "ps ! 5 < 65536" using l r by simp
  have c: "in_cidr 128 (addr6 (qs @ [0, 0]), 96) (addr6 ps) \<longleftrightarrow> addr6 (take 6 ps) = addr6 qs" for qs
    using cidr6_high [OF d(2,1), of qs "take 6 ps"] by simp
  have six: "addr6 (take 6 ps) = addr6 (take 5 ps) * 65536 + ps ! 5"
    by (simp add: take6_snoc [OF l])
  have "addr6 [0, 0, 0, 0, 0, 0xffff] = 0xffff" "addr6 [0, 0, 0, 0, 0, 0] = 0" by (simp_all add: addr6_def)
  then have "(\<exists>r \<in> set IPV4_IN_IPV6. in_cidr 128 r (addr6 ps))
      \<longleftrightarrow> addr6 (take 6 ps) = 0 \<or> addr6 (take 6 ps) = 0xffff"
    using c [of "[0, 0, 0, 0, 0, 0]"] c [of "[0, 0, 0, 0, 0, 0xffff]"]
    by (simp add: IPV4_IN_IPV6_def)
  moreover have "addr6 (take 6 ps) = 0xffff \<longleftrightarrow> addr6 (take 5 ps) = 0 \<and> ps ! 5 = 0xffff"
    using digits_eq [OF p5, where r = 65535 and x = "addr6 (take 5 ps)" and k = 0] by (simp add: six)
  ultimately show ?thesis
    by (auto simp: ipv4_mapped_def ipv4_compatible_def addr6_zero)
qed

lemma embedded_blocked:
  assumes l: "length ps = 8" and r: "\<forall>p \<in> set ps. p < 65536"
  shows "blocked_dotted_quad (embedded_ipv4 (int (ps ! 6)) (int (ps ! 7)))
    \<longleftrightarrow> (\<exists>r \<in> set IPV4_RANGES. in_cidr 32 r (addr6 ps mod 2 ^ 32))"
proof -
  let ?p = "ps ! 6" and ?q = "ps ! 7"
  have lt: "?p < 65536" "?q < 65536" using l r by simp_all
  have hi: "drop_bit 8 (int x) AND 255 = int (x div 256)" if "x < 65536" for x
    using that byte_mask [of "x div 256"] by (simp add: drop_bit_eq_div zdiv_int)
  have e: "embedded_ipv4 (int ?p) (int ?q) = dotted (?p div 256) (?p mod 256) (?q div 256) (?q mod 256)"
    unfolding embedded_ipv4_def hi [OF lt(1)] hi [OF lt(2)] byte_mask nat_int ..
  have two: "drop 6 ps = [?p, ?q]"
    using l Cons_nth_drop_Suc [of 6 ps] Cons_nth_drop_Suc [of 7 ps] by simp
  have "addr6 ps mod 65536 ^ 2 = addr6 [?p, ?q]"
    using addr6_parts(2) [of "[?p, ?q]" "take 6 ps"] lt append_take_drop_id [of 6 ps] two
    by (simp only: list.size) simp
  also have "\<dots> = quad (?p div 256) (?p mod 256) (?q div 256) (?q mod 256)"
    by (simp add: addr6_def quad_def)
  finally have "addr6 ps mod 2 ^ 32 = quad (?p div 256) (?p mod 256) (?q div 256) (?q mod 256)" by simp
  then show ?thesis
    unfolding e using lt by (subst blocked_dotted) simp_all
qed

lemma blocked_ipv6:
  assumes "length ps = 8" and "\<forall>p \<in> set ps. p < 65536"
  shows "isBlockedIpAddress (ipv6_text ps) \<longleftrightarrow>
         (\<exists>r \<in> set IPV6_RANGES. in_cidr 128 r (addr6 ps))
         \<or> ((\<exists>r \<in> set IPV4_IN_IPV6. in_cidr 128 r (addr6 ps))
            \<and> (\<exists>r \<in> set IPV4_RANGES. in_cidr 32 r (addr6 ps mod 2 ^ 32)))"
proof -
  have "\<not> high_blocked (ps ! 0)" if "ipv4_mapped ps \<or> ipv4_compatible ps"
  proof -
    have "ps ! 0 \<in> set (take 5 ps)" "ps ! 0 \<in> set (take 6 ps)"
      using assms(1) nth_mem [of 0 "take 5 ps"] nth_mem [of 0 "take 6 ps"] by simp_all
    then have "ps ! 0 = 0" using that by (auto simp: ipv4_mapped_def ipv4_compatible_def)
    then show ?thesis by (simp add: high_blocked_def)
  qed
  then show ?thesis
    unfolding blocked_ipv6_code [OF assms] high_blocked_cidr [OF assms, symmetric]
      embedded_cidr [OF assms, symmetric] embedded_blocked [OF assms, symmetric]
    by auto
qed



end
