(* ===== verification/Outbound_Url.thy ===== *)
theory Outbound_Url
  imports Errors Ip_Blocklist
begin

text \<open>
  \<^verbatim>\<open>src/lib/security/webhook-url.ts\<close>, \<^verbatim>\<open>src/lib/security/pinned-fetch.ts\<close>,
  \<^verbatim>\<open>src/lib/storage/direct-access-url.ts\<close>: the URLs the server itself contacts.

  The WHATWG URL parser and serialiser are the parameters \<open>parse\<close> and \<open>show\<close>; a URL is the
  record of its components.  A DNS lookup is a function from host names to answers (\<open>None\<close>
  when it fails), one for each time the code asks, since the answers may differ.
\<close>

section \<open>net.isIP\<close>

definition v4_segment :: "string \<Rightarrow> bool" where
  "v4_segment s \<longleftrightarrow> quad_byte s \<noteq> None \<and> (length s = 1 \<or> hd s \<noteq> CHR ''0'')"

definition isIPv4 :: "string \<Rightarrow> bool" where
  "isIPv4 s = (let ps = split_on CHR ''.'' s in length ps = 4 \<and> list_all v4_segment ps)"

definition hex_segment :: "string \<Rightarrow> bool" where
  "hex_segment s \<longleftrightarrow> 1 \<le> length s \<and> length s \<le> 4 \<and> list_all (is_radix_digit 16) s"

text \<open>The number of 16-bit groups a list of parts stands for; an IPv4 address may come last.\<close>

fun v6_units :: "bool \<Rightarrow> string list \<Rightarrow> nat option" where
  "v6_units v4Last [] = Some 0"
| "v6_units v4Last (p # ps) =
     (if hex_segment p then map_option Suc (v6_units v4Last ps)
      else if v4Last \<and> ps = [] \<and> isIPv4 p then Some 2 else None)"

definition v6_side :: "bool \<Rightarrow> string \<Rightarrow> nat option" where
  "v6_side v4Last s = (if s = [] then Some 0 else v6_units v4Last (split_on CHR '':'' s))"

definition zone_char :: "char \<Rightarrow> bool" where
  "zone_char c \<longleftrightarrow> dec_digit c \<or> c \<in> {CHR ''-'', CHR ''.'', CHR '':''}
     \<or> (let n = (of_char (ascii_lower c) :: nat) in 97 \<le> n \<and> n \<le> 122)"

definition isIPv6 :: "string \<Rightarrow> bool" where
  "isIPv6 s =
     (let body = takeWhile (\<lambda>c. c \<noteq> CHR ''%'') s; zone = dropWhile (\<lambda>c. c \<noteq> CHR ''%'') s in
      (zone = [] \<or> (tl zone \<noteq> [] \<and> list_all zone_char (tl zone)))
      \<and> (case split_double_colon body of
           [b] \<Rightarrow> b \<noteq> [] \<and> v6_units True (split_on CHR '':'' b) = Some 8
         | [h, t] \<Rightarrow> (case (v6_side False h, v6_side True t) of
                       (Some m, Some n) \<Rightarrow> m + n \<le> 7 | _ \<Rightarrow> False)
         | _ \<Rightarrow> False))"

definition isIP :: "string \<Rightarrow> bool" where
  "isIP s \<longleftrightarrow> isIPv4 s \<or> isIPv6 s"

section \<open>URLs and lookups\<close>

record url =
  uProtocol :: string
  uUsername :: string
  uPassword :: string
  uHostname :: string
  uPort :: string
  uPath :: string
  uSearch :: string
  uHash :: string

type_synonym url_parser = "string \<Rightarrow> url option"
type_synonym url_printer = "url \<Rightarrow> string"
type_synonym dns = "string \<Rightarrow> string list option"

abbreviation lower :: "string \<Rightarrow> string" where "lower s \<equiv> map ascii_lower s"

text \<open>\<open>{ ok: false, error }\<close>, an \<open>ok\<close> result, or an exception.\<close>

datatype 'a outcome = Refused string | Accepted 'a | Thrown

section \<open>webhook-url.ts\<close>

definition BLOCKED_HOSTS :: "string list" where
  "BLOCKED_HOSTS = [''localhost'', ''localhost.localdomain'']"

definition local_message :: string where
  "local_message = ''Webhook URL must not point to local or intranet addresses''"

definition validateWebhookUrlSyntax :: "url_parser \<Rightarrow> url_printer \<Rightarrow> string \<Rightarrow> string outcome" where
  "validateWebhookUrlSyntax parse show value =
     (case parse value of
        None \<Rightarrow> Refused ''Webhook URL format is invalid''
      | Some url \<Rightarrow>
          if uProtocol url \<noteq> ''https:'' then Refused ''Webhook URL must use https://''
          else if uUsername url \<noteq> [] \<or> uPassword url \<noteq> []
          then Refused ''Webhook URL must not contain username or password''
          else
            let hostname = strip_brackets (lower (uHostname url)) in
            if hostname \<in> set BLOCKED_HOSTS \<or> endsWith hostname ''.localhost'' then Refused local_message
            else if isIP hostname \<and> isBlockedIpAddress hostname then Refused local_message
            else if endsWith hostname ''.internal'' \<or> endsWith hostname ''.local'' \<or> endsWith hostname ''.lan''
            then Refused ''Webhook URL must not point to internal domains''
            else Accepted (show url))"

definition dns_message :: string where
  "dns_message = ''Webhook URL DNS resolved to a local or intranet address''"

definition assertWebhookUrlSafeForServerFetch ::
  "url_parser \<Rightarrow> url_printer \<Rightarrow> dns \<Rightarrow> string \<Rightarrow> string outcome" where
  "assertWebhookUrlSafeForServerFetch parse show dns value =
     (case validateWebhookUrlSyntax parse show value of
        Refused e \<Rightarrow> Refused e
      | Thrown \<Rightarrow> Thrown
      | Accepted href \<Rightarrow>
          (case parse href of
             None \<Rightarrow> Thrown
           | Some url \<Rightarrow>
               (case dns (uHostname url) of
                  None \<Rightarrow> Refused ''Webhook URL DNS resolution failed''
                | Some addresses \<Rightarrow>
                    if addresses = [] \<or> list_ex isBlockedIpAddress addresses then Refused dns_message
                    else Accepted href)))"

text \<open>
  What the request may connect to: \<open>pinned_lookup host addr asked\<close> is the address handed to the
  socket when the transport asks for \<open>asked\<close>; \<open>None\<close> fails the connection.
\<close>

record pinned =
  pnHref :: string
  pnHost :: string
  pnAddress :: string

definition pinned_lookup :: "pinned \<Rightarrow> string \<Rightarrow> string option" where
  "pinned_lookup p asked = (if asked \<noteq> pnHost p then None else Some (pnAddress p))"

text \<open>The request of \<open>fetchWebhookSafely\<close>, up to the point where it is sent.\<close>

definition fetchWebhookSafely ::
  "url_parser \<Rightarrow> url_printer \<Rightarrow> dns \<Rightarrow> dns \<Rightarrow> string \<Rightarrow> pinned outcome" where
  "fetchWebhookSafely parse show dns1 dns2 value =
     (case assertWebhookUrlSafeForServerFetch parse show dns1 value of
        Refused e \<Rightarrow> Refused e
      | Thrown \<Rightarrow> Thrown
      | Accepted href \<Rightarrow>
          (case parse href of
             None \<Rightarrow> Thrown
           | Some url \<Rightarrow>
               (case dns2 (uHostname url) of
                  None \<Rightarrow> Thrown
                | Some addresses \<Rightarrow>
                    if addresses = [] \<or> list_ex isBlockedIpAddress addresses then Refused dns_message
                    else Accepted \<lparr>pnHref = href, pnHost = uHostname url, pnAddress = hd addresses\<rparr>)))"

definition WEBHOOK_RESPONSE_MAX_BYTES :: nat where
  "WEBHOOK_RESPONSE_MAX_BYTES = 256 * 1024"

text \<open>
  The read loop of \<open>detachWebhookResponse\<close> over the chunks that arrive before the body ends or
  fails.
\<close>

fun read_body :: "nat \<Rightarrow> 'b list list \<Rightarrow> 'b list" where
  "read_body got [] = []"
| "read_body got (value # rest) =
     (if got < WEBHOOK_RESPONSE_MAX_BYTES
      then (let remaining = WEBHOOK_RESPONSE_MAX_BYTES - got;
                slice = (if remaining < length value then take remaining value else value)
            in slice @ read_body (got + length slice) rest)
      else [])"

definition detachWebhookResponse :: "'b list list option \<Rightarrow> 'b list" where
  "detachWebhookResponse body = (case body of None \<Rightarrow> [] | Some chunks \<Rightarrow> read_body 0 chunks)"

section \<open>direct-access-url.ts\<close>

text \<open>\<open>replace(/^\[|\]$/g, "")\<close>\<close>

definition strip_edge_brackets :: "string \<Rightarrow> string" where
  "strip_edge_brackets s =
     (let a = (if s \<noteq> [] \<and> hd s = CHR ''['' then tl s else s)
      in if a \<noteq> [] \<and> last a = CHR '']'' then butlast a else a)"

definition isUnsafePublicHttpHost :: "string \<Rightarrow> bool" where
  "isUnsafePublicHttpHost hostname =
     (let normalized = trim (strip_edge_brackets (lower hostname)) in
      if normalized = [] then True
      else if normalized = ''localhost'' \<or> endsWith normalized ''.localhost''
              \<or> normalized = ''0.0.0.0'' \<or> normalized = ''metadata.google.internal'' then True
      else isBlockedIpAddress normalized)"

definition public_url :: "url \<Rightarrow> bool" where
  "public_url url \<longleftrightarrow> (uProtocol url = ''https:'' \<or> uProtocol url = ''http:'')
     \<and> uUsername url = [] \<and> uPassword url = [] \<and> \<not> isUnsafePublicHttpHost (uHostname url)"

definition normalizePublicHttpUrl :: "url_parser \<Rightarrow> url_printer \<Rightarrow> string option \<Rightarrow> string \<Rightarrow> string result" where
  "normalizePublicHttpUrl parse show value message =
     (let raw = (case value of None \<Rightarrow> [] | Some v \<Rightarrow> trim v) in
      if raw = [] then Inl (ValidationError ''backend.storage.urlRequired'')
      else case parse raw of
        None \<Rightarrow> Inl (ValidationError ''backend.storage.invalidUrlFormat'')
      | Some url \<Rightarrow>
          if \<not> public_url url then Inl (ValidationError message)
          else Inr (show (url\<lparr>uHash := []\<rparr>)))"

definition direct_message :: string where
  "direct_message = ''Direct access base URL must use a public HTTP(S) address and must not contain credentials, localhost, intranet, loopback, or link-local addresses''"

definition strip_final_slash :: "string \<Rightarrow> string" where
  "strip_final_slash s = (if s \<noteq> [] \<and> last s = CHR ''/'' then butlast s else s)"

definition normalizePublicBaseUrl :: "url_parser \<Rightarrow> url_printer \<Rightarrow> string option \<Rightarrow> string option result" where
  "normalizePublicBaseUrl parse show value =
     (let raw = (case value of None \<Rightarrow> [] | Some v \<Rightarrow> trim v) in
      if raw = [] then Inr None
      else case parse raw of
        None \<Rightarrow> Inl (ValidationError ''backend.storage.invalidDirectAccessBaseUrl'')
      | Some url \<Rightarrow>
          if \<not> public_url url then Inl (ValidationError direct_message)
          else Inr (Some (strip_final_slash (show (url\<lparr>uHash := [], uSearch := []\<rparr>)))))"

definition assertPublicBaseUrlResolvesPublic ::
  "url_parser \<Rightarrow> url_printer \<Rightarrow> dns \<Rightarrow> string \<Rightarrow> string result option" where
  "assertPublicBaseUrlResolvesPublic parse show dns value =
     (case normalizePublicBaseUrl parse show (Some value) of
        Inl e \<Rightarrow> Some (Inl e)
      | Inr normalized \<Rightarrow>
          if \<not> truthy normalized then Some (Inl (ValidationError direct_message))
          else (case parse (the normalized) of
                  None \<Rightarrow> None
                | Some url \<Rightarrow>
                    (case dns (uHostname url) of
                       None \<Rightarrow> Some (Inl (ValidationError ''backend.storage.directAccessDnsFailed''))
                     | Some addresses \<Rightarrow>
                         if addresses = [] \<or> list_ex isUnsafePublicHttpHost addresses
                         then Some (Inl (ValidationError direct_message))
                         else Some (Inr (the normalized)))))"

section \<open>pinned-fetch.ts\<close>

text \<open>The addresses the connection is pinned to; \<open>None\<close> when the call throws before connecting.\<close>

definition fetchWithPinnedDns :: "url_parser \<Rightarrow> dns \<Rightarrow> string \<Rightarrow> (string \<times> string list) option" where
  "fetchWithPinnedDns parse dns rawUrl =
     (case parse rawUrl of
        None \<Rightarrow> None
      | Some url \<Rightarrow>
          let hostname = strip_edge_brackets (uHostname url) in
          case (if isIP hostname then Some [hostname] else dns hostname) of
            None \<Rightarrow> None
          | Some addresses \<Rightarrow>
              if addresses = [] \<or> list_ex (\<lambda>a. isBlockedIpAddress a \<or> isUnsafePublicHttpHost a) addresses
              then None else Some (hostname, addresses))"

definition pinned_addresses :: "string \<times> string list \<Rightarrow> bool \<Rightarrow> string \<Rightarrow> string list" where
  "pinned_addresses pin all name =
     (if name \<noteq> fst pin then [] else if all then snd pin else [hd (snd pin)])"

section \<open>Properties\<close>

lemma read_body_take:
  "read_body got chunks = take (WEBHOOK_RESPONSE_MAX_BYTES - got) (concat chunks)"
proof (induction got chunks rule: read_body.induct)
  case (2 got v rest)
  show ?case
  proof (cases "got < WEBHOOK_RESPONSE_MAX_BYTES")
    case True
    then show ?thesis
      using 2 by (cases "WEBHOOK_RESPONSE_MAX_BYTES - got < length v") (auto simp: Let_def)
  qed simp
qed simp

text \<open>
  A webhook response is buffered exactly up to the budget: what is kept is the first
  256 KiB of the body, however it is cut into chunks - a single oversized chunk included.
\<close>

theorem webhook_body_bounded:
  "detachWebhookResponse (Some chunks) = take (256 * 1024) (concat chunks)"
  by (simp add: detachWebhookResponse_def read_body_take WEBHOOK_RESPONSE_MAX_BYTES_def)

lemma webhook_pinned:
  assumes "fetchWebhookSafely parse show dns1 dns2 value = Accepted p"
  shows "(\<exists>url. parse value = Some url \<and> uProtocol url = ''https:'' \<and> uUsername url = [] \<and> uPassword url = []
        \<and> pnHref p = show url)
      \<and> (\<forall>asked addr. pinned_lookup p asked = Some addr \<longrightarrow>
           \<not> isBlockedIpAddress addr \<and> asked = pnHost p \<and> (\<exists>as. dns2 asked = Some as \<and> addr \<in> set as))"
  using assms
  by (auto simp: fetchWebhookSafely_def assertWebhookUrlSafeForServerFetch_def validateWebhookUrlSyntax_def
      pinned_lookup_def Let_def list_ex_iff split: option.splits outcome.splits if_splits)

lemma pinned_fetch_admitted:
  assumes "fetchWithPinnedDns parse dns raw = Some pin" and "addr \<in> set (pinned_addresses pin all name)"
  shows "\<not> isBlockedIpAddress addr \<and> \<not> isUnsafePublicHttpHost addr"
  using assms
  by (auto simp: fetchWithPinnedDns_def pinned_addresses_def Let_def list_ex_iff
      split: option.splits if_splits)

text \<open>
  C33. The server's own requests cannot be turned inwards by DNS.  Whatever each lookup answers,
  a webhook request goes out only over https and without credentials, and the only address the
  socket can get, for any host the transport asks about, is one the last lookup gave and the
  policy admits; a pinned fetch likewise connects to admitted addresses only.
\<close>

theorem no_dns_rebinding:
  "(\<forall>p. fetchWebhookSafely parse show dns1 dns2 value = Accepted p \<longrightarrow>
      (\<exists>url. parse value = Some url \<and> uProtocol url = ''https:'' \<and> uUsername url = [] \<and> uPassword url = []
        \<and> pnHref p = show url)
      \<and> (\<forall>asked addr. pinned_lookup p asked = Some addr \<longrightarrow>
           \<not> isBlockedIpAddress addr \<and> asked = pnHost p \<and> (\<exists>as. dns2 asked = Some as \<and> addr \<in> set as)))
   \<and> (\<forall>pin all name. \<forall>addr \<in> set (pinned_addresses pin all name).
        fetchWithPinnedDns parse dns2 value = Some pin \<longrightarrow>
        \<not> isBlockedIpAddress addr \<and> \<not> isUnsafePublicHttpHost addr)"
  by (rule conjI, intro allI impI, erule webhook_pinned)
    (intro allI ballI impI, erule pinned_fetch_admitted)

text \<open>A public host whose second lookup is answered with a loopback address.\<close>

definition sample_url :: url where
  "sample_url = \<lparr>uProtocol = ''https:'', uUsername = [], uPassword = [], uHostname = ''a.io'', uPort = [],
     uPath = ''/'', uSearch = [], uHash = []\<rparr>"

definition sample_parse :: url_parser where
  "sample_parse s = (if s = ''https://a.io/'' then Some sample_url else None)"

definition sample_show :: url_printer where
  "sample_show u = ''https://a.io/''"

lemma sample_public: "\<not> isBlockedIpAddress (dotted 8 8 8 8)" "isBlockedIpAddress (dotted 127 0 0 1)"
  using blocked_quad [of 8 8 8 8] blocked_quad [of 127 0 0 1]
  by (simp_all add: IPV4_RANGES_def in_cidr_def quad_def)

lemma sample_webhook:
  "fetchWebhookSafely sample_parse sample_show (\<lambda>_. Some [dotted 8 8 8 8]) (\<lambda>_. Some [a]) ''https://a.io/''
   = (if isBlockedIpAddress a then Refused dns_message
      else Accepted \<lparr>pnHref = ''https://a.io/'', pnHost = ''a.io'', pnAddress = a\<rparr>)"
proof -
  have n: "\<not> isIP ''a.io''" by code_simp
  show ?thesis
    using n sample_public(1)
    by (simp add: fetchWebhookSafely_def assertWebhookUrlSafeForServerFetch_def validateWebhookUrlSyntax_def
        sample_parse_def sample_show_def sample_url_def BLOCKED_HOSTS_def endsWith_def strip_brackets_def
        ascii_lower_def)
qed

theorem no_dns_rebinding_witness:
  "fetchWebhookSafely sample_parse sample_show (\<lambda>_. Some [dotted 8 8 8 8])
      (\<lambda>_. Some [dotted 127 0 0 1]) ''https://a.io/'' = Refused dns_message
   \<and> (\<exists>p. fetchWebhookSafely sample_parse sample_show (\<lambda>_. Some [dotted 8 8 8 8])
      (\<lambda>_. Some [dotted 8 8 8 8]) ''https://a.io/'' = Accepted p
      \<and> pinned_lookup p ''a.io'' = Some (dotted 8 8 8 8) \<and> \<not> isBlockedIpAddress (dotted 8 8 8 8))"
proof -
  let ?p = "\<lparr>pnHref = ''https://a.io/'', pnHost = ''a.io'', pnAddress = dotted 8 8 8 8\<rparr>"
  have f: "fetchWebhookSafely sample_parse sample_show (\<lambda>_. Some [dotted 8 8 8 8])
      (\<lambda>_. Some [dotted 8 8 8 8]) ''https://a.io/'' = Accepted ?p"
    using sample_public(1) by (simp only: sample_webhook if_False)
  have l: "pinned_lookup ?p ''a.io'' = Some (dotted 8 8 8 8)" by (simp add: pinned_lookup_def)
  have "\<not> isBlockedIpAddress (dotted 8 8 8 8)"
    using conjunct1 [OF no_dns_rebinding, rule_format, OF f] l by blast
  moreover have "fetchWebhookSafely sample_parse sample_show (\<lambda>_. Some [dotted 8 8 8 8])
      (\<lambda>_. Some [dotted 127 0 0 1]) ''https://a.io/'' = Refused dns_message"
    using sample_public(2) by (simp only: sample_webhook if_True)
  ultimately show ?thesis using f l by blast
qed

end
