(* ===== verification/Download_Source.thy ===== *)
theory Download_Source
  imports Outbound_Url
begin

text \<open>
  \<^verbatim>\<open>src/lib/downloads/source-url.ts\<close> and \<^verbatim>\<open>src/lib/downloads/redirect-chain.ts\<close>: which links
  the server downloads, and where a chain of redirects may lead.

  \<open>parse\<close> and \<open>show\<close> are the URL parser and serialiser, \<open>decode\<close> is \<open>decodeURIComponent\<close>
  (\<open>None\<close> when it throws), and \<open>resolve location base\<close> is \<open>new URL(location, base).toString()\<close>.
  Lookups and probes are asked once per hop and may answer differently each time.
\<close>

section \<open>source-url.ts\<close>

definition DEFAULT_BLOCKED_HOSTNAME_SUFFIXES :: "string list" where
  "DEFAULT_BLOCKED_HOSTNAME_SUFFIXES =
     [''.local'', ''.localhost'', ''.internal'', ''.lan'', ''.home'', ''.test'', ''.invalid'']"

definition MAGNET_TRACKER_PROTOCOLS :: "string list" where
  "MAGNET_TRACKER_PROTOCOLS = [''http:'', ''https:'', ''udp:'', ''ws:'', ''wss:'']"

definition hostnameMatchesBlockedSuffix :: "string \<Rightarrow> string list \<Rightarrow> bool" where
  "hostnameMatchesBlockedSuffix hostname blocked =
     list_ex (\<lambda>suffix.
       let normalized = (if startsWith (lower suffix) ''.'' then lower suffix else CHR ''.'' # lower suffix)
       in lower hostname = drop 1 normalized \<or> endsWith (lower hostname) normalized) blocked"

definition trackerAllowed :: "url_parser \<Rightarrow> string \<Rightarrow> string list \<Rightarrow> bool" where
  "trackerAllowed parse value blockedSuffixes =
     (case parse value of
        None \<Rightarrow> False
      | Some tracker \<Rightarrow>
          if uProtocol tracker \<notin> set MAGNET_TRACKER_PROTOCOLS
             \<or> uUsername tracker \<noteq> [] \<or> uPassword tracker \<noteq> [] then False
          else
            let hostname = lower (uHostname tracker) in
            if hostname = [] \<or> hostnameMatchesBlockedSuffix hostname blockedSuffixes then False
            else let ipLiteral = strip_brackets hostname
                 in \<not> (isIP ipLiteral \<and> isBlockedIpAddress ipLiteral))"

definition plus_to_space :: "string \<Rightarrow> string" where
  "plus_to_space s = concat (map (\<lambda>c. if c = CHR ''+'' then ''%20'' else [c]) s)"

text \<open>Whether a \<open>key=value\<close> segment of the query is kept.\<close>

definition keep_segment ::
  "url_parser \<Rightarrow> (string \<Rightarrow> string option) \<Rightarrow> string list \<Rightarrow> string \<Rightarrow> bool" where
  "keep_segment parse decode blockedSuffixes segment =
     (let parts = split_on CHR ''='' segment;
          key = hd (split_on CHR ''.'' (hd parts))
      in if key \<noteq> ''tr'' then True
         else case decode (plus_to_space (join_on CHR ''='' (tl parts))) of
           None \<Rightarrow> False
         | Some decoded \<Rightarrow> trackerAllowed parse decoded blockedSuffixes)"

definition magnet_prefix :: string where
  "magnet_prefix = ''magnet:?''"

definition sanitizeMagnetLink ::
  "url_parser \<Rightarrow> (string \<Rightarrow> string option) \<Rightarrow> string list \<Rightarrow> string \<Rightarrow> string \<times> nat" where
  "sanitizeMagnetLink parse decode blockedSuffixes value =
     (let segments = split_on CHR ''&'' (drop (length magnet_prefix) value);
          kept = filter (keep_segment parse decode blockedSuffixes) segments
      in (magnet_prefix @ join_on CHR ''&'' kept, length segments - length kept))"

definition isMagnetLink :: "string \<Rightarrow> bool" where
  "isMagnetLink url = startsWith url magnet_prefix"

datatype source_syntax = SourceRefused string | SourceMagnet | SourceUrl url

definition validateDownloadSourceUrlSyntax :: "url_parser \<Rightarrow> string \<Rightarrow> string list \<Rightarrow> source_syntax" where
  "validateDownloadSourceUrlSyntax parse rawUrl blockedSuffixes =
     (let value = trim rawUrl in
      if value = [] then SourceRefused ''Download URL cannot be empty''
      else if 4096 < length value then SourceRefused ''Download URL is too long''
      else if isMagnetLink value then SourceMagnet
      else case parse value of
        None \<Rightarrow> SourceRefused ''Download URL format is invalid''
      | Some parsed \<Rightarrow>
          if uProtocol parsed \<noteq> ''http:'' \<and> uProtocol parsed \<noteq> ''https:''
          then SourceRefused ''Only HTTP, HTTPS, or magnet links are supported''
          else if uUsername parsed \<noteq> [] \<or> uPassword parsed \<noteq> []
          then SourceRefused ''Download URL must not contain username or password''
          else if uPort parsed \<noteq> [] then SourceRefused ''Download URL must not specify a port''
          else
            let hostname = lower (uHostname parsed) in
            if hostname = [] then SourceRefused ''Download URL is missing a hostname''
            else if hostnameMatchesBlockedSuffix hostname blockedSuffixes
            then SourceRefused ''Downloading intranet or local domain resources is not allowed''
            else let ipLiteral = strip_brackets hostname in
              if isIP ipLiteral \<and> isBlockedIpAddress ipLiteral
              then SourceRefused ''Downloading intranet, loopback, or link-local address resources is not allowed''
              else SourceUrl parsed)"

definition validateDownloadSourceUrl :: "url_parser \<Rightarrow> string \<Rightarrow> string list \<Rightarrow> string option" where
  "validateDownloadSourceUrl parse rawUrl blockedSuffixes =
     (case validateDownloadSourceUrlSyntax parse rawUrl blockedSuffixes of
        SourceRefused reason \<Rightarrow> Some reason | _ \<Rightarrow> None)"

record resolution =
  rsHostname :: string
  rsAddress :: string
  rsPort :: int

datatype source_check =
    CheckRefused string
  | CheckMagnet string
  | CheckResolved resolution

definition assertDownloadSourceUrlSafe ::
  "url_parser \<Rightarrow> (string \<Rightarrow> string option) \<Rightarrow> dns \<Rightarrow> string \<Rightarrow> string list \<Rightarrow> source_check" where
  "assertDownloadSourceUrlSafe parse decode dns rawUrl blockedSuffixes =
     (case validateDownloadSourceUrlSyntax parse rawUrl blockedSuffixes of
        SourceRefused reason \<Rightarrow> CheckRefused reason
      | SourceMagnet \<Rightarrow> CheckMagnet (fst (sanitizeMagnetLink parse decode blockedSuffixes (trim rawUrl)))
      | SourceUrl url \<Rightarrow>
          let hostname = lower (uHostname url) in
          (case dns hostname of
             None \<Rightarrow> CheckRefused ''Download URL DNS resolution failed''
           | Some addresses \<Rightarrow>
               if addresses = [] \<or> list_ex isBlockedIpAddress addresses
               then CheckRefused ''Download URL DNS resolved to an intranet, loopback, or link-local address''
               else CheckResolved \<lparr>rsHostname = strip_edge_brackets hostname, rsAddress = hd addresses,
                      rsPort = (if uProtocol url = ''https:'' then 443 else 80)\<rparr>))"

section \<open>redirect-chain.ts\<close>

definition MAX_DOWNLOAD_REDIRECTS :: nat where "MAX_DOWNLOAD_REDIRECTS = 5"

definition REDIRECT_STATUSES :: "nat list" where
  "REDIRECT_STATUSES = [301, 302, 303, 307, 308]"

datatype probe_answer = ProbeFailed | NoRedirect | RedirectTo string

datatype redirect_result =
    RedirectRefused string
  | RedirectOk string "resolution option"

text \<open>
  The hops that were contacted, each with its resolution, and the result.  \<open>dns hop\<close> and
  \<open>probe hop\<close> are the answers at that hop; an empty \<open>location\<close> is no redirect.
\<close>

function redirect_loop ::
  "url_parser \<Rightarrow> (string \<Rightarrow> string option) \<Rightarrow> (string \<Rightarrow> string \<Rightarrow> string option) \<Rightarrow> (nat \<Rightarrow> dns)
     \<Rightarrow> (nat \<Rightarrow> string \<Rightarrow> resolution \<Rightarrow> probe_answer) \<Rightarrow> nat \<Rightarrow> nat \<Rightarrow> string
     \<Rightarrow> (string \<times> resolution) list \<times> redirect_result" where
  "redirect_loop parse decode resolve dns probe maxRedirects hop current =
     (case assertDownloadSourceUrlSafe parse decode (dns hop) current DEFAULT_BLOCKED_HOSTNAME_SUFFIXES of
        CheckRefused reason \<Rightarrow>
          ([], RedirectRefused (if hop = 0 then reason else ''Redirect target rejected: '' @ reason))
      | CheckMagnet _ \<Rightarrow> ([], RedirectOk current None)
      | CheckResolved r \<Rightarrow>
          (case probe hop current r of
             ProbeFailed \<Rightarrow> ([(current, r)], RedirectOk current (Some r))
           | NoRedirect \<Rightarrow> ([(current, r)], RedirectOk current (Some r))
           | RedirectTo location \<Rightarrow>
               if location = [] then ([(current, r)], RedirectOk current (Some r))
               else if maxRedirects \<le> hop
               then ([(current, r)], RedirectRefused ''Download URL redirects too many times'')
               else (case resolve location current of
                       None \<Rightarrow> ([(current, r)], RedirectRefused ''Download URL redirects to an invalid location'')
                     | Some next' \<Rightarrow>
                         (case redirect_loop parse decode resolve dns probe maxRedirects (Suc hop) next' of
                            (trace, result) \<Rightarrow> ((current, r) # trace, result)))))"
  by pat_completeness auto

termination
  by (relation "measure (\<lambda>(parse, decode, resolve, dns, probe, maxRedirects, hop, current).
        Suc maxRedirects - hop)") auto

declare redirect_loop.simps [simp del]

definition resolveDownloadRedirects ::
  "url_parser \<Rightarrow> (string \<Rightarrow> string option) \<Rightarrow> (string \<Rightarrow> string \<Rightarrow> string option) \<Rightarrow> (nat \<Rightarrow> dns)
     \<Rightarrow> (nat \<Rightarrow> string \<Rightarrow> resolution \<Rightarrow> probe_answer) \<Rightarrow> nat option \<Rightarrow> string
     \<Rightarrow> (string \<times> resolution) list \<times> redirect_result" where
  "resolveDownloadRedirects parse decode resolve dns probe maxRedirects rawUrl =
     redirect_loop parse decode resolve dns probe
       (case maxRedirects of None \<Rightarrow> MAX_DOWNLOAD_REDIRECTS | Some m \<Rightarrow> m) 0 rawUrl"

text \<open>What \<open>probeRedirect\<close> makes of the answers to HEAD and to the one-byte GET.\<close>

fun probe_statuses :: "(nat \<times> string option) list \<Rightarrow> probe_answer" where
  "probe_statuses [] = NoRedirect"
| "probe_statuses ((status, location) # rest) =
     (if rest \<noteq> [] \<and> (status = 405 \<or> status = 501) then probe_statuses rest
      else if status \<notin> set REDIRECT_STATUSES then NoRedirect
      else (case location of None \<Rightarrow> NoRedirect | Some l \<Rightarrow> RedirectTo l))"

definition pinHttpSourceForAria2 ::
  "url_parser \<Rightarrow> url_printer \<Rightarrow> string \<Rightarrow> resolution option \<Rightarrow> string \<times> string option" where
  "pinHttpSourceForAria2 parse show url resolution =
     (case resolution of
        None \<Rightarrow> (url, None)
      | Some r \<Rightarrow>
          if isIP (rsHostname r) then (url, None)
          else case parse url of
            None \<Rightarrow> (url, None)
          | Some parsed \<Rightarrow>
              if uProtocol parsed \<noteq> ''http:'' then (url, None)
              else (show (parsed\<lparr>uHostname := (if CHR '':'' \<in> set (rsAddress r)
                            then ''['' @ rsAddress r @ '']'' else rsAddress r)\<rparr>),
                    Some (''Host: '' @ rsHostname r)))"

section \<open>Redirects\<close>

lemma resolved_admitted:
  assumes "assertDownloadSourceUrlSafe parse decode dns value sfx = CheckResolved r"
  shows "\<not> isBlockedIpAddress (rsAddress r) \<and> (rsPort r = 80 \<or> rsPort r = 443)
    \<and> (\<exists>url. parse (trim value) = Some url \<and> (uProtocol url = ''http:'' \<or> uProtocol url = ''https:'')
         \<and> uUsername url = [] \<and> uPassword url = [] \<and> uPort url = []
         \<and> (\<exists>as. dns (lower (uHostname url)) = Some as \<and> rsAddress r \<in> set as))"
  using assms
  by (auto simp: assertDownloadSourceUrlSafe_def validateDownloadSourceUrlSyntax_def Let_def list_ex_iff
      split: option.splits if_splits source_syntax.splits)

lemma redirect_trace:
  "redirect_loop parse decode resolve dns probe m hop current = (trace, result) \<Longrightarrow> hop \<le> m \<Longrightarrow>
     (\<forall>(u, r) \<in> set trace. \<not> isBlockedIpAddress (rsAddress r) \<and> (rsPort r = 80 \<or> rsPort r = 443))
     \<and> length trace \<le> Suc m - hop
     \<and> (\<forall>u r. result = RedirectOk u (Some r) \<longrightarrow> trace \<noteq> [] \<and> last trace = (u, r))"
proof (induction parse decode resolve dns probe m hop current arbitrary: trace result
    rule: redirect_loop.induct)
  case (1 parse decode resolve dns probe m hop current)
  let ?c = "assertDownloadSourceUrlSafe parse decode (dns hop) current DEFAULT_BLOCKED_HOSTNAME_SUFFIXES"
  show ?case
  proof (cases ?c)
    case (CheckResolved r)
    note ok = resolved_admitted [OF this]
    show ?thesis
    proof (cases "\<exists>l n. probe hop current r = RedirectTo l \<and> l \<noteq> [] \<and> hop < m \<and> resolve l current = Some n")
      case True
      then obtain l n where p: "probe hop current r = RedirectTo l" "l \<noteq> []" "hop < m"
        "resolve l current = Some n" by blast
      obtain trace' res' where rec: "redirect_loop parse decode resolve dns probe m (Suc hop) n = (trace', res')"
        by fastforce
      have t: "trace = (current, r) # trace'" "result = res'"
        using "1.prems"(1) p CheckResolved rec by (subst (asm) redirect_loop.simps, simp)+
      have "\<not> m \<le> hop" using p(3) by simp
      from "1.IH" [OF CheckResolved p(1,2) this p(4) rec] p(3)
      show ?thesis using ok t by auto
    next
      case False
      then have "trace = [(current, r)] \<and> (\<forall>u r'. result = RedirectOk u (Some r') \<longrightarrow> u = current \<and> r' = r)"
        using "1.prems"(1) CheckResolved
        by (subst (asm) redirect_loop.simps) (auto split: probe_answer.splits if_splits option.splits)
      then show ?thesis using ok "1.prems"(2) by auto
    qed
  qed (use "1.prems"(1) in \<open>subst (asm) redirect_loop.simps, force\<close>)+
qed


definition sample_hop :: "nat \<Rightarrow> string \<Rightarrow> resolution \<Rightarrow> probe_answer" where
  "sample_hop hop u r = (if hop = 0 then RedirectTo ''https://a.io/'' else NoRedirect)"

definition sample_resolution :: resolution where
  "sample_resolution = \<lparr>rsHostname = ''a.io'', rsAddress = dotted 8 8 8 8, rsPort = 443\<rparr>"

lemma sample_source:
  "assertDownloadSourceUrlSafe sample_parse Some (\<lambda>_. Some [a]) ''https://a.io/'' DEFAULT_BLOCKED_HOSTNAME_SUFFIXES
   = (if isBlockedIpAddress a
      then CheckRefused ''Download URL DNS resolved to an intranet, loopback, or link-local address''
      else CheckResolved \<lparr>rsHostname = ''a.io'', rsAddress = a, rsPort = 443\<rparr>)"
proof -
  have "validateDownloadSourceUrlSyntax sample_parse ''https://a.io/'' DEFAULT_BLOCKED_HOSTNAME_SUFFIXES
      = SourceUrl sample_url" by code_simp
  then show ?thesis
    by (simp add: assertDownloadSourceUrlSafe_def sample_url_def ascii_lower_def strip_edge_brackets_def)
qed


section \<open>Magnet links\<close>

lemma kept_no_ampersand:
  "\<forall>seg \<in> set (filter (keep_segment parse decode sfx) (split_on CHR ''&'' q)). CHR ''&'' \<notin> set seg"
proof -
  have "c \<notin> set p" if "p \<in> set (split_on c s)" for c :: char and p s
    using that
  proof (induction s arbitrary: p)
    case (Cons x s)
    obtain y ys where "split_on c s = y # ys" by (cases "split_on c s") auto
    with Cons show ?case by (auto split: if_splits)
  qed simp
  then show ?thesis by auto
qed

lemma keep_empty [simp]: "keep_segment parse decode sfx []"
  by (simp add: keep_segment_def)

text \<open>
  Cleaning a magnet link keeps exactly the segments that pass - everything that is no
  tracker, byte for byte and in order, and the trackers that are allowed - and is final: the
  cleaned link holds no refused tracker and cleaning it again changes nothing.
\<close>

theorem magnet_cleaning_exact:
  "(case sanitizeMagnetLink parse decode sfx value of (url', dropped) \<Rightarrow>
     (let before = split_on CHR ''&'' (drop 8 value);
          kept = filter (keep_segment parse decode sfx) before;
          after = split_on CHR ''&'' (drop 8 url')
      in take 8 url' = magnet_prefix \<and> after = (if kept = [] then [[]] else kept)
         \<and> list_all (keep_segment parse decode sfx) after
         \<and> dropped + length kept = length before
         \<and> sanitizeMagnetLink parse decode sfx url' = (url', 0)))"
proof -
  let ?before = "split_on CHR ''&'' (drop 8 value)"
  let ?kept = "filter (keep_segment parse decode sfx) ?before"
  have p: "length magnet_prefix = 8" by (simp add: magnet_prefix_def)
  have sp: "split_on CHR ''&'' (join_on CHR ''&'' ?kept) = (if ?kept = [] then [[]] else ?kept)"
    using kept_no_ampersand by (auto intro: split_join)
  have all: "list_all (keep_segment parse decode sfx) (if ?kept = [] then [[]] else ?kept)"
    by (simp add: list_all_iff)
  have "filter (keep_segment parse decode sfx) (if ?kept = [] then [[]] else ?kept) = (if ?kept = [] then [[]] else ?kept)"
    using all by (simp only: filter_id_conv list_all_iff)
  moreover have "join_on CHR ''&'' (if ?kept = [] then [[]] else ?kept) = join_on CHR ''&'' ?kept" by simp
  ultimately show ?thesis
    using length_filter_le [of "keep_segment parse decode sfx" ?before]
    by (simp add: sanitizeMagnetLink_def Let_def p sp all)
qed

definition tracker_at :: "string \<Rightarrow> url" where
  "tracker_at host = \<lparr>uProtocol = ''http:'', uUsername = [], uPassword = [], uHostname = host, uPort = [],
     uPath = ''/announce'', uSearch = [], uHash = []\<rparr>"

text \<open>
  A local name escapes the tracker filter by a final dot, which resolves to the same host:
  a magnet link announcing to \<open>localhost.\<close> or to a name under \<open>.internal.\<close> keeps that tracker,
  while the same names without the dot are dropped.
\<close>

theorem local_tracker_with_final_dot:
  "trackerAllowed (\<lambda>_. Some (tracker_at ''localhost.'')) v DEFAULT_BLOCKED_HOSTNAME_SUFFIXES
   \<and> trackerAllowed (\<lambda>_. Some (tracker_at ''metadata.internal.'')) v DEFAULT_BLOCKED_HOSTNAME_SUFFIXES
   \<and> \<not> trackerAllowed (\<lambda>_. Some (tracker_at ''localhost'')) v DEFAULT_BLOCKED_HOSTNAME_SUFFIXES
   \<and> \<not> trackerAllowed (\<lambda>_. Some (tracker_at ''metadata.internal'')) v DEFAULT_BLOCKED_HOSTNAME_SUFFIXES"
  by code_simp

end
