(* ===== verification/Command_Model.thy ===== *)
theory Command_Model
  imports Api_Access Job_Queue Storage_Path
begin

text \<open>
  The tables of the command approval workflow (\<^verbatim>\<open>CommandRequest\<close>, \<^verbatim>\<open>CommandTarget\<close>,
  \<^verbatim>\<open>CommandApproval\<close>, \<^verbatim>\<open>ExecutionLog\<close> of \<^verbatim>\<open>prisma/schema.prisma\<close>), their updates, the input
  schemas of \<^verbatim>\<open>src/lib/command/schema.ts\<close> and the availability rule of
  \<^verbatim>\<open>src/lib/server/availability.ts\<close>.

  Every writer of the request table is a guarded update.  The locale \<open>request_update\<close> says
  what all of them promise - identity and content stay, the status moves along the abstract
  workflow \<open>status_move\<close>, a finished request is not selected - and \<open>target_update\<close> the same
  for targets.
\<close>

section \<open>Rows\<close>

datatype command_status =
    PendingApproval | Approved | Rejected | Running | Cancelling | Completed | Failed | Cancelled

datatype actor_type = UserActor | AssistantActor

record command_request =
  cqId :: string
  cqTitle :: ustring
  cqCommand :: ustring
  cqReason :: "ustring option"
  cqStatus :: command_status
  cqInitiatedBy :: actor_type
  cqRequesterId :: string
  cqWorkerId :: "string option"
  cqHeartbeatAt :: "time option"
  cqIdempotencyKey :: "string option"
  cqCreatedAt :: time
  cqUpdatedAt :: time
  cqTeamId :: "string option"

record command_target =
  ctId :: string
  ctRequestId :: string
  ctServerId :: string
  ctStatus :: command_status
  ctStdout :: "ustring option"
  ctStderr :: "ustring option"
  ctExitCode :: "int option"
  ctStartedAt :: "time option"
  ctFinishedAt :: "time option"
  ctOutcomeUnknown :: bool

record command_approval =
  caRequestId :: string
  caApproverId :: string
  caApproved :: bool
  caComment :: "ustring option"

record execution_log =
  elRequestId :: string
  elServerId :: "string option"
  elSummary :: ustring

text \<open>The jobs are those of the durable table the execution is queued in.\<close>

record command_db =
  cmRequests :: "command_request list"
  cmTargets :: "command_target list"
  cmApprovals :: "command_approval list"
  cmLogs :: "execution_log list"
  cmJobs :: "job list"

section \<open>Statements\<close>

text \<open>Prisma stamps \<open>updatedAt\<close> on every update of a request.\<close>

definition update_requests ::
  "time \<Rightarrow> (command_request \<Rightarrow> bool) \<Rightarrow> (command_request \<Rightarrow> command_request)
     \<Rightarrow> command_db \<Rightarrow> command_db \<times> nat" where
  "update_requests now p f db =
     (case update_many p (\<lambda>r. (f r)\<lparr>cqUpdatedAt := now\<rparr>) (cmRequests db) of
        (rows, n) \<Rightarrow> (db\<lparr>cmRequests := rows\<rparr>, n))"

definition update_targets ::
  "(command_target \<Rightarrow> bool) \<Rightarrow> (command_target \<Rightarrow> command_target) \<Rightarrow> command_db \<Rightarrow> command_db \<times> nat" where
  "update_targets p f db =
     (case update_many p f (cmTargets db) of (rows, n) \<Rightarrow> (db\<lparr>cmTargets := rows\<rparr>, n))"

definition add_log :: "string \<Rightarrow> string option \<Rightarrow> ustring \<Rightarrow> command_db \<Rightarrow> command_db" where
  "add_log reqId serverId summary db =
     db\<lparr>cmLogs := cmLogs db @ [\<lparr>elRequestId = reqId, elServerId = serverId, elSummary = summary\<rparr>]\<rparr>"

definition find_request :: "command_db \<Rightarrow> string \<Rightarrow> command_request option" where
  "find_request db i = find_first (\<lambda>r. cqId r = i) (cmRequests db)"

definition find_target :: "command_db \<Rightarrow> string \<Rightarrow> command_target option" where
  "find_target db i = find_first (\<lambda>t. ctId t = i) (cmTargets db)"

definition targets_of :: "command_db \<Rightarrow> string \<Rightarrow> command_target list" where
  "targets_of db i = filter (\<lambda>t. ctRequestId t = i) (cmTargets db)"

lemma update_requests_simps [simp]:
  "cmTargets (fst (update_requests now p f db)) = cmTargets db"
  "cmApprovals (fst (update_requests now p f db)) = cmApprovals db"
  "cmLogs (fst (update_requests now p f db)) = cmLogs db"
  "cmJobs (fst (update_requests now p f db)) = cmJobs db"
  "cmRequests (fst (update_requests now p f db))
     = map (\<lambda>r. if p r then (f r)\<lparr>cqUpdatedAt := now\<rparr> else r) (cmRequests db)"
  "snd (update_requests now p f db) = count_where p (cmRequests db)"
  by (simp_all add: update_requests_def update_many_pair)

lemma update_targets_simps [simp]:
  "cmRequests (fst (update_targets p g db)) = cmRequests db"
  "cmApprovals (fst (update_targets p g db)) = cmApprovals db"
  "cmLogs (fst (update_targets p g db)) = cmLogs db"
  "cmJobs (fst (update_targets p g db)) = cmJobs db"
  "cmTargets (fst (update_targets p g db)) = map (\<lambda>t. if p t then g t else t) (cmTargets db)"
  "snd (update_targets p g db) = count_where p (cmTargets db)"
  by (simp_all add: update_targets_def update_many_pair)

lemma updated_target:
  assumes "t \<in> set (cmTargets (fst (update_targets p g db)))"
  obtains x where "x \<in> set (cmTargets db)" "t = (if p x then g x else x)"
  using in_set_map_ifD [OF assms [unfolded update_targets_simps]] by blast

lemma updated_request:
  assumes "r \<in> set (cmRequests (fst (update_requests now p f db)))"
  obtains x where "x \<in> set (cmRequests db)" "r = (if p x then (f x)\<lparr>cqUpdatedAt := now\<rparr> else x)"
  using in_set_map_ifD [OF assms [unfolded update_requests_simps]] by blast

lemma in_targets_of: "t \<in> set (targets_of db i) \<longleftrightarrow> t \<in> set (cmTargets db) \<and> ctRequestId t = i"
  by (simp add: targets_of_def)

lemma add_log_simps [simp]:
  "cmRequests (add_log i s m db) = cmRequests db" "cmTargets (add_log i s m db) = cmTargets db"
  "cmApprovals (add_log i s m db) = cmApprovals db" "cmJobs (add_log i s m db) = cmJobs db"
  by (simp_all add: add_log_def)

text \<open>\<open>{ id, ...scope }\<close>: a scope that fixes the id itself replaces the one asked for.\<close>

fun id_and_scope :: "scope \<Rightarrow> string \<Rightarrow> string \<Rightarrow> string option \<Rightarrow> bool" where
  "id_and_scope AllRows wanted i team = (i = wanted)"
| "id_and_scope (TeamRows t) wanted i team = (i = wanted \<and> team = Some t)"
| "id_and_scope (IdRows k) wanted i team = (i = k)"

definition request_where :: "session option \<Rightarrow> string \<Rightarrow> command_request \<Rightarrow> bool" where
  "request_where session reqId r =
     (case session of
        None \<Rightarrow> cqId r = reqId
      | Some s \<Rightarrow> id_and_scope (commandRequestTeamWhere s) reqId (cqId r) (cqTeamId r))"

section \<open>Statuses\<close>

definition TERMINAL_STATUSES :: "command_status list" where
  "TERMINAL_STATUSES = [Cancelled, Completed, Failed, Rejected]"

definition LIVE_STATUSES :: "command_status list" where
  "LIVE_STATUSES = [Running, Cancelling, Approved, PendingApproval]"

definition CANCELLABLE_STATUSES :: "command_status list" where
  "CANCELLABLE_STATUSES = [PendingApproval, Approved, Running]"

lemma live_iff_not_terminal: "st \<in> set LIVE_STATUSES \<longleftrightarrow> st \<notin> set TERMINAL_STATUSES"
  by (cases st) (auto simp: LIVE_STATUSES_def TERMINAL_STATUSES_def)

lemmas status_lists = TERMINAL_STATUSES_def LIVE_STATUSES_def CANCELLABLE_STATUSES_def

text \<open>
  The workflow as its operators see it: a waiting request is approved, rejected or cancelled;
  an approved one starts, or is cancelled or given up before it starts; a running one ends, is
  asked to stop, or returns to the queue when it could not be queued; a stopping one ends.
\<close>

fun status_move :: "command_status \<Rightarrow> command_status \<Rightarrow> bool" where
  "status_move PendingApproval st = (st \<in> {Approved, Rejected, Cancelled})"
| "status_move Approved st = (st \<in> {Running, Cancelled, Completed, Failed})"
| "status_move Running st = (st \<in> {Approved, Cancelling, Cancelled, Completed, Failed})"
| "status_move Cancelling st = (st \<in> {Cancelled, Completed, Failed})"
| "status_move Rejected st = False"
| "status_move Completed st = False"
| "status_move Failed st = False"
| "status_move Cancelled st = False"

lemma status_move_terminal: "st \<in> set TERMINAL_STATUSES \<Longrightarrow> \<not> status_move st st'"
  by (auto simp: TERMINAL_STATUSES_def)

definition same_request :: "command_request \<Rightarrow> command_request \<Rightarrow> bool" where
  "same_request r r' \<longleftrightarrow> cqId r' = cqId r \<and> cqTitle r' = cqTitle r \<and> cqCommand r' = cqCommand r
     \<and> cqReason r' = cqReason r \<and> cqInitiatedBy r' = cqInitiatedBy r
     \<and> cqRequesterId r' = cqRequesterId r \<and> cqIdempotencyKey r' = cqIdempotencyKey r
     \<and> cqCreatedAt r' = cqCreatedAt r \<and> cqTeamId r' = cqTeamId r"

lemma same_request_refl [simp]: "same_request r r"
  by (simp add: same_request_def)

lemma same_request_trans: "same_request r r' \<Longrightarrow> same_request r' r'' \<Longrightarrow> same_request r r''"
  by (simp add: same_request_def)

definition same_target :: "command_target \<Rightarrow> command_target \<Rightarrow> bool" where
  "same_target t t' \<longleftrightarrow> ctId t' = ctId t \<and> ctRequestId t' = ctRequestId t \<and> ctServerId t' = ctServerId t"

lemma same_target_refl [simp]: "same_target t t"
  by (simp add: same_target_def)

lemma same_target_trans: "same_target t t' \<Longrightarrow> same_target t' t'' \<Longrightarrow> same_target t t''"
  by (simp add: same_target_def)

text \<open>One statement moves a request at most one step of the workflow.\<close>

definition request_moves :: "command_request \<Rightarrow> command_request \<Rightarrow> bool" where
  "request_moves r r' \<longleftrightarrow> same_request r r'
     \<and> (r' = r \<or> cqStatus r \<notin> set TERMINAL_STATUSES
          \<and> (cqStatus r' = cqStatus r \<or> status_move (cqStatus r) (cqStatus r')))"

definition target_moves :: "command_target \<Rightarrow> command_target \<Rightarrow> bool" where
  "target_moves t t' \<longleftrightarrow> same_target t t'
     \<and> (t' = t \<or> ctStatus t \<notin> set TERMINAL_STATUSES)"

lemma request_moves_refl [simp]: "request_moves r r"
  by (simp add: request_moves_def)

lemma target_moves_refl [simp]: "target_moves t t"
  by (simp add: target_moves_def)

locale request_update =
  fixes p :: "command_request \<Rightarrow> bool" and f :: "command_request \<Rightarrow> command_request"
  assumes keeps: "same_request r (f r)"
    and moves: "p r \<Longrightarrow> cqStatus (f r) = cqStatus r \<or> status_move (cqStatus r) (cqStatus (f r))"
    and live: "p r \<Longrightarrow> cqStatus r \<notin> set TERMINAL_STATUSES"
begin

lemma row_moves: "request_moves r (if p r then (f r)\<lparr>cqUpdatedAt := now\<rparr> else r)"
  using keeps [of r] moves [of r] live [of r] by (auto simp: request_moves_def same_request_def)

lemma update_moves:
  "list_all2 request_moves (cmRequests db) (cmRequests (fst (update_requests now p f db)))"
  by (simp add: list_all2_conv_all_nth row_moves)

end

locale target_update =
  fixes p :: "command_target \<Rightarrow> bool" and g :: "command_target \<Rightarrow> command_target"
  assumes keeps: "same_target t (g t)"
    and live: "p t \<Longrightarrow> ctStatus t \<notin> set TERMINAL_STATUSES"
begin

lemma row_moves: "target_moves t (if p t then g t else t)"
  using keeps [of t] live [of t] by (auto simp: target_moves_def)

lemma update_moves:
  "list_all2 target_moves (cmTargets db) (cmTargets (fst (update_targets p g db)))"
  by (simp add: list_all2_conv_all_nth row_moves)

end

section \<open>Input schemas\<close>

text \<open>The server ids of a request: trimmed, without blanks and without repetitions.\<close>

fun normalize_ids :: "string list \<Rightarrow> string list \<Rightarrow> string list" where
  "normalize_ids seen [] = []"
| "normalize_ids seen (raw # rest) =
     (let serverId = trim raw in
      if serverId = [] \<or> serverId \<in> set seen then normalize_ids seen rest
      else serverId # normalize_ids (serverId # seen) rest)"

definition normalizedServerIds :: "string list \<Rightarrow> string list option" where
  "normalizedServerIds ids = (let ns = normalize_ids [] ids in if ns = [] then None else Some ns)"

record create_input =
  ciTitle :: ustring
  ciCommand :: ustring
  ciReason :: "ustring option"
  ciSubmissionMode :: ApprovalActorType
  ciApprovalRequired :: "bool option"
  ciRequesterId :: string
  ciTeamId :: "string option option"
  ciIdempotencyKey :: "string option"
  ciServerIds :: "string list"

definition opt_all :: "('a \<Rightarrow> bool) \<Rightarrow> 'a option \<Rightarrow> bool" where
  "opt_all p x = (case x of None \<Rightarrow> True | Some v \<Rightarrow> p v)"

definition text_ok :: "nat \<Rightarrow> nat \<Rightarrow> 'a list \<Rightarrow> bool" where
  "text_ok lo hi s \<longleftrightarrow> lo \<le> length s \<and> length s \<le> hi"

text \<open>\<open>createCommandSchema.parse\<close>; \<open>None\<close> is the \<open>ZodError\<close> it throws.\<close>

definition createCommandSchema :: "create_input \<Rightarrow> create_input option" where
  "createCommandSchema i =
     (let title = us_trim (ciTitle i); command = us_trim (ciCommand i);
          reason = map_option us_trim (ciReason i); requesterId = trim (ciRequesterId i);
          teamId = map_option (map_option trim) (ciTeamId i);
          key = map_option trim (ciIdempotencyKey i)
      in if text_ok 1 120 title \<and> text_ok 1 10000 command \<and> opt_all (text_ok 0 500) reason
            \<and> requesterId \<noteq> [] \<and> opt_all (opt_all (\<lambda>t. t \<noteq> [])) teamId \<and> opt_all (text_ok 1 300) key
         then map_option (\<lambda>ids. i\<lparr>ciTitle := title, ciCommand := command, ciReason := reason,
                ciRequesterId := requesterId, ciTeamId := teamId, ciIdempotencyKey := key,
                ciServerIds := ids\<rparr>) (normalizedServerIds (ciServerIds i))
         else None)"

record review_input =
  riRequestId :: string
  riApproverId :: string
  riApproved :: bool
  riComment :: "ustring option"

definition reviewCommandSchema :: "review_input \<Rightarrow> review_input option" where
  "reviewCommandSchema i =
     (let reqId = trim (riRequestId i); approver = trim (riApproverId i);
          comment = map_option us_trim (riComment i)
      in if reqId \<noteq> [] \<and> approver \<noteq> [] \<and> opt_all (text_ok 0 500) comment
         then Some (i\<lparr>riRequestId := reqId, riApproverId := approver, riComment := comment\<rparr>)
         else None)"

lemma normalize_ids_spec:
  "distinct (normalize_ids seen ids)
   \<and> set (normalize_ids seen ids) = (set (map trim ids) - {[]}) - set seen"
  by (induction seen ids rule: normalize_ids.induct) (auto simp: Let_def)

lemma normalizedServerIds_spec:
  assumes "normalizedServerIds ids = Some ns"
  shows "distinct ns \<and> ns \<noteq> [] \<and> set ns = set (map trim ids) - {[]}"
  using assms normalize_ids_spec [of "[]" ids]
  by (auto simp: normalizedServerIds_def Let_def split: if_splits)

section \<open>availability.ts\<close>

definition RECENT_OFFLINE_WINDOW_MS :: int where "RECENT_OFFLINE_WINDOW_MS = 5 * 60 * 1000"
definition AGENT_FRESH_WINDOW_MS :: int where "AGENT_FRESH_WINDOW_MS = 90 * 1000"

record availability_input =
  avOnboardingStatus :: "string option"
  avManagementMode :: "string option"
  avAgentLastSeenAt :: "time option"
  avHasSshCredential :: "bool option"
  avLatestMetric :: "(bool \<times> time) option"

datatype unavailable_reason = SetupIncomplete | RecentlyOffline

text \<open>\<open>Inl reason\<close> is \<open>{ available: false, reason }\<close>.\<close>

definition getServerTargetAvailability ::
  "availability_input \<Rightarrow> time \<Rightarrow> unavailable_reason + unit" where
  "getServerTargetAvailability i now =
     (if truthy (avOnboardingStatus i) \<and> avOnboardingStatus i \<noteq> Some ''READY''
      then Inl SetupIncomplete
      else
        let agent = (avManagementMode i = Some ''AGENT'');
            fresh = (case avAgentLastSeenAt i of None \<Rightarrow> False
                     | Some t \<Rightarrow> now - t \<le> AGENT_FRESH_WINDOW_MS)
        in if agent \<and> fresh then Inr ()
           else if agent \<and> avHasSshCredential i = Some False then Inl RecentlyOffline
           else case avLatestMetric i of
             None \<Rightarrow> Inr ()
           | Some (isOnline, checkedAt) \<Rightarrow>
               if \<not> isOnline \<and> now - checkedAt \<le> RECENT_OFFLINE_WINDOW_MS
               then Inl RecentlyOffline else Inr ())"

end
