(* ===== verification/Command_Queue.thy ===== *)
theory Command_Queue
  imports Command_Model
begin

text \<open>
  How an approved command request reaches the durable job table:
  \<^verbatim>\<open>src/lib/command/execution-queue.ts\<close>, the enqueueing part of
  \<^verbatim>\<open>src/lib/command/service-execution.ts\<close>, and the sweep of
  \<^verbatim>\<open>src/lib/command/service-recovery.ts\<close> that picks up approved requests nobody queued.

  \<open>qeFails\<close> says for which requests the insert of the job throws, \<open>qeJobId\<close> is the id the
  database gives the job of a request.
\<close>

section \<open>execution-queue.ts\<close>

definition COMMAND_EXECUTION_JOB_TYPE :: string where
  "COMMAND_EXECUTION_JOB_TYPE = ''command.execution''"

record execution_payload =
  epRequestId :: string
  epSummary :: "string option"
  epRequestedAt :: "string option"

fun json_string :: "json option \<Rightarrow> string option" where
  "json_string (Some (JStr s)) = Some s"
| "json_string _ = None"

text \<open>\<open>Inl\<close> is the message of the error thrown.\<close>

definition parseCommandExecutionJobPayload :: "json \<Rightarrow> string + execution_payload" where
  "parseCommandExecutionJobPayload payload =
     (case payload of
        JObj kvs \<Rightarrow>
          (let commandRequestId = (case json_string (map_of kvs ''commandRequestId'') of
                 None \<Rightarrow> [] | Some i \<Rightarrow> trim i)
           in if commandRequestId = [] then Inl ''Command execution task missing commandRequestId''
              else Inr \<lparr>epRequestId = commandRequestId,
                epSummary = json_string (map_of kvs ''summary''),
                epRequestedAt = json_string (map_of kvs ''requestedAt'')\<rparr>)
      | _ \<Rightarrow> Inl ''Command execution task payload invalid'')"

record queue_env =
  qeWorkerId :: string
  qeJobId :: "string \<Rightarrow> string"
  qeFails :: "string \<Rightarrow> bool"
  qeFallback :: int
  qeIntText :: "int \<Rightarrow> string"
  qeIsoText :: "time \<Rightarrow> string"

definition execution_job_input :: "queue_env \<Rightarrow> time \<Rightarrow> string \<Rightarrow> string \<Rightarrow> command_request option \<Rightarrow> enqueue_input" where
  "execution_job_input env now reqId summary request =
     \<lparr>enType = COMMAND_EXECUTION_JOB_TYPE, enTitle = ''Execute command '' @ reqId,
      enPayload = Some (JObj [(''commandRequestId'', JStr reqId), (''summary'', JStr summary),
        (''requestedAt'', JStr (qeIsoText env now))]),
      enCreatedBy = map_option cqRequesterId request,
      enTeamId = (case request of None \<Rightarrow> None | Some r \<Rightarrow> cqTeamId r),
      enPriority = Some 0, enMaxAttempts = Some (Fin 1), enAvailableAt = None,
      enTargetStorageNodeId = None\<rparr>"

text \<open>\<open>None\<close> when the call throws: no request id, or a failed insert.\<close>

definition enqueueCommandExecutionJob ::
  "queue_env \<Rightarrow> time \<Rightarrow> string \<Rightarrow> string \<Rightarrow> command_db \<Rightarrow> command_db option" where
  "enqueueCommandExecutionJob env now commandRequestId summary db =
     (let reqId = trim commandRequestId in
      if reqId = [] \<or> qeFails env reqId then None
      else case enqueueJob (qeIntText env) (qeJobId env reqId) (qeFallback env)
             (execution_job_input env now reqId summary (find_request db reqId)) now (cmJobs db) of
        (jobs, _, _) \<Rightarrow> Some (db\<lparr>cmJobs := jobs\<rparr>))"

section \<open>Enqueueing\<close>

text \<open>The status claim, and the stamp of the targets; a finished target is not reopened.\<close>

definition claim_approved :: "string \<Rightarrow> time \<Rightarrow> string \<Rightarrow> command_db \<Rightarrow> command_db \<times> nat" where
  "claim_approved worker now reqId =
     update_requests now (\<lambda>r. cqId r = reqId \<and> cqStatus r = Approved)
       (\<lambda>r. r\<lparr>cqStatus := Running, cqWorkerId := Some worker, cqHeartbeatAt := Some now\<rparr>)"

definition markTargetsRunning :: "string \<Rightarrow> time \<Rightarrow> command_db \<Rightarrow> command_db" where
  "markTargetsRunning reqId now db =
     fst (update_targets (\<lambda>t. ctRequestId t = reqId \<and> ctStatus t \<in> {PendingApproval, Approved})
       (\<lambda>t. t\<lparr>ctStatus := Running, ctStartedAt := Some now\<rparr>) db)"

definition still_runnable :: "command_db \<Rightarrow> string \<Rightarrow> bool" where
  "still_runnable db reqId =
     (case find_request db reqId of
        None \<Rightarrow> False | Some r \<Rightarrow> cqStatus r \<notin> set TERMINAL_STATUSES)"

definition scheduleCommandExecution :: "queue_env \<Rightarrow> time \<Rightarrow> string \<Rightarrow> command_db \<Rightarrow> command_db option" where
  "scheduleCommandExecution env now reqId =
     enqueueCommandExecutionJob env now reqId
       (''Command request '' @ reqId @ '' has been enqueued for background execution'')"

text \<open>After a failed insert: back to the queue of approved requests.\<close>

definition unclaim_request :: "time \<Rightarrow> string \<Rightarrow> command_db \<Rightarrow> command_db" where
  "unclaim_request now reqId db =
     fst (update_requests now (\<lambda>r. cqId r = reqId \<and> cqStatus r = Running)
       (\<lambda>r. r\<lparr>cqStatus := Approved, cqWorkerId := None, cqHeartbeatAt := None\<rparr>) db)"

definition unclaim_targets :: "string \<Rightarrow> command_db \<Rightarrow> command_db" where
  "unclaim_targets reqId db =
     fst (update_targets (\<lambda>t. ctRequestId t = reqId \<and> ctStatus t = Running)
       (\<lambda>t. t\<lparr>ctStatus := Approved\<rparr>) db)"

text \<open>\<open>Some claimed\<close> is what the call returns, \<open>None\<close> that it throws.\<close>

definition enqueueApprovedCommandExecution ::
  "queue_env \<Rightarrow> time \<Rightarrow> string \<Rightarrow> ustring \<Rightarrow> command_db \<Rightarrow> command_db \<times> bool option" where
  "enqueueApprovedCommandExecution env now reqId summary db =
     (case claim_approved (qeWorkerId env) now reqId db of
        (db1, n) \<Rightarrow>
          if n = 0 then (db1, Some False)
          else
            let db2 = markTargetsRunning reqId now db1 in
            if \<not> still_runnable db2 reqId then (db2, Some False)
            else
              let db3 = add_log reqId None summary db2 in
              case scheduleCommandExecution env now reqId db3 of
                Some db4 \<Rightarrow> (db4, Some True)
              | None \<Rightarrow> (unclaim_targets reqId (unclaim_request now reqId db3), None))"

interpretation claim_approved: request_update
  "\<lambda>r. cqId r = reqId \<and> cqStatus r = Approved"
  "\<lambda>r. r\<lparr>cqStatus := Running, cqWorkerId := Some worker, cqHeartbeatAt := Some now\<rparr>"
  by unfold_locales (auto simp: same_request_def status_lists)

interpretation unclaim_request: request_update
  "\<lambda>r. cqId r = reqId \<and> cqStatus r = Running"
  "\<lambda>r. r\<lparr>cqStatus := Approved, cqWorkerId := None, cqHeartbeatAt := None\<rparr>"
  by unfold_locales (auto simp: same_request_def status_lists)

interpretation mark_running: target_update
  "\<lambda>t. ctRequestId t = reqId \<and> ctStatus t \<in> {PendingApproval, Approved}"
  "\<lambda>t. t\<lparr>ctStatus := Running, ctStartedAt := Some now\<rparr>"
  by unfold_locales (auto simp: same_target_def status_lists)

interpretation unclaim_targets: target_update
  "\<lambda>t. ctRequestId t = reqId \<and> ctStatus t = Running" "\<lambda>t. t\<lparr>ctStatus := Approved\<rparr>"
  by unfold_locales (auto simp: same_target_def status_lists)

section \<open>The sweep over approved requests\<close>

text \<open>\<open>for (i = 0; i < xs.length; i += n)\<close> over \<open>xs.slice(i, i + n)\<close>, with \<open>n = Suc k\<close>.\<close>

function chunks :: "nat \<Rightarrow> 'a list \<Rightarrow> 'a list list" where
  "chunks k xs = (if xs = [] then [] else take (Suc k) xs # chunks k (drop (Suc k) xs))"
  by pat_completeness auto
termination by (relation "measure (\<lambda>(k, xs). length xs)") auto

declare chunks.simps [simp del]

lemma concat_chunks [simp]: "concat (chunks k xs) = xs"
proof (induction k xs rule: chunks.induct)
  case (1 k xs)
  then show ?case by (subst chunks.simps) auto
qed

definition RECOVER_QUEUED_CONCURRENCY :: nat where "RECOVER_QUEUED_CONCURRENCY = 5"

definition queued_requests :: "nat \<Rightarrow> command_db \<Rightarrow> command_request list" where
  "queued_requests limit db =
     take limit (sort_by (\<lambda>a b. cqUpdatedAt a \<le> cqUpdatedAt b)
       (filter (\<lambda>r. cqStatus r = Approved) (cmRequests db)))"

definition reclaim_summary :: "queue_env \<Rightarrow> ustring" where
  "reclaim_summary env = u (''Approved but not-yet-running command detected: maintenance worker ''
     @ qeWorkerId env @ '' has re-claimed it and placed it in the background SSH execution queue.'')"

text \<open>One chunk: its members run side by side, here one after the other.\<close>

fun enqueue_each ::
  "queue_env \<Rightarrow> time \<Rightarrow> string list \<Rightarrow> command_db \<Rightarrow> command_db \<times> bool option list" where
  "enqueue_each env now [] db = (db, [])"
| "enqueue_each env now (i # is) db =
     (case enqueueApprovedCommandExecution env now i (reclaim_summary env) db of
        (db1, r) \<Rightarrow> (case enqueue_each env now is db1 of (db2, rs) \<Rightarrow> (db2, r # rs)))"

text \<open>A chunk with a failure ends the sweep with that failure.\<close>

fun enqueue_chunks ::
  "queue_env \<Rightarrow> time \<Rightarrow> string list list \<Rightarrow> nat \<Rightarrow> command_db \<Rightarrow> command_db \<times> nat option" where
  "enqueue_chunks env now [] enqueued db = (db, Some enqueued)"
| "enqueue_chunks env now (c # cs) enqueued db =
     (case enqueue_each env now c db of
        (db1, rs) \<Rightarrow>
          if None \<in> set rs then (db1, None)
          else enqueue_chunks env now cs (enqueued + length (filter (\<lambda>r. r = Some True) rs)) db1)"

definition recoverQueuedApprovedCommandRequests ::
  "queue_env \<Rightarrow> time \<Rightarrow> nat \<Rightarrow> command_db \<Rightarrow> command_db \<times> nat option" where
  "recoverQueuedApprovedCommandRequests env now limit db =
     enqueue_chunks env now
       (chunks (RECOVER_QUEUED_CONCURRENCY - 1) (map cqId (queued_requests limit db))) 0 db"

section \<open>What enqueueing does\<close>

text \<open>The job of a request: not taken yet, and its payload names the request.\<close>

definition execution_job_for :: "string \<Rightarrow> job \<Rightarrow> bool" where
  "execution_job_for reqId j \<longleftrightarrow> jType j = COMMAND_EXECUTION_JOB_TYPE \<and> jStatus j = PENDING
     \<and> jMaxAttempts j = 1
     \<and> (\<exists>p. parseCommandExecutionJobPayload (jPayload j) = Inr p \<and> epRequestId p = reqId)"

definition only_row :: "command_db \<Rightarrow> command_db \<Rightarrow> string \<Rightarrow> bool" where
  "only_row db db' i \<longleftrightarrow>
     filter (\<lambda>r. cqId r \<noteq> i) (cmRequests db') = filter (\<lambda>r. cqId r \<noteq> i) (cmRequests db)
     \<and> filter (\<lambda>t. ctRequestId t \<noteq> i) (cmTargets db') = filter (\<lambda>t. ctRequestId t \<noteq> i) (cmTargets db)"

lemma filter_map_other:
  "(\<And>r. p r \<Longrightarrow> \<not> q r) \<Longrightarrow> (\<And>r. p r \<Longrightarrow> \<not> q (f r)) \<Longrightarrow>
     filter q (map (\<lambda>r. if p r then f r else r) rows) = filter q rows"
  by (induction rows) auto

lemma find_first_map_if:
  assumes "\<And>r. key (f r) = key r"
  shows "find_first (\<lambda>r. key r = k) (map (\<lambda>r. if p r then f r else r) rows)
    = map_option (\<lambda>r. if p r then f r else r) (find_first (\<lambda>r. key r = k) rows)"
  using assms by (induction rows) (auto simp: find_first_def)

lemma find_update_requests:
  assumes "\<And>r. cqId (f r) = cqId r"
  shows "find_request (fst (update_requests now p f db)) i
    = map_option (\<lambda>r. if p r then (f r)\<lparr>cqUpdatedAt := now\<rparr> else r) (find_request db i)"
  unfolding find_request_def update_requests_simps by (rule find_first_map_if) (simp add: assms)

lemma find_request_cong:
  "cmRequests db' = cmRequests db \<Longrightarrow> find_request db' i = find_request db i"
  by (simp add: find_request_def)

lemma new_execution_job:
  assumes "trim reqId = reqId" "reqId \<noteq> []"
  shows "execution_job_for reqId (new_job newId fb (execution_job_input env now reqId s r) now)"
  using assms
  by (simp add: execution_job_for_def new_job_def execution_job_input_def sanitizeAttempts_def
      parseCommandExecutionJobPayload_def COMMAND_EXECUTION_JOB_TYPE_def)
    (simp add: trim_def js_space_def)

lemma claim_counts:
  assumes "find_request db i = Some r" "cqStatus r = Approved"
  shows "snd (claim_approved w now i db) \<noteq> 0"
  using find_first_Some [OF assms(1) [unfolded find_request_def]] assms(2)
  by (auto simp: claim_approved_def)

lemma claim_lost:
  assumes "snd (claim_approved w now i db) = 0"
  shows "claim_approved w now i db = (db, 0)"
proof -
  have "\<forall>r \<in> set (cmRequests db). \<not> (cqId r = i \<and> cqStatus r = Approved)"
    using assms by (simp add: claim_approved_def)
  then have "map (\<lambda>r. if cqId r = i \<and> cqStatus r = Approved
      then (r\<lparr>cqStatus := Running, cqWorkerId := Some w, cqHeartbeatAt := Some now\<rparr>)\<lparr>cqUpdatedAt := now\<rparr>
      else r) (cmRequests db) = cmRequests db"
    by (intro map_idI) auto
  then have "fst (claim_approved w now i db) = db"
    by (simp add: claim_approved_def update_requests_def update_many_pair)
  then show ?thesis using assms by (metis prod.collapse)
qed

text \<open>The request row and the state after the two stamps.\<close>

definition claimed_row :: "string \<Rightarrow> time \<Rightarrow> command_request \<Rightarrow> command_request" where
  "claimed_row w now r =
     r\<lparr>cqStatus := Running, cqWorkerId := Some w, cqHeartbeatAt := Some now, cqUpdatedAt := now\<rparr>"

lemma find_after_claim:
  assumes "find_request db i = Some r" "cqStatus r = Approved"
  shows "find_request (fst (claim_approved w now i db)) k
    = (if k = i then Some (claimed_row w now r) else find_request db k)"
proof -
  have "map_option (\<lambda>r. if cqId r = i \<and> cqStatus r = Approved then claimed_row w now r else r)
      (find_request db k) = (if k = i then Some (claimed_row w now r) else find_request db k)"
  proof (cases "k = i")
    case True
    have "cqId r = i"
      using find_first_Some [OF assms(1) [unfolded find_request_def]] by simp
    then show ?thesis using True assms by simp
  next
    case False
    have "cqId x = k" if "find_request db k = Some x" for x
      using find_first_Some [OF that [unfolded find_request_def]] by simp
    then show ?thesis using False by (cases "find_request db k") auto
  qed
  moreover have "find_request (fst (claim_approved w now i db)) k
      = map_option (\<lambda>r. if cqId r = i \<and> cqStatus r = Approved then claimed_row w now r else r)
          (find_request db k)"
    unfolding claim_approved_def by (subst find_update_requests) (simp_all add: claimed_row_def cong: if_cong)
  ultimately show ?thesis by simp
qed

lemma mark_simps [simp]:
  "cmRequests (markTargetsRunning i now db) = cmRequests db"
  "cmApprovals (markTargetsRunning i now db) = cmApprovals db"
  "cmJobs (markTargetsRunning i now db) = cmJobs db"
  "find_request (markTargetsRunning i now db) k = find_request db k"
  by (simp_all add: markTargetsRunning_def find_request_def)

lemma add_log_find [simp]: "find_request (add_log a b c db) k = find_request db k"
  by (simp add: find_request_def)

lemma claim_simps [simp]:
  "cmTargets (fst (claim_approved w now i db)) = cmTargets db"
  "cmApprovals (fst (claim_approved w now i db)) = cmApprovals db"
  "cmJobs (fst (claim_approved w now i db)) = cmJobs db"
  by (simp_all add: claim_approved_def)

lemma runnable_after_claim:
  assumes "find_request db i = Some r" "cqStatus r = Approved"
  shows "still_runnable (markTargetsRunning i now (fst (claim_approved w now i db))) i"
proof -
  show ?thesis
    using find_after_claim [OF assms, of w now i]
    by (simp add: still_runnable_def claimed_row_def status_lists)
qed

lemma enqueue_approved_eq:
  assumes r: "find_request db i = Some r" "cqStatus r = Approved" and i: "trim i = i" "i \<noteq> []"
  shows "enqueueApprovedCommandExecution env now i summary db =
    (let db2 = add_log i None summary
           (markTargetsRunning i now (fst (claim_approved (qeWorkerId env) now i db)))
     in if qeFails env i then (unclaim_targets i (unclaim_request now i db2), None)
        else (db2\<lparr>cmJobs := cmJobs db @ [new_job (qeJobId env i) (qeFallback env)
               (execution_job_input env now i
                 (''Command request '' @ i @ '' has been enqueued for background execution'')
                 (Some (claimed_row (qeWorkerId env) now r))) now]\<rparr>, Some True))"
proof -
  let ?c = "claim_approved (qeWorkerId env) now i db"
  obtain db1 n where c: "?c = (db1, n)" by (cases ?c)
  have n: "n \<noteq> 0" using claim_counts [OF r, of "qeWorkerId env" now] c by simp
  have j: "cmJobs db1 = cmJobs db"
    using arg_cong [OF c, of "\<lambda>x. cmJobs (fst x)"] by simp
  have run: "still_runnable (markTargetsRunning i now db1) i"
    using runnable_after_claim [OF r, of now "qeWorkerId env"] c by simp
  have f: "find_request (add_log i None summary (markTargetsRunning i now db1)) i
      = Some (claimed_row (qeWorkerId env) now r)"
    using find_after_claim [OF r, of "qeWorkerId env" now i] c by simp
  have f': "find_request db1 i = Some (claimed_row (qeWorkerId env) now r)" using f by simp
  show ?thesis
    using n run i by (simp add: enqueueApprovedCommandExecution_def c Let_def
        scheduleCommandExecution_def enqueueCommandExecutionJob_def enqueueJob_def f' j)
qed

lemma only_row_refl [simp]: "only_row db db i"
  by (simp add: only_row_def)

lemma only_row_trans: "only_row db db' i \<Longrightarrow> only_row db' db'' i \<Longrightarrow> only_row db db'' i"
  by (simp add: only_row_def)

lemma only_row_requests:
  assumes "\<And>r. p r \<Longrightarrow> cqId r = i" "\<And>r. cqId (f r) = cqId r"
  shows "only_row db (fst (update_requests now p f db)) i"
  using assms unfolding only_row_def update_requests_simps
  by (intro conjI filter_map_other refl) auto

lemma only_row_targets:
  assumes "\<And>t. p t \<Longrightarrow> ctRequestId t = i" "\<And>t. ctRequestId (g t) = ctRequestId t"
  shows "only_row db (fst (update_targets p g db)) i"
  using assms unfolding only_row_def update_targets_simps
  by (intro conjI filter_map_other refl) auto

lemma schedule_rows:
  "scheduleCommandExecution env now i db = Some db' \<Longrightarrow>
     cmRequests db' = cmRequests db \<and> cmTargets db' = cmTargets db \<and> cmApprovals db' = cmApprovals db"
  by (auto simp: scheduleCommandExecution_def enqueueCommandExecutionJob_def Let_def
      split: if_splits prod.splits)

lemma only_row_enqueue: "only_row db (fst (enqueueApprovedCommandExecution env now i summary db)) i"
proof -
  let ?w = "qeWorkerId env"
  let ?d1 = "fst (claim_approved ?w now i db)"
  let ?d2 = "markTargetsRunning i now ?d1"
  let ?d3 = "add_log i None summary ?d2"
  have 1: "only_row db ?d1 i" unfolding claim_approved_def by (rule only_row_requests) auto
  have "only_row ?d1 ?d2 i" unfolding markTargetsRunning_def by (rule only_row_targets) auto
  with 1 have 2: "only_row db ?d2 i" by (rule only_row_trans)
  then have 3: "only_row db ?d3 i" by (simp add: only_row_def)
  have "only_row ?d3 (unclaim_request now i ?d3) i"
    unfolding unclaim_request_def by (rule only_row_requests) auto
  moreover have "only_row (unclaim_request now i ?d3) (unclaim_targets i (unclaim_request now i ?d3)) i"
    unfolding unclaim_targets_def by (rule only_row_targets) auto
  ultimately have 5: "only_row db (unclaim_targets i (unclaim_request now i ?d3)) i"
    using 3 only_row_trans by blast
  have 4: "only_row db d i" if "scheduleCommandExecution env now i ?d3 = Some d" for d
    using schedule_rows [OF that] 3 by (simp add: only_row_def)
  show ?thesis
    unfolding enqueueApprovedCommandExecution_def Let_def case_prod_unfold
    using 1 2 4 5 by (cases "scheduleCommandExecution env now i ?d3") simp_all
qed

lemma undone:
  assumes "t \<in> set (targets_of (unclaim_targets i d) i)"
  shows "ctStatus t \<noteq> Running"
proof -
  have t: "t \<in> set (cmTargets (unclaim_targets i d))" "ctRequestId t = i"
    using assms by (simp_all only: in_targets_of)
  from t(1) obtain x
    where "t = (if ctRequestId x = i \<and> ctStatus x = Running then x\<lparr>ctStatus := Approved\<rparr> else x)"
    unfolding unclaim_targets_def by (rule updated_target)
  with t(2) show ?thesis by (cases "ctRequestId x = i \<and> ctStatus x = Running") auto
qed

lemma marked:
  assumes "t \<in> set (targets_of (markTargetsRunning i now d) i)"
  shows "ctStatus t \<notin> {PendingApproval, Approved}"
proof -
  let ?p = "\<lambda>x. ctRequestId x = i \<and> ctStatus x \<in> {PendingApproval, Approved}"
  have t: "t \<in> set (cmTargets (markTargetsRunning i now d))" "ctRequestId t = i"
    using assms by (simp_all only: in_targets_of)
  from t(1) obtain x where "t = (if ?p x then x\<lparr>ctStatus := Running, ctStartedAt := Some now\<rparr> else x)"
    unfolding markTargetsRunning_def by (rule updated_target)
  with t(2) show ?thesis by (cases "?p x") auto
qed


section \<open>What the sweep does\<close>

lemma find_first_filter_key:
  "k \<noteq> i \<Longrightarrow> find_first (\<lambda>r. key r = k) (filter (\<lambda>r. key r \<noteq> i) rows) = find_first (\<lambda>r. key r = k) rows"
  by (induction rows) (auto simp: find_first_def)

lemma find_other_row: "only_row db db' i \<Longrightarrow> k \<noteq> i \<Longrightarrow> find_request db' k = find_request db k"
proof -
  assume o': "only_row db db' i" and k: "k \<noteq> i"
  have "find_request db' k = find_first (\<lambda>r. cqId r = k) (filter (\<lambda>r. cqId r \<noteq> i) (cmRequests db'))"
    unfolding find_request_def by (rule find_first_filter_key [OF k, symmetric])
  also have "\<dots> = find_first (\<lambda>r. cqId r = k) (filter (\<lambda>r. cqId r \<noteq> i) (cmRequests db))"
    using o' by (simp only: only_row_def)
  also have "\<dots> = find_request db k"
    unfolding find_request_def by (rule find_first_filter_key [OF k])
  finally show ?thesis .
qed

text \<open>A request waiting to be queued whose job the database accepts.\<close>

definition ready :: "queue_env \<Rightarrow> command_db \<Rightarrow> string \<Rightarrow> bool" where
  "ready env db i \<longleftrightarrow> trim i = i \<and> i \<noteq> [] \<and> \<not> qeFails env i
     \<and> map_option cqStatus (find_request db i) = Some Approved"

definition queued_running :: "command_db \<Rightarrow> string \<Rightarrow> bool" where
  "queued_running db i \<longleftrightarrow> map_option cqStatus (find_request db i) = Some Running
     \<and> (\<exists>j \<in> set (cmJobs db). execution_job_for i j)"

lemma enqueue_ready:
  assumes "ready env db i"
  obtains db' where "enqueueApprovedCommandExecution env now i summary db = (db', Some True)"
    "queued_running db' i" "only_row db db' i" "set (cmJobs db) \<subseteq> set (cmJobs db')"
proof -
  from assms obtain r where r: "find_request db i = Some r" "cqStatus r = Approved"
    and i: "trim i = i" "i \<noteq> []" and ok: "\<not> qeFails env i"
    by (auto simp: ready_def)
  let ?w = "qeWorkerId env"
  let ?d = "add_log i None summary (markTargetsRunning i now (fst (claim_approved ?w now i db)))"
  let ?j = "new_job (qeJobId env i) (qeFallback env) (execution_job_input env now i
      (''Command request '' @ i @ '' has been enqueued for background execution'')
      (Some (claimed_row ?w now r))) now"
  let ?e = "?d\<lparr>cmJobs := cmJobs db @ [?j]\<rparr>"
  have e: "enqueueApprovedCommandExecution env now i summary db = (?e, Some True)"
    using ok by (simp add: enqueue_approved_eq [OF r i] Let_def)
  have "find_request ?e i = Some (claimed_row ?w now r)"
    using find_after_claim [OF r, of ?w now i] by (simp add: find_request_def)
  then have "queued_running ?e i"
    using new_execution_job [OF i] by (simp add: queued_running_def claimed_row_def)
  moreover have "only_row db ?e i" using only_row_enqueue [of db env now i summary] e by simp
  ultimately show ?thesis using that [OF e] by auto
qed

lemma enqueue_each_ready:
  "\<forall>i \<in> set is. ready env db i \<Longrightarrow> distinct is \<Longrightarrow>
     \<exists>db'. enqueue_each env now is db = (db', replicate (length is) (Some True))
       \<and> (\<forall>i \<in> set is. queued_running db' i)
       \<and> (\<forall>k. k \<notin> set is \<longrightarrow> find_request db' k = find_request db k)
       \<and> set (cmJobs db) \<subseteq> set (cmJobs db')"
proof (induction "is" arbitrary: db)
  case Nil
  then show ?case by simp
next
  case (Cons i "is")
  obtain db1 where 1: "enqueueApprovedCommandExecution env now i (reclaim_summary env) db = (db1, Some True)"
    "queued_running db1 i" "only_row db db1 i" "set (cmJobs db) \<subseteq> set (cmJobs db1)"
    using enqueue_ready [of env db i now "reclaim_summary env"] Cons.prems(1) by auto
  note same = find_other_row [OF 1(3)]
  have "ready env db1 k" if "k \<in> set is" for k
  proof -
    have "k \<noteq> i" "ready env db k" using that Cons.prems by auto
    then show ?thesis by (simp add: ready_def same)
  qed
  then obtain db' where 2: "enqueue_each env now is db1 = (db', replicate (length is) (Some True))"
    "\<forall>i \<in> set is. queued_running db' i" "\<forall>k. k \<notin> set is \<longrightarrow> find_request db' k = find_request db1 k"
    "set (cmJobs db1) \<subseteq> set (cmJobs db')"
    using Cons.IH [of db1] Cons.prems(2) by auto
  have "queued_running db' i"
  proof -
    have "find_request db' i = find_request db1 i" using 2(3) Cons.prems(2) by simp
    then show ?thesis using 1(2) 2(4) unfolding queued_running_def by auto
  qed
  then show ?case using 1 2 same by (auto simp: subset_iff)
qed

lemma enqueue_chunks_ready:
  "\<forall>i \<in> set (concat cs). ready env db i \<Longrightarrow> distinct (concat cs) \<Longrightarrow>
     \<exists>db'. enqueue_chunks env now cs n db = (db', Some (n + length (concat cs)))
       \<and> (\<forall>i \<in> set (concat cs). queued_running db' i)
       \<and> (\<forall>k. k \<notin> set (concat cs) \<longrightarrow> find_request db' k = find_request db k)
       \<and> set (cmJobs db) \<subseteq> set (cmJobs db')"
proof (induction cs arbitrary: db n)
  case Nil
  then show ?case by simp
next
  case (Cons c cs)
  obtain db1 where 1: "enqueue_each env now c db = (db1, replicate (length c) (Some True))"
    "\<forall>i \<in> set c. queued_running db1 i" "\<forall>k. k \<notin> set c \<longrightarrow> find_request db1 k = find_request db k"
    "set (cmJobs db) \<subseteq> set (cmJobs db1)"
    using enqueue_each_ready [of c env db now] Cons.prems by auto
  have disj: "set c \<inter> set (concat cs) = {}" using Cons.prems(2) by auto
  have "ready env db1 k" if "k \<in> set (concat cs)" for k
  proof -
    have "k \<notin> set c" "ready env db k" using that disj Cons.prems(1) by auto
    then show ?thesis using 1(3) by (simp add: ready_def)
  qed
  then obtain db' where 2: "enqueue_chunks env now cs (n + length c) db1 = (db', Some (n + length c + length (concat cs)))"
    "\<forall>i \<in> set (concat cs). queued_running db' i"
    "\<forall>k. k \<notin> set (concat cs) \<longrightarrow> find_request db' k = find_request db1 k"
    "set (cmJobs db1) \<subseteq> set (cmJobs db')"
    using Cons.IH [of db1 "n + length c"] Cons.prems(2) by auto
  have "queued_running db' i" if "i \<in> set c" for i
  proof -
    have "find_request db' i = find_request db1 i" using 2(3) disj that by auto
    then show ?thesis using 1(2) 2(4) that unfolding queued_running_def by auto
  qed
  moreover have "enqueue_chunks env now (c # cs) n db = (db', Some (n + length (concat (c # cs))))"
    using 1(1) 2(1) by (simp add: add.assoc)
  ultimately show ?case using 1 2 by (auto simp: subset_iff)
qed

interpretation queued_order: total_comparator "\<lambda>a b. cqUpdatedAt a \<le> cqUpdatedAt b"
  by unfold_locales auto

lemma queued_requests_distinct:
  assumes "distinct_keys cqId (cmRequests db)"
  shows "distinct (map cqId (queued_requests limit db))"
proof -
  have "distinct_keys cqId (filter (\<lambda>r. cqStatus r = Approved) (cmRequests db))"
    using assms by (rule distinct_keys_filter)
  then have "distinct (map cqId (sort_by (\<lambda>a b. cqUpdatedAt a \<le> cqUpdatedAt b)
      (filter (\<lambda>r. cqStatus r = Approved) (cmRequests db))))"
    unfolding distinct_keys_def by (metis mset_map mset_sort_by mset_eq_imp_distinct_iff)
  then show ?thesis by (simp add: queued_requests_def take_map [symmetric])
qed

text \<open>
  The sweep loses no approved request: while the job table accepts inserts, the requests it
  takes - the oldest \<open>limit\<close> approved ones, all of them when there are no more - are running
  afterwards, each with an untaken job of its own, and it reports their number.
\<close>

theorem sweep_queues_oldest:
  assumes d: "distinct_keys cqId (cmRequests db)"
    and ids: "\<forall>r \<in> set (cmRequests db). trim (cqId r) = cqId r \<and> cqId r \<noteq> [] \<and> \<not> qeFails env (cqId r)"
    and s: "recoverQueuedApprovedCommandRequests env now limit db = (db', n)"
  shows "n = Some (min limit (count_where (\<lambda>r. cqStatus r = Approved) (cmRequests db)))
    \<and> (\<forall>r \<in> set (queued_requests limit db). queued_running db' (cqId r))
    \<and> (\<forall>r \<in> set (cmRequests db). cqStatus r = Approved \<longrightarrow>
         queued_running db' (cqId r) \<or> (\<forall>q \<in> set (queued_requests limit db). cqUpdatedAt q \<le> cqUpdatedAt r))"
proof -
  let ?le = "\<lambda>a b. cqUpdatedAt a \<le> cqUpdatedAt b"
  let ?all = "filter (\<lambda>r. cqStatus r = Approved) (cmRequests db)"
  let ?q = "queued_requests limit db"
  have m: "r \<in> set (cmRequests db) \<and> cqStatus r = Approved" if "r \<in> set ?q" for r
    using that unfolding queued_requests_def by (auto dest: in_set_takeD)
  have "ready env db (cqId r)" if "r \<in> set ?q" for r
  proof -
    have r: "r \<in> set (cmRequests db)" "cqStatus r = Approved" using m [OF that] by auto
    obtain x where x: "find_request db (cqId r) = Some x"
      using r(1) find_first_None [of "\<lambda>x. cqId x = cqId r" "cmRequests db"]
      by (cases "find_request db (cqId r)") (auto simp: find_request_def)
    then have "x = r"
      using find_first_Some [of "\<lambda>x. cqId x = cqId r" "cmRequests db" x] r(1)
        distinct_keys_unique [OF d, of x r] by (simp add: find_request_def)
    then show ?thesis using x r ids by (simp add: ready_def)
  qed
  then obtain db1 where e: "enqueue_chunks env now (chunks (RECOVER_QUEUED_CONCURRENCY - 1) (map cqId ?q)) 0 db
        = (db1, Some (length ?q))" and run: "\<forall>i \<in> set (map cqId ?q). queued_running db1 i"
    using enqueue_chunks_ready [of "chunks (RECOVER_QUEUED_CONCURRENCY - 1) (map cqId ?q)" env db now 0]
      queued_requests_distinct [OF d, of limit] by auto
  have n: "db' = db1" "n = Some (length ?q)"
    using s e by (simp_all add: recoverQueuedApprovedCommandRequests_def)
  have len: "length ?q = min limit (count_where (\<lambda>r. cqStatus r = Approved) (cmRequests db))"
    by (simp add: queued_requests_def count_where_def min.commute)
  have old: "\<forall>q \<in> set ?q. cqUpdatedAt q \<le> cqUpdatedAt r"
    if "r \<in> set (cmRequests db)" "cqStatus r = Approved" "r \<notin> set ?q" for r
  proof -
    have "r \<in> set (sort_by ?le ?all)" using that by simp
    then have "r \<in> set (take limit (sort_by ?le ?all)) \<or> r \<in> set (drop limit (sort_by ?le ?all))"
      by (metis Un_iff append_take_drop_id set_append)
    then have "r \<in> set (drop limit (sort_by ?le ?all))" using that(3) by (simp add: queued_requests_def)
    then show ?thesis
      unfolding queued_requests_def using queued_order.sort_by_take_le by blast
  qed
  show ?thesis using n len run old by auto
qed

section \<open>Witnesses\<close>

definition sample_request :: "string \<Rightarrow> command_status \<Rightarrow> time \<Rightarrow> command_request" where
  "sample_request i st tm = \<lparr>cqId = i, cqTitle = u ''Restart'', cqCommand = u ''reboot'', cqReason = None,
     cqStatus = st, cqInitiatedBy = AssistantActor, cqRequesterId = ''u1'', cqWorkerId = None,
     cqHeartbeatAt = None, cqIdempotencyKey = None, cqCreatedAt = tm, cqUpdatedAt = tm,
     cqTeamId = Some ''t1''\<rparr>"

definition sample_target :: "string \<Rightarrow> string \<Rightarrow> command_status \<Rightarrow> command_target" where
  "sample_target i reqId st = \<lparr>ctId = i, ctRequestId = reqId, ctServerId = ''s1'', ctStatus = st,
     ctStdout = None, ctStderr = None, ctExitCode = None, ctStartedAt = None, ctFinishedAt = None,
     ctOutcomeUnknown = False\<rparr>"

definition sample_commands :: command_db where
  "sample_commands = \<lparr>
     cmRequests = [sample_request ''r1'' Approved 30, sample_request ''r2'' PendingApproval 10,
                   sample_request ''r3'' Approved 20],
     cmTargets = [sample_target ''c1'' ''r1'' Approved, sample_target ''c2'' ''r2'' PendingApproval],
     cmApprovals = [], cmLogs = [], cmJobs = []\<rparr>"

definition sample_queue :: "(string \<Rightarrow> bool) \<Rightarrow> queue_env" where
  "sample_queue fails = \<lparr>qeWorkerId = ''w'', qeJobId = (\<lambda>i. ''j'' @ i), qeFails = fails, qeFallback = 3,
     qeIntText = (\<lambda>_. ''0''), qeIsoText = (\<lambda>_. ''now'')\<rparr>"

lemma sample_found:
  "find_request sample_commands ''r1'' = Some (sample_request ''r1'' Approved 30)"
  by code_simp


theorem sweep_queues_oldest_witness:
  "snd (recoverQueuedApprovedCommandRequests (sample_queue (\<lambda>_. False)) 50 1 sample_commands) = Some 1
   \<and> queued_running (fst (recoverQueuedApprovedCommandRequests (sample_queue (\<lambda>_. False)) 50 1 sample_commands)) ''r3''"
proof -
  have d: "distinct_keys cqId (cmRequests sample_commands)" by code_simp
  have ids: "\<forall>r \<in> set (cmRequests sample_commands). trim (cqId r) = cqId r \<and> cqId r \<noteq> []
      \<and> \<not> qeFails (sample_queue (\<lambda>_. False)) (cqId r)"
    by code_simp
  obtain db' n where s: "recoverQueuedApprovedCommandRequests (sample_queue (\<lambda>_. False)) 50 1 sample_commands = (db', n)"
    by fastforce
  have q: "queued_requests 1 sample_commands = [sample_request ''r3'' Approved 20]" by code_simp
  have c: "count_where (\<lambda>r. cqStatus r = Approved) (cmRequests sample_commands) = 2" by code_simp
  show ?thesis
    using sweep_queues_oldest [OF d ids s] by (simp add: s q c sample_request_def del: One_nat_def)
qed

end
