(* ===== verification/Command_Execution.thy ===== *)
theory Command_Execution
  imports Command_Queue
begin

text \<open>
  The execution of a queued command: \<^verbatim>\<open>src/lib/command/service-execution.ts\<close> and the job
  handler of \<^verbatim>\<open>src/lib/command/execution-worker.ts\<close>.

  The accounts, the remote agents and the SSH transport are the world of a run
  (\<open>exec_world\<close>): what the agent and the SSH call answer for a target, whether the run was
  aborted meanwhile, and what the other processes do to the tables while a command runs
  (\<open>ewMeanwhile\<close>).  An exception that leaves \<open>executeTarget\<close> (a credential that cannot be
  decrypted) is \<open>ewThrows\<close>; it is raised before the target is written.  Audit records and
  notifications are not kept.
\<close>

section \<open>The world of a run\<close>

record target_host =
  esId :: string
  esName :: ustring
  esHost :: ustring
  esPort :: ustring
  esConnectionType :: string
  esManagementMode :: string
  esOperatingSystem :: "string option"
  esPrivateKey :: "string option"
  esPassword :: "string option"
  esHostKey :: "string option"

record ssh_result =
  srStdout :: ustring
  srStderr :: ustring
  srExitCode :: int
  srCancelled :: bool
  srOutcomeUnknown :: bool

text \<open>\<open>Raised message unconfirmed\<close>: the call threw; \<open>unconfirmed\<close> for the agent's
  \<^verbatim>\<open>CommandCancellationUnconfirmedError\<close>.\<close>

datatype 'a call = Returned 'a | Raised ustring bool

record exec_world =
  ewAuth :: auth_db
  ewServers :: "server_row list"
  ewServerOf :: "string \<Rightarrow> target_host"
  ewAgent :: "string \<Rightarrow> ssh_result option call"
  ewSsh :: "string \<Rightarrow> ssh_result call"
  ewAborted :: "string \<Rightarrow> bool"
  ewThrows :: "string \<Rightarrow> ustring option"
  ewMeanwhile :: "string \<Rightarrow> command_db \<Rightarrow> command_db"

fun status_text :: "command_status \<Rightarrow> string" where
  "status_text PendingApproval = ''PENDING_APPROVAL''"
| "status_text Approved = ''APPROVED''"
| "status_text Rejected = ''REJECTED''"
| "status_text Running = ''RUNNING''"
| "status_text Cancelling = ''CANCELLING''"
| "status_text Completed = ''COMPLETED''"
| "status_text Failed = ''FAILED''"
| "status_text Cancelled = ''CANCELLED''"

definition server_label :: "target_host \<Rightarrow> ustring" where
  "server_label s = esName s @ u '' ('' @ esHost s @ u '':'' @ esPort s @ u '')''"

section \<open>Writes to a target\<close>

text \<open>Only a target that is not finished is written (the compare-and-set of every path).\<close>

definition live_target :: "string \<Rightarrow> command_target \<Rightarrow> bool" where
  "live_target tid t \<longleftrightarrow> ctId t = tid \<and> ctStatus t \<in> set LIVE_STATUSES"

definition failed_row :: "time \<Rightarrow> ustring \<Rightarrow> command_target \<Rightarrow> command_target" where
  "failed_row now summary t =
     t\<lparr>ctStatus := Failed, ctStdout := None, ctStderr := Some summary, ctExitCode := Some 255,
       ctFinishedAt := Some now\<rparr>"

definition failTarget ::
  "time \<Rightarrow> string \<Rightarrow> string \<Rightarrow> target_host \<Rightarrow> ustring \<Rightarrow> command_db \<Rightarrow> command_db" where
  "failTarget now reqId tid s summary db =
     (case update_targets (live_target tid) (failed_row now summary) db of
        (db1, n) \<Rightarrow> if 0 < n then add_log reqId (Some (esId s)) summary db1 else db1)"

definition cancel_before_dispatch :: "time \<Rightarrow> string \<Rightarrow> command_db \<Rightarrow> command_db" where
  "cancel_before_dispatch now tid db =
     fst (update_targets (live_target tid)
       (\<lambda>t. t\<lparr>ctStatus := Cancelled, ctExitCode := Some 130, ctStderr := Some (u ''Cancelled before dispatch''),
          ctFinishedAt := Some now\<rparr>) db)"

definition result_status :: "ssh_result \<Rightarrow> command_status" where
  "result_status r =
     (if srCancelled r then Cancelled else if srExitCode r = 0 then Completed else Failed)"

definition or_null :: "'a list \<Rightarrow> 'a list option" where
  "or_null s = (if s = [] then None else Some s)"

definition result_row :: "time \<Rightarrow> ssh_result \<Rightarrow> command_target \<Rightarrow> command_target" where
  "result_row now r t =
     t\<lparr>ctStatus := result_status r, ctStdout := or_null (srStdout r), ctStderr := or_null (srStderr r),
       ctExitCode := Some (if srCancelled r then 130 else srExitCode r), ctFinishedAt := Some now,
       ctOutcomeUnknown := srOutcomeUnknown r\<rparr>"

definition result_summary :: "(int \<Rightarrow> string) \<Rightarrow> target_host \<Rightarrow> ssh_result \<Rightarrow> ustring" where
  "result_summary intText s r =
     (if srCancelled r then u ''Command on '' @ server_label s @ u '' was cancelled by the operator.''
      else if srExitCode r = 0 then u ''Command completed on '' @ server_label s @ u '' with exit code 0.''
      else u ''Command failed on '' @ server_label s @ u '' with exit code '' @ u (intText (srExitCode r)) @ u ''.'')"

text \<open>What is recorded when the transport has ended; \<open>True\<close> when the command succeeded.\<close>

definition write_result ::
  "(int \<Rightarrow> string) \<Rightarrow> time \<Rightarrow> string \<Rightarrow> string \<Rightarrow> target_host \<Rightarrow> ssh_result \<Rightarrow> command_db
     \<Rightarrow> command_db \<times> bool" where
  "write_result intText now reqId tid s r db =
     (case update_targets (live_target tid) (result_row now r) db of
        (db1, n) \<Rightarrow>
          if n = 0
          then (add_log reqId (Some (esId s)) (u ''SSH process for '' @ server_label s
             @ u '' finished after the target was already terminal (cancel/recovery); left existing status unchanged.'') db1, False)
          else (add_log reqId (Some (esId s)) (result_summary intText s r) db1, result_status r = Completed))"

definition executor_threw ::
  "time \<Rightarrow> string \<Rightarrow> string \<Rightarrow> target_host \<Rightarrow> ustring \<Rightarrow> command_db \<Rightarrow> command_db" where
  "executor_threw now reqId tid s reason db =
     (let summary = u ''Command executor threw on '' @ server_label s @ u '': '' @ reason in
      add_log reqId (Some (esId s)) (take 2000 summary)
        (fst (update_targets (\<lambda>t. ctId t = tid \<and> ctStatus t \<in> {Running, Cancelling})
          (\<lambda>t. t\<lparr>ctStatus := Failed, ctStderr := Some (take 4000 summary), ctExitCode := Some 255,
             ctFinishedAt := Some now\<rparr>) db)))"

interpretation fail_target: target_update "live_target tid" "failed_row now summary"
  by unfold_locales (auto simp: live_target_def failed_row_def same_target_def status_lists)

interpretation cancel_before: target_update "live_target tid"
  "\<lambda>t. t\<lparr>ctStatus := Cancelled, ctExitCode := Some 130, ctStderr := Some (u ''Cancelled before dispatch''),
     ctFinishedAt := Some now\<rparr>"
  by unfold_locales (auto simp: live_target_def same_target_def status_lists)

interpretation write_result: target_update "live_target tid" "result_row now r"
  by unfold_locales (auto simp: live_target_def result_row_def same_target_def status_lists)

interpretation executor_threw: target_update "\<lambda>t. ctId t = tid \<and> ctStatus t \<in> {Running, Cancelling}"
  "\<lambda>t. t\<lparr>ctStatus := Failed, ctStderr := Some msg, ctExitCode := Some 255, ctFinishedAt := Some now\<rparr>"
  by unfold_locales (auto simp: same_target_def status_lists)

section \<open>executeTarget\<close>

text \<open>The live read before anything is sent.\<close>

datatype gate = GateSkip | GateCancel | GateDeny string | GateDispatch

definition approved_by :: "command_db \<Rightarrow> string \<Rightarrow> command_approval list" where
  "approved_by db reqId = filter (\<lambda>a. caRequestId a = reqId \<and> caApproved a) (cmApprovals db)"

definition target_gate :: "auth_db \<Rightarrow> server_row list \<Rightarrow> command_db \<Rightarrow> string \<Rightarrow> string \<Rightarrow> gate" where
  "target_gate auth servers db tid serverId =
     (case find_target db tid of
        None \<Rightarrow> GateSkip
      | Some t \<Rightarrow>
          (case find_request db (ctRequestId t) of
             None \<Rightarrow> GateSkip
           | Some r \<Rightarrow>
               if ctStatus t \<in> set TERMINAL_STATUSES \<or> cqStatus r \<in> set TERMINAL_STATUSES then GateSkip
               else if ctStatus t = Cancelling \<or> cqStatus r = Cancelling then GateCancel
               else case assertRequesterMayExecuteCommand auth servers (cqRequesterId r) (cqTeamId r)
                      (Some serverId) (Some (approved_by db (ctRequestId t) = [])) of
                      Inl reason \<Rightarrow> GateDeny reason
                    | Inr _ \<Rightarrow> GateDispatch))"

definition skip_summary :: "target_host \<Rightarrow> command_db \<Rightarrow> string \<Rightarrow> ustring" where
  "skip_summary s db tid =
     (let t = find_target db tid;
          r = (case t of None \<Rightarrow> None | Some t \<Rightarrow> find_request db (ctRequestId t))
      in u ''Skipped SSH for '' @ server_label s @ u '': target/request already terminal (''
         @ u (case t of None \<Rightarrow> ''missing'' | Some t \<Rightarrow> status_text (ctStatus t)) @ u '' / ''
         @ u (case r of None \<Rightarrow> ''missing'' | Some r \<Rightarrow> status_text (cqStatus r)) @ u '').'')"

text \<open>The channel: the agent's answer, SSH, or a refusal.\<close>

datatype channel = ViaAgent ssh_result | ViaSsh | NoChannel ustring

fun agent_result :: "ssh_result option call \<Rightarrow> ssh_result option" where
  "agent_result (Returned r) = r"
| "agent_result (Raised msg unconfirmed) =
     Some \<lparr>srStdout = [], srStderr = msg, srExitCode = 255, srCancelled = False, srOutcomeUnknown = unconfirmed\<rparr>"

fun ssh_answer :: "bool \<Rightarrow> ssh_result call \<Rightarrow> ssh_result" where
  "ssh_answer aborted (Returned r) = r"
| "ssh_answer aborted (Raised msg _) =
     \<lparr>srStdout = [], srStderr = msg, srExitCode = (if aborted then 130 else 255), srCancelled = aborted,
      srOutcomeUnknown = False\<rparr>"

definition choose_channel :: "target_host \<Rightarrow> ssh_result option \<Rightarrow> channel" where
  "choose_channel s agent =
     (case (if esManagementMode s = ''AGENT'' then agent else None) of
        Some r \<Rightarrow> ViaAgent r
      | None \<Rightarrow>
          if esOperatingSystem s = Some ''WINDOWS''
          then NoChannel (u ''Agent unavailable on '' @ esName s @ u ''; Windows nodes have no SSH fallback channel.'')
          else if esConnectionType s = ''SSH_KEY'' \<and> \<not> truthy (esPrivateKey s)
          then NoChannel (u ''backend.command.sshKeyLacksPrivateKey'')
          else if esConnectionType s = ''PASSWORD'' \<and> \<not> truthy (esPassword s)
          then NoChannel (u ''backend.command.passwordMissing'')
          else if \<not> truthy (map_option trim (esHostKey s))
          then NoChannel (u ''backend.command.hostKeyNotPinnedRefused'')
          else ViaSsh)"

definition agent_log :: "string \<Rightarrow> target_host \<Rightarrow> ssh_result option \<Rightarrow> command_db \<Rightarrow> command_db" where
  "agent_log reqId s agent db =
     (if esManagementMode s = ''AGENT''
      then add_log reqId (Some (esId s))
        (if agent \<noteq> None then u ''Command dispatched through Agent on '' @ esName s @ u ''.''
         else u ''Agent unavailable on '' @ esName s @ u ''; falling back to direct SSH.'') db
      else db)"

definition executeTarget ::
  "exec_world \<Rightarrow> (int \<Rightarrow> string) \<Rightarrow> time \<Rightarrow> string \<Rightarrow> string \<Rightarrow> target_host \<Rightarrow> command_db
     \<Rightarrow> command_db \<times> bool" where
  "executeTarget w intText now reqId tid s db =
     (case target_gate (ewAuth w) (ewServers w) db tid (esId s) of
        GateSkip \<Rightarrow> (add_log reqId (Some (esId s)) (skip_summary s db tid) db, False)
      | GateCancel \<Rightarrow> (cancel_before_dispatch now tid db, False)
      | GateDeny reason \<Rightarrow> (failTarget now reqId tid s (u ''Command dispatch denied: '' @ u reason) db, False)
      | GateDispatch \<Rightarrow>
          let agent = agent_result (ewAgent w tid);
              db1 = agent_log reqId s agent (ewMeanwhile w tid db)
          in (case choose_channel s agent of
                NoChannel summary \<Rightarrow> (failTarget now reqId tid s summary db1, False)
              | ViaAgent r \<Rightarrow> write_result intText now reqId tid s r db1
              | ViaSsh \<Rightarrow> write_result intText now reqId tid s (ssh_answer (ewAborted w tid) (ewSsh w tid)) db1))"

section \<open>executeTargets\<close>

definition execute_settled ::
  "exec_world \<Rightarrow> (int \<Rightarrow> string) \<Rightarrow> time \<Rightarrow> string \<Rightarrow> command_target \<Rightarrow> command_db \<Rightarrow> command_db \<times> bool" where
  "execute_settled w intText now reqId t db =
     (let s = ewServerOf w (ctServerId t) in
      case ewThrows w (ctId t) of
        Some reason \<Rightarrow> (executor_threw now reqId (ctId t) s reason db, False)
      | None \<Rightarrow> executeTarget w intText now reqId (ctId t) s db)"

fun execute_all ::
  "exec_world \<Rightarrow> (int \<Rightarrow> string) \<Rightarrow> time \<Rightarrow> string \<Rightarrow> command_target list \<Rightarrow> command_db \<Rightarrow> command_db \<times> nat" where
  "execute_all w intText now reqId [] db = (db, 0)"
| "execute_all w intText now reqId (t # ts) db =
     (case execute_settled w intText now reqId t db of
        (db1, ok) \<Rightarrow> (case execute_all w intText now reqId ts db1 of
           (db2, n) \<Rightarrow> (db2, if ok then Suc n else n)))"

definition EXECUTE_TARGETS_PAGE :: nat where "EXECUTE_TARGETS_PAGE = 500"

definition executeTargets ::
  "exec_world \<Rightarrow> (int \<Rightarrow> string) \<Rightarrow> time \<Rightarrow> string \<Rightarrow> command_db \<Rightarrow> command_db \<times> nat \<times> nat" where
  "executeTargets w intText now reqId db =
     (let targets = fetch_pages (EXECUTE_TARGETS_PAGE - 1)
            (sort_by (\<lambda>a b. str_le (ctId a) (ctId b)) (targets_of db reqId))
      in case execute_all w intText now reqId targets db of (db1, n) \<Rightarrow> (db1, length targets, n))"

section \<open>Finalizing a request\<close>

definition heartbeatRunningCommandRequest :: "string \<Rightarrow> time \<Rightarrow> string \<Rightarrow> command_db \<Rightarrow> command_db" where
  "heartbeatRunningCommandRequest worker now reqId db =
     fst (update_requests now (\<lambda>r. cqId r = reqId \<and> cqStatus r \<in> {Running, Cancelling})
       (\<lambda>r. r\<lparr>cqWorkerId := Some worker, cqHeartbeatAt := Some now\<rparr>) db)"

text \<open>The release of a request in a final status, guarded by the statuses it may come from.\<close>

definition release_as :: "command_status \<Rightarrow> command_request \<Rightarrow> command_request" where
  "release_as st r = r\<lparr>cqStatus := st, cqWorkerId := None, cqHeartbeatAt := None\<rparr>"

definition finish_request ::
  "time \<Rightarrow> string \<Rightarrow> command_status set \<Rightarrow> command_status \<Rightarrow> command_db \<Rightarrow> command_db \<times> nat" where
  "finish_request now reqId from st =
     update_requests now (\<lambda>r. cqId r = reqId \<and> cqStatus r \<in> from) (release_as st)"

datatype finish_decision = StopCancelled | StopWith command_status

definition final_decision :: "command_status \<Rightarrow> command_status list \<Rightarrow> nat \<Rightarrow> nat \<Rightarrow> finish_decision" where
  "final_decision latest targetStatuses totalCount completedCount =
     (if (targetStatuses \<noteq> [] \<and> (\<forall>st \<in> set targetStatuses. st = Cancelled))
         \<or> (latest = Cancelling \<and> Failed \<notin> set targetStatuses) then StopCancelled
      else if 0 < totalCount \<and> completedCount = totalCount then StopWith Completed
      else StopWith Failed)"

definition cancelled_summary :: ustring where
  "cancelled_summary = u ''Background SSH execution stopped because the operator cancelled the command request.''"

definition final_summary :: "(int \<Rightarrow> string) \<Rightarrow> nat \<Rightarrow> nat \<Rightarrow> ustring" where
  "final_summary intText totalCount completedCount =
     (let ratio = u (intText (int completedCount)) @ u ''/'' @ u (intText (int totalCount)) @ u '' targets''
      in if 0 < totalCount \<and> completedCount = totalCount
         then u ''Background SSH execution completed '' @ ratio @ u ''.''
         else if 0 < completedCount
         then u ''Background SSH execution only completed '' @ ratio @ u ''; please check failed node logs.''
         else if 0 < totalCount
         then u ''Background SSH execution failed; '' @ u (intText (int totalCount)) @ u '' targets all incomplete.''
         else u ''Background SSH execution found no executable targets.'')"

text \<open>
  The writes after the targets have settled.  \<open>latest\<close> and \<open>statuses\<close> are what the re-read saw,
  \<open>between\<close> is what other processes do between that read and the first write.
\<close>

definition finalize_writes ::
  "(int \<Rightarrow> string) \<Rightarrow> time \<Rightarrow> string \<Rightarrow> command_status \<Rightarrow> command_status list \<Rightarrow> nat \<Rightarrow> nat
     \<Rightarrow> command_db \<Rightarrow> command_db" where
  "finalize_writes intText now reqId latest statuses totalCount completedCount db =
     (case final_decision latest statuses totalCount completedCount of
        StopCancelled \<Rightarrow>
          fst (finish_request now reqId {Running, Cancelling, Approved} Cancelled
            (add_log reqId None cancelled_summary db))
      | StopWith st \<Rightarrow>
          (case finish_request now reqId
                  ({Running, Approved} \<union> (if latest = Cancelling then {Cancelling} else {})) st
                  (add_log reqId None (final_summary intText totalCount completedCount) db) of
             (db1, n) \<Rightarrow>
               if n = 0
               then fst (finish_request now reqId {Cancelling}
                      (if Failed \<in> set statuses then Failed else Cancelled) db1)
               else db1))"

text \<open>\<open>None\<close> when the request is missing, which throws.\<close>

definition executeAndFinalizeCommand ::
  "exec_world \<Rightarrow> (command_db \<Rightarrow> command_db) \<Rightarrow> (int \<Rightarrow> string) \<Rightarrow> string \<Rightarrow> time \<Rightarrow> string
     \<Rightarrow> command_db \<Rightarrow> command_db \<times> command_status option" where
  "executeAndFinalizeCommand w between intText worker now reqId db =
     (case find_request db reqId of
        None \<Rightarrow> (db, None)
      | Some request \<Rightarrow>
          if cqStatus request = Cancelled then (db, Some Cancelled)
          else
            (case executeTargets w intText now reqId (heartbeatRunningCommandRequest worker now reqId db) of
               (db1, totalCount, completedCount) \<Rightarrow>
                 (case find_request db1 reqId of
                    None \<Rightarrow> (db1, None)
                  | Some latest \<Rightarrow>
                      if cqStatus latest = Cancelled then (db1, Some Cancelled)
                      else
                        let db2 = finalize_writes intText now reqId (cqStatus latest)
                              (map ctStatus (targets_of db1 reqId)) totalCount completedCount (between db1)
                        in (db2, map_option cqStatus (find_request db2 reqId)))))"

section \<open>A failed executor\<close>

definition fail_live_targets :: "time \<Rightarrow> string \<Rightarrow> ustring \<Rightarrow> bool \<Rightarrow> command_db \<Rightarrow> command_db" where
  "fail_live_targets now reqId msg unknown db =
     fst (update_targets (\<lambda>t. ctRequestId t = reqId \<and> ctStatus t \<in> set LIVE_STATUSES)
       (\<lambda>t. t\<lparr>ctStatus := Failed, ctStderr := Some msg, ctExitCode := Some 255, ctFinishedAt := Some now,
          ctOutcomeUnknown := unknown \<or> ctOutcomeUnknown t\<rparr>) db)"

definition markCommandExecutionFailed :: "time \<Rightarrow> string \<Rightarrow> ustring \<Rightarrow> command_db \<Rightarrow> command_db" where
  "markCommandExecutionFailed now reqId message db =
     (case finish_request now reqId {Running, Cancelling, Approved} Failed db of
        (db1, n) \<Rightarrow>
          if n = 0 then db1
          else add_log reqId None (u ''Command background executor startup failed: '' @ message)
                 (fail_live_targets now reqId message False db1))"

interpretation heartbeat_request: request_update
  "\<lambda>r. cqId r = reqId \<and> cqStatus r \<in> {Running, Cancelling}"
  "\<lambda>r. r\<lparr>cqWorkerId := Some worker, cqHeartbeatAt := Some now\<rparr>"
  by unfold_locales (auto simp: same_request_def status_lists)

lemma finish_update:
  assumes "from \<subseteq> {Running, Cancelling, Approved}" "st \<in> {Completed, Failed, Cancelled}"
  shows "request_update (\<lambda>r. cqId r = reqId \<and> cqStatus r \<in> from) (release_as st)"
  using assms by unfold_locales (auto simp: same_request_def release_as_def status_lists)

interpretation fail_live: target_update
  "\<lambda>t. ctRequestId t = reqId \<and> ctStatus t \<in> set LIVE_STATUSES"
  "\<lambda>t. t\<lparr>ctStatus := Failed, ctStderr := Some msg, ctExitCode := Some 255, ctFinishedAt := Some now,
     ctOutcomeUnknown := unknown \<or> ctOutcomeUnknown t\<rparr>"
  by unfold_locales (auto simp: same_target_def status_lists)

section \<open>execution-worker.ts\<close>

text \<open>
  What the worker does with a claimed job.  \<open>thrown\<close> is the message when the execution throws
  (with the tables it left behind), \<open>markFails\<close> whether the clean-up throws in turn.
\<close>

definition with_jobs :: "command_db \<Rightarrow> job list \<Rightarrow> command_db" where
  "with_jobs db jobs = db\<lparr>cmJobs := jobs\<rparr>"

definition fail_claimed :: "string \<Rightarrow> string \<Rightarrow> string \<Rightarrow> time \<Rightarrow> command_db \<Rightarrow> command_db" where
  "fail_claimed jobId worker msg now db =
     with_jobs db (fst (failJob jobId worker msg None now (cmJobs db) (cmJobs db)))"

definition handleClaimedJob ::
  "exec_world \<Rightarrow> (command_db \<Rightarrow> command_db) \<Rightarrow> (int \<Rightarrow> string) \<Rightarrow> string \<Rightarrow> string \<Rightarrow> int \<Rightarrow> time
     \<Rightarrow> (command_db \<times> string) option \<Rightarrow> bool \<Rightarrow> job \<Rightarrow> command_db \<Rightarrow> command_db" where
  "handleClaimedJob w between intText worker jobWorker leaseMs now thrown markFails job db =
     (case parseCommandExecutionJobPayload (jPayload job) of
        Inl message \<Rightarrow> fail_claimed (jId job) jobWorker (take 2000 message) now db
      | Inr payload \<Rightarrow>
          let reqId = epRequestId payload;
              beat = with_jobs db (fst (heartbeatJob (jId job) jobWorker (Some leaseMs)
                (Some (Some (''Dispatching command request '' @ reqId))) now (cmJobs db)));
              failed = (\<lambda>d message. fail_claimed (jId job) jobWorker (take 2000 message) now
                (if markFails then d else markCommandExecutionFailed now reqId (u message) d))
          in case thrown of
               Some (d, message) \<Rightarrow> failed d message
             | None \<Rightarrow>
                 (case executeAndFinalizeCommand w between intText worker now reqId beat of
                    (d, None) \<Rightarrow> failed d ''Command request not found''
                  | (d, Some st) \<Rightarrow>
                      if st = Failed \<or> st = Cancelled
                      then fail_claimed (jId job) jobWorker
                        (''Command request '' @ reqId @ '' ended with '' @ status_text st) now d
                      else with_jobs d (fst (completeJob (jId job) jobWorker
                        (Some (JObj [(''commandRequestId'', JStr reqId), (''status'', JStr (status_text st))]))
                        now (cmJobs d)))))"

section \<open>Who a command runs for\<close>

lemma ssh_channel:
  "choose_channel s agent = ViaSsh \<Longrightarrow> truthy (map_option trim (esHostKey s))
     \<and> esOperatingSystem s \<noteq> Some ''WINDOWS''
     \<and> (esConnectionType s = ''SSH_KEY'' \<longrightarrow> truthy (esPrivateKey s))
     \<and> (esConnectionType s = ''PASSWORD'' \<longrightarrow> truthy (esPassword s))"
  unfolding choose_channel_def by (simp split: option.splits if_splits)

lemma gate_dispatch:
  assumes "target_gate auth srvs db tid sid = GateDispatch"
  obtains t r where "find_target db tid = Some t" "find_request db (ctRequestId t) = Some r"
    "ctStatus t \<notin> set TERMINAL_STATUSES" "ctStatus t \<noteq> Cancelling"
    "cqStatus r \<notin> set TERMINAL_STATUSES" "cqStatus r \<noteq> Cancelling"
    "assertRequesterMayExecuteCommand auth srvs (cqRequesterId r) (cqTeamId r) (Some sid)
       (Some (approved_by db (ctRequestId t) = [])) = Inr ()"
  using assms unfolding target_gate_def
  by (auto split: option.splits if_splits sum.splits)

text \<open>
  C18. A command is sent to a server only on a live authorization: at the read before dispatch
  neither the target nor its request is finished or being stopped, the requester's account is
  enabled and acts in the request's customer, and either a reviewer approved the request or the
  requester holds the execute permission now; the server is enabled and reachable for that
  requester.  What goes over SSH goes to a pinned host key only, never to a Windows node.
\<close>

theorem dispatch_authorised:
  assumes g: "target_gate auth srvs db tid sid = GateDispatch" and sid: "sid \<noteq> []"
  shows "(\<exists>t r user ses. find_target db tid = Some t \<and> find_request db (ctRequestId t) = Some r
      \<and> ctStatus t \<in> {PendingApproval, Approved, Running} \<and> cqStatus r \<in> {PendingApproval, Approved, Running}
      \<and> find_user auth (cqRequesterId r) = Some user \<and> uStatus user \<noteq> DISABLED \<and> \<not> uMustChangePassword user
      \<and> loadJobOwnerSession auth (cqRequesterId r) (cqTeamId r) = Some ses
      \<and> ((\<exists>a \<in> set (cmApprovals db). caRequestId a = cqId r \<and> caApproved a)
           \<or> sessionHasPermission ses ''command:execute'')
      \<and> (\<exists>srv \<in> set srvs. srvId srv = sid \<and> srvEnabled srv \<and> server_visible Connect ses srv
           \<and> (''admin'' \<notin> set (roles ses) \<longrightarrow> genuine_server srv \<longrightarrow> srvTeamId srv = cqTeamId r)))
    \<and> (\<forall>s agent. choose_channel s agent = ViaSsh \<longrightarrow> truthy (map_option trim (esHostKey s))
           \<and> esOperatingSystem s \<noteq> Some ''WINDOWS'')"
proof -
  obtain t r where t: "find_target db tid = Some t" and r: "find_request db (ctRequestId t) = Some r"
    and st: "ctStatus t \<notin> set TERMINAL_STATUSES" "ctStatus t \<noteq> Cancelling"
      "cqStatus r \<notin> set TERMINAL_STATUSES" "cqStatus r \<noteq> Cancelling"
    and ok: "assertRequesterMayExecuteCommand auth srvs (cqRequesterId r) (cqTeamId r) (Some sid)
       (Some (approved_by db (ctRequestId t) = [])) = Inr ()"
    using g by (rule gate_dispatch)
  have live: "x \<in> {PendingApproval, Approved, Running}"
    if "x \<notin> set TERMINAL_STATUSES" "x \<noteq> Cancelling" for x
    using that by (cases x) (auto simp: TERMINAL_STATUSES_def)
  have id: "cqId r = ctRequestId t" using find_first_Some [OF r [unfolded find_request_def]] by simp
  obtain user ses where acc: "find_user auth (cqRequesterId r) = Some user" "uStatus user \<noteq> DISABLED"
      "\<not> uMustChangePassword user" "loadJobOwnerSession auth (cqRequesterId r) (cqTeamId r) = Some ses"
    and need: "approved_by db (ctRequestId t) = [] \<longrightarrow> sessionHasPermission ses ''command:execute''"
    and srv: "\<exists>srv \<in> set srvs. srvId srv = sid \<and> srvEnabled srv \<and> server_visible Connect ses srv
           \<and> (''admin'' \<notin> set (roles ses) \<longrightarrow> genuine_server srv \<longrightarrow> srvTeamId srv = cqTeamId r)"
    using may_execute_facts [OF ok] sid by auto
  have "(\<exists>a \<in> set (cmApprovals db). caRequestId a = cqId r \<and> caApproved a)
      \<or> sessionHasPermission ses ''command:execute''"
    using need by (auto simp: approved_by_def id filter_empty_conv)
  then show ?thesis
    using t r acc srv live [OF st(1,2)] live [OF st(3,4)] ssh_channel by blast
qed

section \<open>What an undisturbed execution does\<close>

definition target_outcome :: "exec_world \<Rightarrow> command_request \<Rightarrow> bool \<Rightarrow> command_target \<Rightarrow> command_status" where
  "target_outcome w r approved t =
     (let s = ewServerOf w (ctServerId t) in
      if ewThrows w (ctId t) \<noteq> None then Failed
      else case assertRequesterMayExecuteCommand (ewAuth w) (ewServers w) (cqRequesterId r) (cqTeamId r)
             (Some (esId s)) (Some (\<not> approved)) of
          Inl _ \<Rightarrow> Failed
        | Inr _ \<Rightarrow>
            (case choose_channel s (agent_result (ewAgent w (ctId t))) of
               NoChannel _ \<Rightarrow> Failed
             | ViaAgent x \<Rightarrow> result_status x
             | ViaSsh \<Rightarrow> result_status (ssh_answer (ewAborted w (ctId t)) (ewSsh w (ctId t)))))"

definition overall_outcome :: "command_status list \<Rightarrow> command_status" where
  "overall_outcome os =
     (if os \<noteq> [] \<and> (\<forall>x \<in> set os. x = Cancelled) then Cancelled
      else if os \<noteq> [] \<and> (\<forall>x \<in> set os. x = Completed) then Completed else Failed)"

definition undisturbed :: "exec_world \<Rightarrow> bool" where
  "undisturbed w \<longleftrightarrow> (\<forall>i d. ewMeanwhile w i d = d)"

text \<open>One target is written, with a given status; nothing else but the log changes.\<close>

definition settles :: "command_db \<Rightarrow> command_db \<Rightarrow> command_target \<Rightarrow> command_status \<Rightarrow> bool" where
  "settles db db' t st \<longleftrightarrow> cmRequests db' = cmRequests db \<and> cmApprovals db' = cmApprovals db
     \<and> (\<exists>f. cmTargets db' = map f (cmTargets db) \<and> (\<forall>x. same_target x (f x)) \<and> ctStatus (f t) = st
          \<and> (\<forall>x. ctId x \<noteq> ctId t \<longrightarrow> f x = x))"

lemma settlesI:
  assumes "cmTargets db' = map (\<lambda>x. if p x then g x else x) (cmTargets db)"
    and "cmRequests db' = cmRequests db" "cmApprovals db' = cmApprovals db"
    and "\<And>x. same_target x (g x)" "\<And>x. p x \<Longrightarrow> ctId x = ctId t" "p t" "ctStatus (g t) = st"
  shows "settles db db' t st"
proof -
  let ?f = "\<lambda>x. if p x then g x else x"
  have 1: "\<forall>x. same_target x (?f x)" using assms(4) by simp
  have 2: "ctStatus (?f t) = st" using assms(6,7) by simp
  have "?f x = x" if "ctId x \<noteq> ctId t" for x
  proof -
    have "\<not> p x" using assms(5) that by blast
    then show ?thesis by simp
  qed
  then have 3: "\<forall>x. ctId x \<noteq> ctId t \<longrightarrow> ?f x = x" by blast
  show ?thesis
    unfolding settles_def by (intro conjI exI [of _ ?f]; fact assms 1 2 3)
qed

lemma settles_logged:
  assumes "\<And>x. same_target x (g x)" "\<And>x. p x \<Longrightarrow> ctId x = ctId t" "p t" "ctStatus (g t) = st"
  shows "settles db (add_log i o' m (fst (update_targets p g db))) t st"
proof (rule settlesI [where p = p and g = g])
  show "ctId x = ctId t" if "p x" for x using that by (rule assms(2))
qed (simp_all add: assms(1,3,4))

lemma running_live: "ctStatus t = Running \<Longrightarrow> live_target (ctId t) t"
  by (simp add: live_target_def LIVE_STATUSES_def)

lemma live_some:
  assumes "t \<in> set (cmTargets db)" "p t"
  shows "0 < snd (update_targets p g db)"
  using assms by (auto simp: count_where_pos)

lemma write_result_settles:
  assumes "t \<in> set (cmTargets db)" "ctStatus t = Running"
  obtains db' where "write_result intText now q (ctId t) s r db = (db', result_status r = Completed)"
    "settles db db' t (result_status r)"
proof -
  let ?db' = "add_log q (Some (esId s)) (result_summary intText s r)
      (fst (update_targets (live_target (ctId t)) (result_row now r) db))"
  have n: "snd (update_targets (live_target (ctId t)) (result_row now r) db) \<noteq> 0"
    using live_some [where p = "live_target (ctId t)", OF assms(1) running_live [OF assms(2)],
        of "result_row now r"] by (rule gr_implies_not0)
  have "write_result intText now q (ctId t) s r db = (?db', result_status r = Completed)"
    by (simp only: write_result_def case_prod_unfold if_not_P [OF n])
  moreover have "settles db ?db' t (result_status r)"
    by (rule settlesI [where p = "live_target (ctId t)" and g = "result_row now r"])
      (use running_live [OF assms(2)] in \<open>simp_all add: result_row_def same_target_def live_target_def\<close>)
  ultimately show ?thesis by (rule that)
qed

lemma fail_target_settles:
  assumes "ctStatus t = Running"
  shows "settles db (failTarget now q (ctId t) s m db) t Failed"
proof -
  have "cmTargets (failTarget now q (ctId t) s m db)
      = map (\<lambda>x. if live_target (ctId t) x then failed_row now m x else x) (cmTargets db)"
    "cmRequests (failTarget now q (ctId t) s m db) = cmRequests db"
    "cmApprovals (failTarget now q (ctId t) s m db) = cmApprovals db"
    unfolding failTarget_def case_prod_unfold by simp_all
  then show ?thesis
    by (rule settlesI)
      (use running_live [OF assms] in \<open>simp_all add: failed_row_def same_target_def live_target_def\<close>)
qed

lemma execute_settles:
  assumes w: "undisturbed w"
    and t: "t \<in> set (cmTargets db)" "ctStatus t = Running" "distinct_keys ctId (cmTargets db)"
    and r: "find_request db (ctRequestId t) = Some r" "cqStatus r = Running"
  obtains db' where
    "execute_settled w intText now q t db
       = (db', target_outcome w r (approved_by db (ctRequestId t) \<noteq> []) t = Completed)"
    "settles db db' t (target_outcome w r (approved_by db (ctRequestId t) \<noteq> []) t)"
proof -
  note result = that
  let ?s = "ewServerOf w (ctServerId t)"
  let ?o = "target_outcome w r (approved_by db (ctRequestId t) \<noteq> []) t"
  let ?auth = "assertRequesterMayExecuteCommand (ewAuth w) (ewServers w) (cqRequesterId r) (cqTeamId r)
      (Some (esId ?s)) (Some (approved_by db (ctRequestId t) = []))"
  let ?agent = "agent_result (ewAgent w (ctId t))"
  let ?db1 = "agent_log q ?s ?agent db"
  have mean: "ewMeanwhile w i d = d" for i d using w by (simp add: undisturbed_def)
  have log: "cmTargets ?db1 = cmTargets db" "cmRequests ?db1 = cmRequests db" "cmApprovals ?db1 = cmApprovals db"
    by (simp_all add: agent_log_def)
  have after_log: "settles db d t st" if "settles ?db1 d t st" for d st
    using that by (simp add: settles_def log)
  have found: "find_target db (ctId t) = Some t"
  proof -
    obtain x where x: "find_target db (ctId t) = Some x"
      using t(1) find_first_None [of "\<lambda>x. ctId x = ctId t" "cmTargets db"]
      by (cases "find_target db (ctId t)") (auto simp: find_target_def)
    then show ?thesis
      using find_first_Some [of "\<lambda>x. ctId x = ctId t" "cmTargets db" x] t(1)
        distinct_keys_unique [OF t(3), of x t] by (simp add: find_target_def)
  qed
  have gate: "target_gate (ewAuth w) (ewServers w) db (ctId t) (esId ?s)
      = (case ?auth of Inl reason \<Rightarrow> GateDeny reason | Inr _ \<Rightarrow> GateDispatch)"
    using t(2) r by (simp add: target_gate_def found TERMINAL_STATUSES_def)
  show thesis
  proof (cases "ewThrows w (ctId t)")
    case (Some reason)
    have "settles db (executor_threw now q (ctId t) ?s reason db) t Failed"
      unfolding executor_threw_def Let_def
      by (rule settles_logged) (use t(2) in \<open>simp_all add: same_target_def\<close>)
    then show ?thesis
      using result [of "executor_threw now q (ctId t) ?s reason db"] Some
      by (simp add: execute_settled_def Let_def target_outcome_def)
  next
    case None
    show ?thesis
    proof (cases ?auth)
      case (Inl reason)
      have o': "?o = Failed" using None Inl by (simp add: target_outcome_def Let_def)
      have "execute_settled w intText now q t db
          = (failTarget now q (ctId t) ?s (u ''Command dispatch denied: '' @ u reason) db, False)"
        using None by (simp add: execute_settled_def Let_def executeTarget_def gate Inl)
      then show ?thesis
        using result [of "failTarget now q (ctId t) ?s (u ''Command dispatch denied: '' @ u reason) db"]
          fail_target_settles [OF t(2)] by (simp only: o' command_status.simps refl simp_thms)
    next
      case (Inr x)
      have ex: "execute_settled w intText now q t db =
          (case choose_channel ?s ?agent of
                NoChannel summary \<Rightarrow> (failTarget now q (ctId t) ?s summary ?db1, False)
              | ViaAgent r \<Rightarrow> write_result intText now q (ctId t) ?s r ?db1
              | ViaSsh \<Rightarrow> write_result intText now q (ctId t) ?s (ssh_answer (ewAborted w (ctId t)) (ewSsh w (ctId t))) ?db1)"
        using None by (simp add: execute_settled_def Let_def executeTarget_def gate Inr mean)
      have wrote: thesis if ex': "execute_settled w intText now q t db = write_result intText now q (ctId t) ?s y ?db1"
        and o': "?o = result_status y" for y
      proof -
        have "t \<in> set (cmTargets ?db1)" using t(1) by (simp only: log)
        from write_result_settles [OF this t(2)]
        obtain d where d: "write_result intText now q (ctId t) ?s y ?db1 = (d, result_status y = Completed)"
          "settles ?db1 d t (result_status y)" .
        show thesis
          by (rule result [of d]) (simp_all only: ex' o' d(1) after_log [OF d(2)])
      qed
      show ?thesis
      proof (cases "choose_channel ?s ?agent")
        case (ViaAgent y)
        show ?thesis
          by (rule wrote [of y]) (use None Inr ViaAgent ex in \<open>simp_all add: target_outcome_def Let_def\<close>)
      next
        case ViaSsh
        show ?thesis
          by (rule wrote [of "ssh_answer (ewAborted w (ctId t)) (ewSsh w (ctId t))"])
            (use None Inr ViaSsh ex in \<open>simp_all add: target_outcome_def Let_def\<close>)
      next
        case (NoChannel summary)
        have o': "?o = Failed" using None Inr NoChannel by (simp add: target_outcome_def Let_def)
        have "execute_settled w intText now q t db = (failTarget now q (ctId t) ?s summary ?db1, False)"
          using ex NoChannel by simp
        then show ?thesis
          using result [of "failTarget now q (ctId t) ?s summary ?db1"] after_log [OF fail_target_settles [OF t(2)]]
          by (simp add: o')
      qed
    qed
  qed
qed

text \<open>All targets of a request, one after the other.\<close>

lemma execute_all_settles:
  assumes w: "undisturbed w"
  shows "\<forall>t \<in> set ts. t \<in> set (cmTargets db) \<and> ctStatus t = Running \<and> ctRequestId t = q \<Longrightarrow>
     distinct (map ctId ts) \<Longrightarrow> distinct_keys ctId (cmTargets db) \<Longrightarrow>
     find_request db q = Some r \<Longrightarrow> cqStatus r = Running \<Longrightarrow>
     \<exists>db' f. execute_all w intText now q ts db
         = (db', length (filter (\<lambda>t. target_outcome w r (approved_by db q \<noteq> []) t = Completed) ts))
       \<and> cmRequests db' = cmRequests db \<and> cmTargets db' = map f (cmTargets db)
       \<and> (\<forall>x. same_target x (f x)) \<and> (\<forall>x. ctId x \<notin> ctId ` set ts \<longrightarrow> f x = x)
       \<and> (\<forall>t \<in> set ts. ctStatus (f t) = target_outcome w r (approved_by db q \<noteq> []) t)"
proof (induction ts arbitrary: db)
  case Nil
  then show ?case by (intro exI [of _ db] exI [of _ "\<lambda>x. x"]) simp
next
  case (Cons t ts)
  let ?o = "target_outcome w r (approved_by db q \<noteq> [])"
  have t: "t \<in> set (cmTargets db)" "ctStatus t = Running" "ctRequestId t = q"
    using Cons.prems(1) by simp_all
  have found: "find_request db (ctRequestId t) = Some r" using Cons.prems(4) by (simp only: t(3))
  obtain db1 where e1: "execute_settled w intText now q t db = (db1, ?o t = Completed)"
    and s1: "settles db db1 t (?o t)"
    using execute_settles [OF w t(1,2) Cons.prems(3) found Cons.prems(5)] unfolding t(3) .
  obtain f where f: "cmTargets db1 = map f (cmTargets db)" "\<forall>x. same_target x (f x)"
      "ctStatus (f t) = ?o t" "\<forall>x. ctId x \<noteq> ctId t \<longrightarrow> f x = x"
    and keep: "cmRequests db1 = cmRequests db" "cmApprovals db1 = cmApprovals db"
    using s1 unfolding settles_def by blast
  have fid: "ctId (f x) = ctId x" for x using f(2) by (simp add: same_target_def)
  have o': "approved_by db1 q = approved_by db q" by (simp only: approved_by_def keep)
  have other: "ctId x \<noteq> ctId t" if "x \<in> set ts" for x :: command_target
  proof -
    have "ctId x \<in> ctId ` set ts" using that by (rule imageI)
    moreover have "ctId t \<notin> ctId ` set ts" using Cons.prems(2) by simp
    ultimately show ?thesis by metis
  qed
  have "\<forall>x \<in> set ts. x \<in> set (cmTargets db1) \<and> ctStatus x = Running \<and> ctRequestId x = q"
  proof
    fix x :: command_target assume x: "x \<in> set ts"
    have "f x = x" using f(4) other [OF x] by simp
    moreover have "x \<in> set (cmTargets db)" using Cons.prems(1) x by simp
    ultimately have "x \<in> set (cmTargets db1)" unfolding f(1) by (metis image_eqI set_map)
    then show "x \<in> set (cmTargets db1) \<and> ctStatus x = Running \<and> ctRequestId x = q"
      using Cons.prems(1) x by simp
  qed
  moreover have "distinct_keys ctId (cmTargets db1)"
    unfolding f(1) using distinct_keys_map [of ctId f, OF fid] Cons.prems(3) by blast
  moreover have "find_request db1 q = Some r"
    using Cons.prems(4) by (simp only: find_request_def keep)
  ultimately obtain db2 g where
      e2: "execute_all w intText now q ts db1 = (db2, length (filter (\<lambda>t. ?o t = Completed) ts))"
    and g: "cmRequests db2 = cmRequests db1" "cmTargets db2 = map g (cmTargets db1)"
      "\<forall>x. same_target x (g x)" "\<forall>x. ctId x \<notin> ctId ` set ts \<longrightarrow> g x = x"
      "\<forall>t \<in> set ts. ctStatus (g t) = ?o t"
    using Cons.IH [of db1] Cons.prems(2,5) unfolding o' by auto
  show ?case
  proof (intro exI [of _ db2] exI [of _ "\<lambda>x. g (f x)"] conjI)
    show "execute_all w intText now q (t # ts) db = (db2, length (filter (\<lambda>t. ?o t = Completed) (t # ts)))"
      by (simp add: e1 e2)
    show "cmRequests db2 = cmRequests db" using g(1) keep by simp
    show "cmTargets db2 = map (\<lambda>x. g (f x)) (cmTargets db)" by (simp add: g(2) f(1))
    show "\<forall>x. same_target x (g (f x))" using f(2) g(3) same_target_trans by blast
    show "\<forall>x. ctId x \<notin> ctId ` set (t # ts) \<longrightarrow> g (f x) = x"
    proof (intro allI impI)
      fix x :: command_target assume x: "ctId x \<notin> ctId ` set (t # ts)"
      then have "f x = x" using f(4) by simp
      then show "g (f x) = x" using g(4) x by simp
    qed
    show "\<forall>x \<in> set (t # ts). ctStatus (g (f x)) = ?o x"
    proof
      fix x assume "x \<in> set (t # ts)"
      then consider "x = t" | "x \<in> set ts" by auto
      then show "ctStatus (g (f x)) = ?o x"
      proof cases
        case 1
        have "ctId (f t) \<notin> ctId ` set ts" using Cons.prems(2) by (simp add: fid)
        then show ?thesis using g(4) f(3) 1 by simp
      next
        case 2
        then show ?thesis using f(4) g(5) other by simp
      qed
    qed
  qed
qed

lemma finish_running:
  assumes r: "find_request db q = Some r" "cqStatus r = Running" and src: "Running \<in> src"
  shows "find_request (fst (finish_request now q src st db)) q
      = Some (r\<lparr>cqStatus := st, cqWorkerId := None, cqHeartbeatAt := None, cqUpdatedAt := now\<rparr>)"
    "0 < snd (finish_request now q src st db)"
    "cmTargets (fst (finish_request now q src st db)) = cmTargets db"
proof -
  have id: "r \<in> set (cmRequests db)" "cqId r = q"
    using find_first_Some [OF r(1) [unfolded find_request_def]] by simp_all
  have "find_request (fst (finish_request now q src st db)) q
      = map_option (\<lambda>r. if cqId r = q \<and> cqStatus r \<in> src then (release_as st r)\<lparr>cqUpdatedAt := now\<rparr> else r)
          (find_request db q)"
    unfolding finish_request_def by (rule find_update_requests) (simp add: release_as_def)
  then show "find_request (fst (finish_request now q src st db)) q
      = Some (r\<lparr>cqStatus := st, cqWorkerId := None, cqHeartbeatAt := None, cqUpdatedAt := now\<rparr>)"
    using r id src by (simp add: release_as_def)
  have "\<exists>x \<in> set (cmRequests db). cqId x = q \<and> cqStatus x \<in> src"
    using id r(2) src by (intro bexI [of _ r]) simp_all
  then show "0 < snd (finish_request now q src st db)"
    unfolding finish_request_def update_requests_simps count_where_pos .
  show "cmTargets (fst (finish_request now q src st db)) = cmTargets db"
    by (simp add: finish_request_def)
qed

lemma finalize_running:
  assumes r: "find_request db q = Some r" "cqStatus r = Running"
  shows "find_request (finalize_writes intText now q Running statuses total' completed db) q
      = Some (r\<lparr>cqStatus := (case final_decision Running statuses total' completed of
          StopCancelled \<Rightarrow> Cancelled | StopWith st \<Rightarrow> st),
        cqWorkerId := None, cqHeartbeatAt := None, cqUpdatedAt := now\<rparr>)"
    and "cmTargets (finalize_writes intText now q Running statuses total' completed db) = cmTargets db"
proof -
  have r': "find_request (add_log i s m db) q = Some r" for i s m using r by simp
  note f = finish_running [OF r' r(2)]
  have n: "snd (finish_request now q src st (add_log i s m db)) \<noteq> 0" if "Running \<in> src" for src st i s m
    using f(2) [OF that] by (rule gr_implies_not0)
  show "find_request (finalize_writes intText now q Running statuses total' completed db) q
      = Some (r\<lparr>cqStatus := (case final_decision Running statuses total' completed of
          StopCancelled \<Rightarrow> Cancelled | StopWith st \<Rightarrow> st),
        cqWorkerId := None, cqHeartbeatAt := None, cqUpdatedAt := now\<rparr>)"
    unfolding finalize_writes_def case_prod_unfold
    by (cases "final_decision Running statuses total' completed") (simp_all add: f(1) n)
  show "cmTargets (finalize_writes intText now q Running statuses total' completed db) = cmTargets db"
    unfolding finalize_writes_def case_prod_unfold
    by (cases "final_decision Running statuses total' completed") (simp_all add: f(3) n)
qed

lemma heartbeat_running:
  assumes "find_request db q = Some r" "cqStatus r = Running"
  shows "find_request (heartbeatRunningCommandRequest worker now q db) q
    = Some (r\<lparr>cqWorkerId := Some worker, cqHeartbeatAt := Some now, cqUpdatedAt := now\<rparr>)"
    "cmTargets (heartbeatRunningCommandRequest worker now q db) = cmTargets db"
    "cmApprovals (heartbeatRunningCommandRequest worker now q db) = cmApprovals db"
proof -
  have id: "cqId r = q" using find_first_Some [OF assms(1) [unfolded find_request_def]] by simp
  have "find_request (heartbeatRunningCommandRequest worker now q db) q
      = map_option (\<lambda>r. if cqId r = q \<and> cqStatus r \<in> {Running, Cancelling}
          then (r\<lparr>cqWorkerId := Some worker, cqHeartbeatAt := Some now\<rparr>)\<lparr>cqUpdatedAt := now\<rparr> else r)
          (find_request db q)"
    unfolding heartbeatRunningCommandRequest_def by (rule find_update_requests) simp
  then show "find_request (heartbeatRunningCommandRequest worker now q db) q
    = Some (r\<lparr>cqWorkerId := Some worker, cqHeartbeatAt := Some now, cqUpdatedAt := now\<rparr>)"
    using assms id by simp
qed (simp_all add: heartbeatRunningCommandRequest_def)

lemma target_outcome_cong:
  "cqRequesterId r' = cqRequesterId r \<Longrightarrow> cqTeamId r' = cqTeamId r \<Longrightarrow>
     target_outcome w r' a t = target_outcome w r a t"
  by (simp only: target_outcome_def)

lemma length_filter_all: "length (filter p xs) = length xs \<longleftrightarrow> (\<forall>x \<in> set xs. p x)"
proof (induction xs)
  case (Cons x xs)
  have "length (filter p xs) \<noteq> Suc (length xs)" using length_filter_le [of p xs] by linarith
  with Cons show ?case by auto
qed simp

lemma decision_overall:
  assumes "total' = length os" "n = length (filter (\<lambda>x. x = Completed) os)"
  shows "(case final_decision Running os total' n of StopCancelled \<Rightarrow> Cancelled | StopWith st \<Rightarrow> st)
    = overall_outcome os"
proof -
  have "n = total' \<longleftrightarrow> (\<forall>x \<in> set os. x = Completed)"
    unfolding assms by (rule length_filter_all)
  then show ?thesis
    using assms(1) by (simp add: final_decision_def overall_outcome_def)
qed

lemma targets_of_cong: "cmTargets db' = cmTargets db \<Longrightarrow> targets_of db' q = targets_of db q"
  by (simp add: targets_of_def)

lemma length_filter_mset: "mset xs = mset ys \<Longrightarrow> length (filter p xs) = length (filter p ys)"
  by (metis mset_filter size_mset)

text \<open>
  C19. An execution nobody interferes with reports exactly what happened: every target ends
  with the status of its own run - refused, failed, cancelled or completed - and the request
  is completed when all of them are, cancelled when all were cancelled, and failed otherwise
  (also when there is no target); it is released by its worker.
\<close>

theorem execution_outcome:
  assumes w: "undisturbed w"
    and r: "find_request db q = Some r" "cqStatus r = Running"
    and ts: "\<forall>t \<in> set (targets_of db q). ctStatus t = Running"
    and d: "distinct_keys ctId (cmTargets db)"
    and e: "executeAndFinalizeCommand w (\<lambda>d. d) intText worker now q db = (db', st)"
  shows "let os = map (target_outcome w r (approved_by db q \<noteq> [])) (targets_of db q) in
    st = Some (overall_outcome os) \<and> map ctStatus (targets_of db' q) = os
    \<and> map_option cqStatus (find_request db' q) = st
    \<and> map_option cqWorkerId (find_request db' q) = Some None"
proof -
  let ?h = "heartbeatRunningCommandRequest worker now q db"
  let ?r = "r\<lparr>cqWorkerId := Some worker, cqHeartbeatAt := Some now, cqUpdatedAt := now\<rparr>"
  let ?sorted = "sort_by (\<lambda>a b. str_le (ctId a) (ctId b)) (targets_of ?h q)"
  let ?o = "target_outcome w r (approved_by db q \<noteq> [])"
  note h = heartbeat_running [OF r, of worker now]
  have same: "targets_of ?h q = targets_of db q" "approved_by ?h q = approved_by db q"
    by (simp_all only: targets_of_def approved_by_def h)
  have oc: "target_outcome w ?r (approved_by ?h q \<noteq> []) = ?o"
    unfolding same by (rule ext, rule target_outcome_cong) simp_all
  have m: "mset ?sorted = mset (targets_of db q)" by (simp add: same)
  have "distinct (map ctId (targets_of db q))"
    using d unfolding targets_of_def distinct_keys_def by (rule distinct_map_filter)
  moreover have "mset (map ctId ?sorted) = mset (map ctId (targets_of db q))"
    by (simp only: mset_map m)
  ultimately have dist: "distinct (map ctId ?sorted)" using mset_eq_imp_distinct_iff by blast
  have mem: "\<forall>t \<in> set ?sorted. t \<in> set (cmTargets ?h) \<and> ctStatus t = Running \<and> ctRequestId t = q"
    using ts by (simp add: same h in_targets_of)
  have st': "cqStatus ?r = Running" using r(2) by simp
  have d': "distinct_keys ctId (cmTargets ?h)" using d by (simp only: h(2))
  obtain db1 f where a: "execute_all w intText now q ?sorted ?h
        = (db1, length (filter (\<lambda>t. ?o t = Completed) ?sorted))"
    and k: "cmRequests db1 = cmRequests ?h" "cmTargets db1 = map f (cmTargets ?h)"
      "\<forall>x. same_target x (f x)" "\<forall>t \<in> set ?sorted. ctStatus (f t) = ?o t"
    using execute_all_settles [OF w mem dist d' h(1) st', of intText now, unfolded oc]
    by (elim exE conjE) (rule that)
  have statuses: "map ctStatus (targets_of db1 q) = map ?o (targets_of db q)"
  proof -
    have "targets_of db1 q = map f (targets_of db q)"
      using k(3) by (simp add: targets_of_def k(2) h(2) filter_map comp_def same_target_def)
    then show ?thesis using k(4) by (simp add: same)
  qed
  have found: "find_request db1 q = Some ?r" using h(1) by (simp only: find_request_def k(1))
  have cnt: "length (filter (\<lambda>t. ?o t = Completed) ?sorted)
      = length (filter (\<lambda>x. x = Completed) (map ?o (targets_of db q)))"
    using length_filter_mset [OF m, of "\<lambda>t. ?o t = Completed"] by (simp add: filter_map comp_def)
  have len: "length ?sorted = length (map ?o (targets_of db q))" by (simp add: same)
  let ?db2 = "finalize_writes intText now q Running (map ?o (targets_of db q)) (length ?sorted)
      (length (filter (\<lambda>t. ?o t = Completed) ?sorted)) db1"
  note fin = finalize_running [OF found st', of intText now "map ?o (targets_of db q)" "length ?sorted"
      "length (filter (\<lambda>t. ?o t = Completed) ?sorted)", unfolded decision_overall [OF len cnt]]
  have ex: "executeAndFinalizeCommand w (\<lambda>d. d) intText worker now q db
      = (?db2, map_option cqStatus (find_request ?db2 q))"
    using r by (simp add: executeAndFinalizeCommand_def executeTargets_def Let_def a found statuses)
  have out: "db' = ?db2" "st = map_option cqStatus (find_request ?db2 q)"
    using e unfolding ex prod.inject by (blast intro: sym)+
  have f': "find_request db' q = Some (?r\<lparr>cqStatus := overall_outcome (map ?o (targets_of db q)),
      cqWorkerId := None, cqHeartbeatAt := None, cqUpdatedAt := now\<rparr>)"
    unfolding out(1) by (rule fin(1))
  have "map ctStatus (targets_of db' q) = map ?o (targets_of db q)"
    unfolding out(1) targets_of_cong [OF fin(2)] by (rule statuses)
  moreover have "st = map_option cqStatus (find_request db' q)" by (simp only: out)
  ultimately show ?thesis unfolding Let_def f' by simp
qed

section \<open>Witnesses\<close>

definition sample_target_host :: target_host where
  "sample_target_host = \<lparr>esId = ''s1'', esName = u ''web'', esHost = u ''a.io'', esPort = u ''22'',
     esConnectionType = ''SSH_KEY'', esManagementMode = ''SSH'', esOperatingSystem = None,
     esPrivateKey = Some ''key'', esPassword = None, esHostKey = Some ''SHA256:x''\<rparr>"

definition sample_ssh_result :: "int \<Rightarrow> ssh_result" where
  "sample_ssh_result code = \<lparr>srStdout = u ''ok'', srStderr = [], srExitCode = code, srCancelled = False,
     srOutcomeUnknown = False\<rparr>"

definition sample_world :: "int \<Rightarrow> exec_world" where
  "sample_world code = \<lparr>ewAuth = exec_db, ewServers = [exec_server], ewServerOf = (\<lambda>_. sample_target_host),
     ewAgent = (\<lambda>_. Returned None), ewSsh = (\<lambda>_. Returned (sample_ssh_result code)), ewAborted = (\<lambda>_. False),
     ewThrows = (\<lambda>_. None), ewMeanwhile = (\<lambda>_ d. d)\<rparr>"

definition running_commands :: command_db where
  "running_commands = \<lparr>cmRequests = [sample_request ''r1'' Running 30],
     cmTargets = [sample_target ''c1'' ''r1'' Running, sample_target ''c2'' ''r2'' PendingApproval],
     cmApprovals = [], cmLogs = [], cmJobs = []\<rparr>"

theorem dispatch_authorised_witness:
  "find_request running_commands ''r1'' = Some (sample_request ''r1'' Running 30)
   \<and> (\<exists>ses. loadJobOwnerSession exec_db ''u1'' (Some ''t1'') = Some ses \<and> sessionHasPermission ses ''command:execute'')"
proof -
  have g: "target_gate exec_db [exec_server] running_commands ''c1'' ''s1'' = GateDispatch" by code_simp
  have t: "find_target running_commands ''c1'' = Some (sample_target ''c1'' ''r1'' Running)"
    and r: "find_request running_commands ''r1'' = Some (sample_request ''r1'' Running 30)" by code_simp+
  have a: "cmApprovals running_commands = []" by (simp add: running_commands_def)
  obtain ses where "loadJobOwnerSession exec_db (cqRequesterId (sample_request ''r1'' Running 30))
      (cqTeamId (sample_request ''r1'' Running 30)) = Some ses"
    "sessionHasPermission ses ''command:execute''"
    using dispatch_authorised [OF g] t r a by (auto simp: sample_target_def)
  then show ?thesis using r by (auto simp: sample_request_def)
qed

theorem execution_outcome_witness:
  "snd (executeAndFinalizeCommand (sample_world 0) (\<lambda>d. d) (\<lambda>_. []) ''w'' 90 ''r1'' running_commands) = Some Completed
   \<and> snd (executeAndFinalizeCommand (sample_world 1) (\<lambda>d. d) (\<lambda>_. []) ''w'' 90 ''r1'' running_commands) = Some Failed"
proof -
  have w: "undisturbed (sample_world c)" for c by (simp add: undisturbed_def sample_world_def)
  have r: "find_request running_commands ''r1'' = Some (sample_request ''r1'' Running 30)" by code_simp
  have st: "cqStatus (sample_request ''r1'' Running 30) = Running" by code_simp
  have ts: "targets_of running_commands ''r1'' = [sample_target ''c1'' ''r1'' Running]" by code_simp
  have run: "\<forall>t \<in> set (targets_of running_commands ''r1''). ctStatus t = Running"
    by (simp add: ts sample_target_def)
  have d: "distinct_keys ctId (cmTargets running_commands)" by code_simp
  have a: "approved_by running_commands ''r1'' = []" by code_simp
  have o': "target_outcome (sample_world 0) (sample_request ''r1'' Running 30) False (sample_target ''c1'' ''r1'' Running) = Completed"
    "target_outcome (sample_world 1) (sample_request ''r1'' Running 30) False (sample_target ''c1'' ''r1'' Running) = Failed"
    by code_simp+
  have *: "snd (executeAndFinalizeCommand (sample_world c) (\<lambda>d. d) (\<lambda>_. []) ''w'' 90 ''r1'' running_commands)
      = Some (overall_outcome [target_outcome (sample_world c) (sample_request ''r1'' Running 30) False
          (sample_target ''c1'' ''r1'' Running)])" for c
  proof -
    obtain d' st' where e: "executeAndFinalizeCommand (sample_world c) (\<lambda>d. d) (\<lambda>_. []) ''w'' 90 ''r1'' running_commands = (d', st')"
      by fastforce
    show ?thesis using execution_outcome [OF w r st run d e] by (simp add: e ts a Let_def)
  qed
  show ?thesis by (simp add: * o' overall_outcome_def)
qed

end
