(* ===== verification/Command_Recovery.thy ===== *)
theory Command_Recovery
  imports Command_Execution
begin

text \<open>
  Requests whose executor was lost: the stale sweep of
  \<^verbatim>\<open>src/lib/command/service-recovery.ts\<close>.  The sweep reads a page of stale requests and then
  recovers them one by one; \<open>recoverOne\<close> takes the snapshot the sweep read and the tables at
  the time of its claim, so a heartbeat or a cancellation in between is expressible.
\<close>

record stale_request =
  stRequest :: command_request
  stTargets :: "command_status list"

definition null_stale :: "time \<Rightarrow> command_request \<Rightarrow> bool" where
  "null_stale cutoff r \<longleftrightarrow>
     (case cqHeartbeatAt r of Some h \<Rightarrow> h < cutoff | None \<Rightarrow> cqUpdatedAt r < cutoff)"

definition stale_requests :: "time \<Rightarrow> command_db \<Rightarrow> stale_request list" where
  "stale_requests cutoff db =
     map (\<lambda>r. \<lparr>stRequest = r, stTargets = map ctStatus (targets_of db (cqId r))\<rparr>)
       (take 50 (filter (\<lambda>r. cqStatus r \<in> {Running, Cancelling} \<and> null_stale cutoff r) (cmRequests db)))"

definition idsWithWaitingExecutionJob :: "string list \<Rightarrow> command_db \<Rightarrow> string list" where
  "idsWithWaitingExecutionJob requestIds db =
     List.map_filter (\<lambda>j. case jPayload j of
         JObj kvs \<Rightarrow> json_string (map_of kvs ''commandRequestId'') | _ \<Rightarrow> None)
       (filter (\<lambda>j. jType j = COMMAND_EXECUTION_JOB_TYPE \<and> jStatus j = PENDING
          \<and> (case jPayload j of JObj kvs \<Rightarrow>
               (\<exists>i \<in> set requestIds. map_of kvs ''commandRequestId'' = Some (JStr i)) | _ \<Rightarrow> False))
         (cmJobs db))"

text \<open>The claim wins only while the request is as the sweep read it.\<close>

definition stillStale :: "command_request \<Rightarrow> command_request \<Rightarrow> bool" where
  "stillStale snap r \<longleftrightarrow> cqId r = cqId snap \<and> cqStatus r = cqStatus snap
     \<and> cqWorkerId r = cqWorkerId snap \<and> cqHeartbeatAt r = cqHeartbeatAt snap"

definition lost_message :: ustring where
  "lost_message = u ''The background SSH executor may have been interrupted by a service restart or process exit; it has been automatically marked as failed. Cancellation could not be confirmed; check the remote process before retrying.''"

definition heartbeat_detail :: "(time \<Rightarrow> string) \<Rightarrow> command_request \<Rightarrow> ustring" where
  "heartbeat_detail isoText r =
     (case cqHeartbeatAt r of
        Some h \<Rightarrow> u '', last heartbeat '' @ u (isoText h) | None \<Rightarrow> u '', no worker heartbeat record'')"

definition stale_intro :: "(time \<Rightarrow> string) \<Rightarrow> command_request \<Rightarrow> ustring" where
  "stale_intro isoText r = u ''Stale RUNNING command detected: background executor ''
     @ u (case cqWorkerId r of None \<Rightarrow> ''unknown'' | Some w \<Rightarrow> w) @ heartbeat_detail isoText r"

definition archive_status :: "command_status \<Rightarrow> command_status list \<Rightarrow> command_status" where
  "archive_status st targetStatuses =
     (if st = Cancelling \<and> Failed \<notin> set targetStatuses then Cancelled
      else if targetStatuses \<noteq> [] \<and> (\<forall>x \<in> set targetStatuses. x = Completed) then Completed
      else Failed)"

definition claim_stale ::
  "time \<Rightarrow> command_request \<Rightarrow> command_status \<Rightarrow> command_db \<Rightarrow> command_db \<times> nat" where
  "claim_stale now snap st = update_requests now (stillStale snap) (release_as st)"

definition recoverOne ::
  "(time \<Rightarrow> string) \<Rightarrow> time \<Rightarrow> stale_request \<Rightarrow> command_db \<Rightarrow> command_db \<times> bool" where
  "recoverOne isoText now s db =
     (let snap = stRequest s in
      if \<exists>st \<in> set (stTargets s). st \<in> set LIVE_STATUSES
      then (case claim_stale now snap Failed db of
              (db1, n) \<Rightarrow>
                if n = 0 then (db1, False)
                else (add_log (cqId snap) None (stale_intro isoText snap
                        @ u '', likely lost during service restart; automatically recovered to FAILED to avoid the task center being stuck long-term.'')
                        (fail_live_targets now (cqId snap) lost_message True db1), True))
      else (let next' = archive_status (cqStatus snap) (stTargets s) in
            case claim_stale now snap next' db of
              (db1, n) \<Rightarrow>
                if n = 0 then (db1, False)
                else (add_log (cqId snap) None (stale_intro isoText snap
                        @ u ''; automatically archived as '' @ u (status_text next') @ u '' based on target status.'') db1, True)))"

fun recover_each ::
  "(time \<Rightarrow> string) \<Rightarrow> time \<Rightarrow> stale_request list \<Rightarrow> command_db \<Rightarrow> command_db \<times> nat" where
  "recover_each isoText now [] db = (db, 0)"
| "recover_each isoText now (s # ss) db =
     (case recoverOne isoText now s db of
        (db1, ok) \<Rightarrow> (case recover_each isoText now ss db1 of (db2, n) \<Rightarrow> (db2, if ok then Suc n else n)))"

text \<open>
  The sweep.  Chunks of five run side by side; the members touch different requests, so they
  are taken in order.
\<close>

definition RECOVER_STALE_CONCURRENCY :: nat where "RECOVER_STALE_CONCURRENCY = 5"

definition recoverStaleRunningCommandRequests ::
  "(time \<Rightarrow> string) \<Rightarrow> int \<Rightarrow> time \<Rightarrow> command_db \<Rightarrow> command_db \<times> nat" where
  "recoverStaleRunningCommandRequests isoText staleRunningAfterMs now db =
     (let stale = stale_requests (now - staleRunningAfterMs) db;
          waiting = idsWithWaitingExecutionJob (map (\<lambda>s. cqId (stRequest s)) stale) db;
          lost = filter (\<lambda>s. cqId (stRequest s) \<notin> set waiting) stale
      in recover_each isoText now (concat (chunks (RECOVER_STALE_CONCURRENCY - 1) lost)) db)"

lemma claim_stale_update:
  assumes "cqStatus snap \<in> {Running, Cancelling}" "st \<in> {Completed, Failed, Cancelled}"
  shows "request_update (stillStale snap) (release_as st)"
  using assms
  by unfold_locales (auto simp: same_request_def release_as_def stillStale_def status_lists)

section \<open>What the sweep does to one request\<close>

lemma archive_statuses: "archive_status st ss \<in> {Completed, Failed, Cancelled}"
  by (simp add: archive_status_def)

lemma claim_stale_found:
  assumes "find_request db (cqId snap) = Some r" and d: "distinct_keys cqId (cmRequests db)"
  shows "find_request (fst (claim_stale now snap st db)) (cqId snap)
      = Some (if stillStale snap r then (release_as st r)\<lparr>cqUpdatedAt := now\<rparr> else r)"
    and "snd (claim_stale now snap st db) = 0 \<longleftrightarrow> \<not> stillStale snap r"
    and "cmTargets (fst (claim_stale now snap st db)) = cmTargets db"
proof -
  show "find_request (fst (claim_stale now snap st db)) (cqId snap)
      = Some (if stillStale snap r then (release_as st r)\<lparr>cqUpdatedAt := now\<rparr> else r)"
    unfolding claim_stale_def using assms(1)
    by (subst find_update_requests) (simp_all add: release_as_def)
  have r: "r \<in> set (cmRequests db)" "cqId r = cqId snap"
    using find_first_Some [OF assms(1) [unfolded find_request_def]] by simp_all
  have "x = r" if "x \<in> set (cmRequests db)" "stillStale snap x" for x
    using distinct_keys_unique [OF d that(1) r(1)] that(2) r(2) by (simp add: stillStale_def)
  then show "snd (claim_stale now snap st db) = 0 \<longleftrightarrow> \<not> stillStale snap r"
    unfolding claim_stale_def update_requests_simps count_where_zero using r(1) by blast
  show "cmTargets (fst (claim_stale now snap st db)) = cmTargets db"
    by (simp add: claim_stale_def)
qed

lemma if_pair:
  assumes "(if b then (x, False) else (y, True)) = (d, ok)"
  shows "b \<Longrightarrow> ok = False \<and> d = x" "\<not> b \<Longrightarrow> ok = True \<and> d = y"
  using assms by auto


definition sample_stale :: "time option \<Rightarrow> stale_request" where
  "sample_stale beat = \<lparr>stRequest = (sample_request ''r1'' Running 30)\<lparr>cqHeartbeatAt := beat\<rparr>,
     stTargets = [Running]\<rparr>"


end
