(* ===== verification/Command_Requests.thy ===== *)
theory Command_Requests
  imports Command_Recovery
begin

text \<open>
  \<^verbatim>\<open>src/lib/command/service-requests.ts\<close>: creating, reviewing, cancelling and listing command
  requests.  Each operation reads, then claims with a guarded update, then writes what follows;
  the claims and the later writes are definitions of their own, which \<^verbatim>\<open>Command_System\<close>
  interleaves.  Notifications are not kept.
\<close>

datatype command_failure = CommandApp app_error | CommandSchema

section \<open>Creating\<close>

definition resolveCommandTeamId ::
  "string option option \<Rightarrow> session option \<Rightarrow> string option result" where
  "resolveCommandTeamId payloadTeamId session =
     (case session of
        None \<Rightarrow> Inr (case payloadTeamId of None \<Rightarrow> None | Some t \<Rightarrow> t)
      | Some s \<Rightarrow>
          if sessionHasPermission s ''team:manage'' \<and> payloadTeamId \<noteq> None then Inr (the payloadTeamId)
          else (case teamCreateData s of Inl e \<Rightarrow> Inl e | Inr t \<Rightarrow> Inr (Some t)))"

record command_server =
  csRow :: server_row
  csOnboardingStatus :: "string option"
  csManagementMode :: "string option"
  csAgentLastSeenAt :: "time option"
  csConnectionType :: string
  csPassword :: "string option"
  csSshKeyId :: "string option"
  csLatestMetric :: "(bool \<times> time) option"

text \<open>The targets a caller may name: the session's servers, or without a session those of the
  stamped team, where no team means the quarantined rows without one.\<close>

definition target_server :: "session option \<Rightarrow> string option \<Rightarrow> string list \<Rightarrow> server_row \<Rightarrow> bool" where
  "target_server session teamId serverIds srv =
     (case session of
        Some s \<Rightarrow>
          (case serverTeamWhere s Connect of
             Servers (IdRows k) \<Rightarrow> srvId srv = k
           | sc \<Rightarrow> srvId srv \<in> set serverIds \<and> server_admits sc srv)
      | None \<Rightarrow> srvId srv \<in> set serverIds \<and> srvTeamId srv = (if truthy teamId then teamId else None))"

definition server_availability :: "time \<Rightarrow> command_server \<Rightarrow> unavailable_reason + unit" where
  "server_availability now cs =
     getServerTargetAvailability
       \<lparr>avOnboardingStatus = csOnboardingStatus cs, avManagementMode = csManagementMode cs,
        avAgentLastSeenAt = csAgentLastSeenAt cs,
        avHasSshCredential = Some (if csConnectionType cs = ''SSH_KEY'' then truthy (csSshKeyId cs)
                                   else truthy (csPassword cs)),
        avLatestMetric = csLatestMetric cs\<rparr> now"

definition assertCommandTargetServersInScope ::
  "command_server list \<Rightarrow> time \<Rightarrow> string list \<Rightarrow> session option \<Rightarrow> string option \<Rightarrow> unit result" where
  "assertCommandTargetServersInScope table now serverIds session teamId =
     (let servers = filter (\<lambda>cs. target_server session teamId serverIds (csRow cs)) table in
      if length servers \<noteq> length serverIds then Inl (ValidationError ''backend.command.targetsOutOfScope'')
      else if \<exists>cs \<in> set servers. \<not> srvEnabled (csRow cs)
      then Inl (ValidationError ''backend.command.targetsDisabled'')
      else if \<exists>cs \<in> set servers. server_availability now cs \<noteq> Inr ()
      then Inl (ValidationError ''backend.command.targetsUnavailable'')
      else Inr ())"

definition toInitiatedByType :: "ApprovalActorType \<Rightarrow> actor_type" where
  "toInitiatedByType mode = (if mode = Assistant then AssistantActor else UserActor)"

text \<open>The replay of an idempotency key, within what the caller may see.\<close>

definition replay_request ::
  "string \<Rightarrow> session option \<Rightarrow> string option \<Rightarrow> command_db \<Rightarrow> command_request option" where
  "replay_request key session teamId db =
     find_first (\<lambda>r. cqIdempotencyKey r = Some key
       \<and> (case session of
            Some s \<Rightarrow> scope_admits (commandRequestTeamWhere s) (cqId r) (cqTeamId r)
          | None \<Rightarrow> cqTeamId r = teamId)) (cmRequests db)"

definition initial_status :: "bool \<Rightarrow> command_status" where
  "initial_status requiresApproval = (if requiresApproval then PendingApproval else Approved)"

definition requires_approval :: "create_input \<Rightarrow> bool" where
  "requires_approval p =
     (case ciApprovalRequired p of
        Some b \<Rightarrow> b | None \<Rightarrow> isProtectedByApproval (ciSubmissionMode p) Command_execute)"

record new_ids =
  niRequest :: string
  niTarget :: "string \<Rightarrow> string"

definition new_request :: "new_ids \<Rightarrow> time \<Rightarrow> create_input \<Rightarrow> string option \<Rightarrow> command_request" where
  "new_request ids now p teamId =
     \<lparr>cqId = niRequest ids, cqTitle = ciTitle p, cqCommand = ciCommand p, cqReason = ciReason p,
      cqStatus = initial_status (requires_approval p),
      cqInitiatedBy = toInitiatedByType (ciSubmissionMode p), cqRequesterId = ciRequesterId p,
      cqWorkerId = None, cqHeartbeatAt = None, cqIdempotencyKey = ciIdempotencyKey p,
      cqCreatedAt = now, cqUpdatedAt = now, cqTeamId = teamId\<rparr>"

definition new_targets :: "new_ids \<Rightarrow> create_input \<Rightarrow> command_target list" where
  "new_targets ids p =
     map (\<lambda>serverId. \<lparr>ctId = niTarget ids serverId, ctRequestId = niRequest ids, ctServerId = serverId,
        ctStatus = initial_status (requires_approval p), ctStdout = None, ctStderr = None,
        ctExitCode = None, ctStartedAt = None, ctFinishedAt = None, ctOutcomeUnknown = False\<rparr>)
       (ciServerIds p)"

text \<open>The insert; \<open>idempotencyKey\<close> is unique over all teams.\<close>

definition insert_request ::
  "new_ids \<Rightarrow> time \<Rightarrow> create_input \<Rightarrow> string option \<Rightarrow> command_db \<Rightarrow> command_db option" where
  "insert_request ids now p teamId db =
     (if ciIdempotencyKey p \<noteq> None
         \<and> (\<exists>r \<in> set (cmRequests db). cqIdempotencyKey r = ciIdempotencyKey p) then None
      else Some (db\<lparr>cmRequests := cmRequests db @ [new_request ids now p teamId],
                    cmTargets := cmTargets db @ new_targets ids p\<rparr>))"

text \<open>
  What comes before the insert, on the tables \<open>db0\<close>: an earlier request under the same key, an
  error, or the payload and the team to insert.
\<close>

datatype create_plan = Replayed command_request | Insert create_input "string option"

definition plan_create ::
  "command_server list \<Rightarrow> time \<Rightarrow> create_input \<Rightarrow> session option \<Rightarrow> command_db
     \<Rightarrow> command_failure + create_plan" where
  "plan_create servers now input session db0 =
     (case createCommandSchema input of
        None \<Rightarrow> Inl CommandSchema
      | Some p \<Rightarrow>
          (case resolveCommandTeamId (ciTeamId p) session of
             Inl e \<Rightarrow> Inl (CommandApp e)
           | Inr teamId \<Rightarrow>
               (case (case ciIdempotencyKey p of None \<Rightarrow> None | Some key \<Rightarrow> replay_request key session teamId db0) of
                  Some r \<Rightarrow> Inr (Replayed r)
                | None \<Rightarrow>
                    (case assertCommandTargetServersInScope servers now (ciServerIds p) session teamId of
                       Inl e \<Rightarrow> Inl (CommandApp e)
                     | Inr _ \<Rightarrow> Inr (Insert p teamId)))))"

definition commit_create ::
  "new_ids \<Rightarrow> time \<Rightarrow> session option \<Rightarrow> create_input \<Rightarrow> string option \<Rightarrow> command_db
     \<Rightarrow> (command_failure + command_request) \<times> command_db" where
  "commit_create ids now session p teamId db =
     (case insert_request ids now p teamId db of
        Some db' \<Rightarrow> (Inr (new_request ids now p teamId), db')
      | None \<Rightarrow>
          (case replay_request (the (ciIdempotencyKey p)) session teamId db of
             Some r \<Rightarrow> (Inr r, db)
           | None \<Rightarrow> (Inl (CommandApp (ValidationError ''backend.command.idempotencyKeyInUse'')), db)))"

text \<open>The handler: the request and whether it waits for approval.  An enqueue that fails is left
  to the sweep.\<close>

definition created_summary :: ustring where "created_summary = u ''backend.command.enqueuedFromCreate''"

definition createCommandRequest ::
  "queue_env \<Rightarrow> new_ids \<Rightarrow> command_server list \<Rightarrow> time \<Rightarrow> create_input \<Rightarrow> session option
     \<Rightarrow> command_db \<Rightarrow> (command_failure + (command_request \<times> bool)) \<times> command_db" where
  "createCommandRequest env ids servers now input session db =
     (case plan_create servers now input session db of
        Inl e \<Rightarrow> (Inl e, db)
      | Inr (Replayed r) \<Rightarrow> (Inr (r, cqStatus r = PendingApproval), db)
      | Inr (Insert p teamId) \<Rightarrow>
          (case commit_create ids now session p teamId db of
             (Inl e, db1) \<Rightarrow> (Inl e, db1)
           | (Inr r, db1) \<Rightarrow>
               if insert_request ids now p teamId db = None
               then (Inr (r, cqStatus r = PendingApproval), db1)
               else if requires_approval p then (Inr (r, True), db1)
               else (Inr (r, False),
                     fst (enqueueApprovedCommandExecution env now (cqId r) created_summary db1))))"

section \<open>Reviewing\<close>

text \<open>The checks on the request as it is read.\<close>

definition plan_review ::
  "review_input \<Rightarrow> session option \<Rightarrow> command_db \<Rightarrow> command_failure + (review_input \<times> command_request)" where
  "plan_review input session db =
     (case reviewCommandSchema input of
        None \<Rightarrow> Inl CommandSchema
      | Some p \<Rightarrow>
          (case find_first (request_where session (riRequestId p)) (cmRequests db) of
             None \<Rightarrow> Inl (CommandApp (NotFoundError ''backend.command.requestNotFound''))
           | Some r \<Rightarrow>
               if cqStatus r \<noteq> PendingApproval
               then Inl (CommandApp (BusinessError ''backend.command.notPendingApproval'' 422))
               else if cqRequesterId r = riApproverId p
                       \<and> \<not> (case session of None \<Rightarrow> False | Some s \<Rightarrow> sessionHasPermission s ''team:manage'')
               then Inl (CommandApp (BusinessError ''backend.command.cannotSelfReview'' 422))
               else Inr (p, r)))"

definition approval_of :: "review_input \<Rightarrow> command_approval" where
  "approval_of p = \<lparr>caRequestId = riRequestId p, caApproverId = riApproverId p, caApproved = riApproved p,
     caComment = riComment p\<rparr>"

text \<open>The transaction: the approval and the compare-and-set, or neither (\<open>None\<close>).\<close>

definition review_row :: "bool \<Rightarrow> command_request \<Rightarrow> command_request" where
  "review_row approved r =
     (if approved then r\<lparr>cqStatus := Approved\<rparr>
      else r\<lparr>cqStatus := Rejected, cqWorkerId := None, cqHeartbeatAt := None\<rparr>)"

definition review_tx ::
  "time \<Rightarrow> session option \<Rightarrow> review_input \<Rightarrow> command_db \<Rightarrow> command_db option" where
  "review_tx now session p db =
     (case update_requests now (\<lambda>r. request_where session (riRequestId p) r \<and> cqStatus r = PendingApproval)
             (review_row (riApproved p)) db of
        (db1, n) \<Rightarrow>
          if n = 0 then None else Some (db1\<lparr>cmApprovals := cmApprovals db @ [approval_of p]\<rparr>))"

definition reject_targets :: "time \<Rightarrow> string \<Rightarrow> command_db \<Rightarrow> command_db" where
  "reject_targets now reqId db =
     fst (update_targets (\<lambda>t. ctRequestId t = reqId)
       (\<lambda>t. t\<lparr>ctStatus := Rejected, ctFinishedAt := Some now\<rparr>) db)"

definition reviewCommandRequest ::
  "queue_env \<Rightarrow> time \<Rightarrow> review_input \<Rightarrow> session option \<Rightarrow> command_db
     \<Rightarrow> (command_failure + unit) \<times> command_db" where
  "reviewCommandRequest env now input session db =
     (case plan_review input session db of
        Inl e \<Rightarrow> (Inl e, db)
      | Inr (p, r) \<Rightarrow>
          (case review_tx now session p db of
             None \<Rightarrow> (Inl (CommandApp (BusinessError ''backend.command.alreadyReviewed'' 422)), db)
           | Some db1 \<Rightarrow>
               if riApproved p
               then (Inr (), fst (enqueueApprovedCommandExecution env now (riRequestId p)
                       (u ''backend.command.enqueuedFromApproval'') db1))
               else (Inr (), add_log (riRequestId p) None (u ''backend.command.rejectedSummary'')
                       (reject_targets now (riRequestId p) db1))))"

section \<open>Cancelling\<close>

definition plan_cancel ::
  "string \<Rightarrow> string \<Rightarrow> session option \<Rightarrow> command_db \<Rightarrow> command_failure + command_request" where
  "plan_cancel rawId actorId session db =
     (let reqId = trim rawId in
      if reqId = [] then Inl (CommandApp (ValidationError ''backend.command.requestNotFound''))
      else case find_first (request_where session reqId) (cmRequests db) of
        None \<Rightarrow> Inl (CommandApp (NotFoundError ''backend.command.requestNotFound''))
      | Some r \<Rightarrow>
          if (case session of None \<Rightarrow> False | Some s \<Rightarrow> cqRequesterId r \<noteq> actorId
                \<and> \<not> (sessionHasPermission s ''command:approve'' \<or> sessionHasPermission s ''team:manage''))
          then Inl (CommandApp (BusinessError ''backend.command.cannotCancelOthers'' 422))
          else if cqStatus r \<noteq> Cancelling \<and> cqStatus r \<notin> set CANCELLABLE_STATUSES
          then Inl (CommandApp (BusinessError ''backend.command.cannotCancelEnded'' 422))
          else Inr r)"

definition cancel_request_row :: "command_status \<Rightarrow> command_request \<Rightarrow> command_request" where
  "cancel_request_row seen r =
     (if seen = Running then r\<lparr>cqStatus := Cancelling\<rparr>
      else r\<lparr>cqStatus := Cancelled, cqWorkerId := None, cqHeartbeatAt := None\<rparr>)"

definition cancel_claim ::
  "time \<Rightarrow> session option \<Rightarrow> string \<Rightarrow> command_status \<Rightarrow> command_db \<Rightarrow> command_db \<times> nat" where
  "cancel_claim now session reqId seen =
     update_requests now (\<lambda>r. request_where session reqId r \<and> cqStatus r = seen) (cancel_request_row seen)"

definition cancel_stderr :: "ustring option \<Rightarrow> ustring" where
  "cancel_stderr reason = u ''Command cancellation requested.''
     @ (case reason of None \<Rightarrow> [] | Some r \<Rightarrow> if us_trim r = [] then [] else u '' Reason: '' @ us_trim r)"

definition cancel_waiting_targets :: "time \<Rightarrow> string \<Rightarrow> ustring \<Rightarrow> command_db \<Rightarrow> command_db" where
  "cancel_waiting_targets now reqId stderr db =
     fst (update_targets (\<lambda>t. ctRequestId t = reqId \<and> ctStatus t \<in> {PendingApproval, Approved})
       (\<lambda>t. t\<lparr>ctStatus := Cancelled, ctStderr := Some stderr, ctExitCode := Some 130, ctFinishedAt := Some now\<rparr>) db)"

definition cancel_running_targets :: "string \<Rightarrow> ustring \<Rightarrow> command_db \<Rightarrow> command_db" where
  "cancel_running_targets reqId stderr db =
     fst (update_targets (\<lambda>t. ctRequestId t = reqId \<and> ctStatus t = Running)
       (\<lambda>t. t\<lparr>ctStatus := Cancelling, ctStderr := Some stderr\<rparr>) db)"

text \<open>\<open>killed\<close> is how many local transports were signalled.\<close>

definition cancel_summary :: "(int \<Rightarrow> string) \<Rightarrow> string \<Rightarrow> nat \<Rightarrow> ustring" where
  "cancel_summary intText actorId killed = u (''Command cancellation requested by '' @ actorId
     @ ''; signalled '' @ intText (int killed)
     @ '' local transports; awaiting executor acknowledgement for running targets.'')"

definition cancelCommandRequest ::
  "(int \<Rightarrow> string) \<Rightarrow> nat \<Rightarrow> time \<Rightarrow> string \<Rightarrow> string \<Rightarrow> ustring option \<Rightarrow> session option
     \<Rightarrow> command_db \<Rightarrow> (command_failure + unit) \<times> command_db" where
  "cancelCommandRequest intText killed now rawId actorId reason session db =
     (case plan_cancel rawId actorId session db of
        Inl e \<Rightarrow> (Inl e, db)
      | Inr r \<Rightarrow>
          if cqStatus r = Cancelling then (Inr (), db)
          else
            let reqId = trim rawId; stderr = cancel_stderr reason in
            case cancel_claim now session reqId (cqStatus r) db of
              (db1, n) \<Rightarrow>
                if n = 0 then (Inl (CommandApp (BusinessError ''backend.command.cannotCancelEnded'' 422)), db1)
                else (Inr (), add_log reqId None (cancel_summary intText actorId killed)
                       (cancel_running_targets reqId stderr (cancel_waiting_targets now reqId stderr db1))))"

section \<open>Listing\<close>

definition OPEN_COMMAND_STATUSES :: "command_status list" where
  "OPEN_COMMAND_STATUSES = [PendingApproval, Approved, Running, Cancelling]"

definition COMMAND_HISTORY_LIMIT :: nat where "COMMAND_HISTORY_LIMIT = 100"
definition OPEN_COMMAND_LIMIT :: nat where "OPEN_COMMAND_LIMIT = 500"

definition newer :: "command_request \<Rightarrow> command_request \<Rightarrow> bool" where
  "newer a b \<longleftrightarrow> cqCreatedAt b \<le> cqCreatedAt a"

fun first_by_id :: "string list \<Rightarrow> command_request list \<Rightarrow> command_request list" where
  "first_by_id seen [] = []"
| "first_by_id seen (r # rs) =
     (if cqId r \<in> set seen then first_by_id seen rs else r # first_by_id (cqId r # seen) rs)"

definition visible_requests :: "session option \<Rightarrow> command_db \<Rightarrow> command_request list" where
  "visible_requests session db =
     filter (\<lambda>r. case session of None \<Rightarrow> True
        | Some s \<Rightarrow> scope_admits (commandRequestTeamWhere s) (cqId r) (cqTeamId r)) (cmRequests db)"

definition listCommandRequests :: "session option \<Rightarrow> command_db \<Rightarrow> command_request list" where
  "listCommandRequests session db =
     (let rows = visible_requests session db;
          open' = take OPEN_COMMAND_LIMIT (sort_by newer (filter (\<lambda>r. cqStatus r \<in> set OPEN_COMMAND_STATUSES) rows));
          recent = take COMMAND_HISTORY_LIMIT (sort_by newer rows)
      in sort_by newer (first_by_id [] (open' @ recent)))"


section \<open>Creating once\<close>

lemma update_requests_keys:
  assumes "\<And>r. key ((f r)\<lparr>cqUpdatedAt := now\<rparr>) = key r"
  shows "map key (cmRequests (fst (update_requests now p f db))) = map key (cmRequests db)"
  using assms by (simp cong: map_cong)

lemma enqueue_keys:
  fixes key :: "command_request \<Rightarrow> string \<times> string option"
  assumes key: "key = (\<lambda>r. (cqId r, cqIdempotencyKey r))"
  shows "map key (cmRequests (fst (enqueueApprovedCommandExecution env now i summary db))) = map key (cmRequests db)"
proof -
  have 1: "map key (cmRequests (fst (claim_approved w now i d))) = map key (cmRequests d)" for w d
    unfolding claim_approved_def by (rule update_requests_keys) (simp add: key)
  have 2: "map key (cmRequests (unclaim_request now i d)) = map key (cmRequests d)" for d
    unfolding unclaim_request_def by (rule update_requests_keys) (simp add: key)
  have 3: "cmRequests (markTargetsRunning i now d) = cmRequests d" "cmRequests (unclaim_targets i d) = cmRequests d" for d
    by (simp_all add: markTargetsRunning_def unclaim_targets_def)
  show ?thesis
    by (auto simp: enqueueApprovedCommandExecution_def Let_def case_prod_unfold 1 2 3
        split: option.split dest: schedule_rows)
qed

lemma count_key: "count_where (\<lambda>r. cqIdempotencyKey r = k) rs = count_where (\<lambda>x. snd x = k) (map (\<lambda>r. (cqId r, cqIdempotencyKey r)) rs)"
  by (simp add: count_where_map)

lemma replay_some:
  "replay_request key session teamId db = Some r \<Longrightarrow> r \<in> set (cmRequests db) \<and> cqIdempotencyKey r = Some key
     \<and> (case session of Some s \<Rightarrow> scope_admits (commandRequestTeamWhere s) (cqId r) (cqTeamId r) | None \<Rightarrow> cqTeamId r = teamId)"
  unfolding replay_request_def using find_first_Some by fastforce

text \<open>What a successful create under a key does.\<close>

lemma create_cases:
  assumes c: "createCommandRequest env ids servers now input session db = (Inr (r, waits), db')"
    and p: "createCommandSchema input = Some p" "ciIdempotencyKey p = Some key"
  obtains team where "db' = db" "resolveCommandTeamId (ciTeamId p) session = Inr team" "replay_request key session team db = Some r"
  | team d where "insert_request ids now p team db = Some d" "r = new_request ids now p team"
      "map (\<lambda>r. (cqId r, cqIdempotencyKey r)) (cmRequests db') = map (\<lambda>r. (cqId r, cqIdempotencyKey r)) (cmRequests d)"
proof -
  obtain team where t: "resolveCommandTeamId (ciTeamId p) session = Inr team"
    using c p by (auto simp: createCommandRequest_def plan_create_def split: sum.splits)
  show thesis
  proof (cases "replay_request key session team db")
    case (Some x)
    then have "plan_create servers now input session db = Inr (Replayed x)"
      using p t by (simp add: plan_create_def)
    then have "r = x" "db' = db" using c by (auto simp: createCommandRequest_def)
    then show thesis using that(1) t Some by blast
  next
    case None
    then have pl: "plan_create servers now input session db = Inr (Insert p team)"
      using c p t by (auto simp: createCommandRequest_def plan_create_def split: sum.splits)
    show thesis
    proof (cases "insert_request ids now p team db")
      case None
      then show thesis
        using c pl \<open>replay_request key session team db = None\<close> p(2)
        by (simp add: createCommandRequest_def commit_create_def)
    next
      case (Some d)
      then have r: "r = new_request ids now p team"
        and d: "db' = (if requires_approval p then d
            else fst (enqueueApprovedCommandExecution env now (cqId (new_request ids now p team)) created_summary d))"
        using c pl by (auto simp: createCommandRequest_def commit_create_def split: if_splits)
      show thesis by (rule that(2) [OF Some r]) (simp add: d enqueue_keys [OF refl])
    qed
  qed
qed

text \<open>
  C22. An idempotency key stands for one request.  When a create under a key succeeds, exactly
  one row of the table carries the key afterwards and it is the request that was returned; if a
  row already carried the key, that row is returned unchanged and nothing is written, and this
  happens only within what the caller may see: its customer scope, or the stamped team of a
  caller without a session.  A key taken by another customer is never answered with its row.
\<close>

theorem create_once:
  assumes c: "createCommandRequest env ids servers now input session db = (Inr (r, waits), db')"
    and p: "createCommandSchema input = Some p" "ciIdempotencyKey p = Some key"
    and once: "count_where (\<lambda>r. cqIdempotencyKey r = Some key) (cmRequests db) \<le> 1"
  shows "count_where (\<lambda>r. cqIdempotencyKey r = Some key) (cmRequests db') = 1
     \<and> (\<exists>x \<in> set (cmRequests db'). cqId x = cqId r \<and> cqIdempotencyKey x = Some key)
     \<and> (count_where (\<lambda>r. cqIdempotencyKey r = Some key) (cmRequests db) = 1 \<longrightarrow> db' = db
          \<and> (case session of Some s \<Rightarrow> scope_admits (commandRequestTeamWhere s) (cqId r) (cqTeamId r)
             | None \<Rightarrow> cqTeamId r = (case ciTeamId p of None \<Rightarrow> None | Some t \<Rightarrow> t)))"
  using c p
proof (cases rule: create_cases)
  case (1 team)
  note x = replay_some [OF 1(3)]
  have "0 < count_where (\<lambda>r. cqIdempotencyKey r = Some key) (cmRequests db)"
    using x count_where_pos by fast
  then have n: "count_where (\<lambda>r. cqIdempotencyKey r = Some key) (cmRequests db) = 1" using once by linarith
  have "team = (case ciTeamId p of None \<Rightarrow> None | Some t \<Rightarrow> t)" if "session = None"
    using 1(2) that by (simp add: resolveCommandTeamId_def)
  then show ?thesis using x n 1(1) by (cases session) auto
next
  case (2 team d)
  have free: "count_where (\<lambda>r. cqIdempotencyKey r = Some key) (cmRequests db) = 0"
    using 2(1) p(2) by (auto simp: insert_request_def split: if_splits)
  have d: "cmRequests d = cmRequests db @ [new_request ids now p team]"
    using 2(1) by (auto simp: insert_request_def split: if_splits)
  have "count_where (\<lambda>r. cqIdempotencyKey r = Some key) (cmRequests db')
      = count_where (\<lambda>r. cqIdempotencyKey r = Some key) (cmRequests d)"
    unfolding count_key 2(3) ..
  also have "\<dots> = 1" using free p(2) unfolding d by (simp add: new_request_def)
  finally have one: "count_where (\<lambda>r. cqIdempotencyKey r = Some key) (cmRequests db') = 1" .
  have "(cqId r, Some key) \<in> set (map (\<lambda>r. (cqId r, cqIdempotencyKey r)) (cmRequests d))"
    using p(2) 2(2) unfolding d by (simp add: new_request_def)
  then have "(cqId r, Some key) \<in> set (map (\<lambda>r. (cqId r, cqIdempotencyKey r)) (cmRequests db'))" unfolding 2(3) .
  then have "\<exists>x \<in> set (cmRequests db'). cqId x = cqId r \<and> cqIdempotencyKey x = Some key" by auto
  moreover have "count_where (\<lambda>r. cqIdempotencyKey r = Some key) (cmRequests db) \<noteq> 1" using free by linarith
  ultimately show ?thesis using one by blast
qed


section \<open>What a list shows\<close>

interpretation newest_first: total_comparator newer
  by unfold_locales (auto simp: newer_def)

lemma first_by_id_spec:
  "distinct (map cqId (first_by_id seen rs)) \<and> cqId ` set (first_by_id seen rs) = cqId ` set rs - set seen
   \<and> set (first_by_id seen rs) \<subseteq> set rs"
  by (induction seen rs rule: first_by_id.induct) auto

lemma first_by_id_mem:
  assumes "r \<in> set rs" "\<And>x. x \<in> set rs \<Longrightarrow> cqId x = cqId r \<Longrightarrow> x = r"
  shows "r \<in> set (first_by_id [] rs)"
proof -
  have "cqId r \<in> cqId ` set (first_by_id [] rs)" using first_by_id_spec [of "[]" rs] assms(1) by auto
  then obtain x where "x \<in> set (first_by_id [] rs)" "cqId x = cqId r" by auto
  then show ?thesis using first_by_id_spec [of "[]" rs] assms(2) by (metis subsetD)
qed

text \<open>
  C23. A request that waits for somebody cannot be pushed out of the list.  The list holds only
  requests of the caller's scope, each once, the newest first; as long as no more than 500 are
  open, every open request the caller may see is in it, however many newer finished ones there
  are, and the newest 100 of every status are in it too.
\<close>

theorem list_shows_open:
  assumes d: "distinct_keys cqId (cmRequests db)"
  shows "set (listCommandRequests session db) \<subseteq> set (visible_requests session db)
     \<and> sorted_wrt newer (listCommandRequests session db) \<and> distinct (map cqId (listCommandRequests session db))
     \<and> (length (filter (\<lambda>r. cqStatus r \<in> set OPEN_COMMAND_STATUSES) (visible_requests session db)) \<le> 500
          \<longrightarrow> {r \<in> set (visible_requests session db). cqStatus r \<in> set OPEN_COMMAND_STATUSES} \<subseteq> set (listCommandRequests session db))
     \<and> set (take 100 (sort_by newer (visible_requests session db))) \<subseteq> set (listCommandRequests session db)"
proof -
  let ?v = "visible_requests session db"
  let ?o = "sort_by newer (filter (\<lambda>r. cqStatus r \<in> set OPEN_COMMAND_STATUSES) ?v)"
  let ?all = "take OPEN_COMMAND_LIMIT ?o @ take COMMAND_HISTORY_LIMIT (sort_by newer ?v)"
  have l: "listCommandRequests session db = sort_by newer (first_by_id [] ?all)"
    by (simp add: listCommandRequests_def Let_def)
  have sub: "set ?all \<subseteq> set ?v" by (auto dest!: in_set_takeD)
  have uniq: "x = r" if "x \<in> set ?v" "r \<in> set ?v" "cqId x = cqId r" for x r
    using distinct_keys_unique [OF d _ _ that(3)] that(1,2) by (simp add: visible_requests_def)
  have mem: "r \<in> set (first_by_id [] ?all)" if "r \<in> set ?all" for r
    by (rule first_by_id_mem [OF that]) (use uniq sub that in blast)
  have "mset (map cqId (sort_by newer (first_by_id [] ?all))) = mset (map cqId (first_by_id [] ?all))"
    by simp
  then have "distinct (map cqId (listCommandRequests session db))"
    unfolding l using first_by_id_spec [of "[]" ?all] by (metis mset_eq_imp_distinct_iff)
  moreover have "sorted_wrt newer (listCommandRequests session db)"
    unfolding l by (rule newest_first.sorted_sort_by)
  moreover have "set (listCommandRequests session db) \<subseteq> set ?v"
    unfolding l using first_by_id_spec [of "[]" ?all] sub by (metis set_sort_by subset_trans)
  moreover have "{r \<in> set ?v. cqStatus r \<in> set OPEN_COMMAND_STATUSES} \<subseteq> set (listCommandRequests session db)"
    if "length (filter (\<lambda>r. cqStatus r \<in> set OPEN_COMMAND_STATUSES) ?v) \<le> 500"
  proof -
    have "take OPEN_COMMAND_LIMIT ?o = ?o" using that by (simp add: OPEN_COMMAND_LIMIT_def)
    then show ?thesis unfolding l using mem by auto
  qed
  moreover have "set (take 100 (sort_by newer ?v)) \<subseteq> set (listCommandRequests session db)"
    unfolding l using mem by (auto simp: COMMAND_HISTORY_LIMIT_def)
  ultimately show ?thesis by blast
qed

theorem list_shows_open_witness:
  "sample_request ''r1'' Approved 30 \<in> set (listCommandRequests None sample_commands)"
proof -
  have d: "distinct_keys cqId (cmRequests sample_commands)" by code_simp
  have m: "sample_request ''r1'' Approved 30 \<in> {r \<in> set (visible_requests None sample_commands). cqStatus r \<in> set OPEN_COMMAND_STATUSES}"
    by (simp add: visible_requests_def sample_commands_def sample_request_def OPEN_COMMAND_STATUSES_def)
  have n: "length (filter (\<lambda>r. cqStatus r \<in> set OPEN_COMMAND_STATUSES) (visible_requests None sample_commands)) \<le> 500"
    by (simp add: visible_requests_def sample_commands_def)
  show ?thesis using list_shows_open [OF d, of None] m n by blast
qed

definition sample_form :: "bool \<Rightarrow> create_input" where
  "sample_form gated = \<lparr>ciTitle = u ''uptime'', ciCommand = u ''uptime'', ciReason = None, ciSubmissionMode = User_actor,
     ciApprovalRequired = Some gated, ciRequesterId = ''u1'', ciTeamId = Some (Some ''t1''),
     ciIdempotencyKey = Some ''k1'', ciServerIds = [''s1'']\<rparr>"

definition sample_ids :: new_ids where
  "sample_ids = \<lparr>niRequest = ''r1'', niTarget = (\<lambda>s. ''c'' @ s)\<rparr>"

definition sample_servers :: "command_server list" where
  "sample_servers = [\<lparr>csRow = exec_server, csOnboardingStatus = None, csManagementMode = None,
     csAgentLastSeenAt = None, csConnectionType = ''PASSWORD'', csPassword = Some ''x'', csSshKeyId = None,
     csLatestMetric = None\<rparr>]"

definition sample_state :: "command_request list \<Rightarrow> command_target list \<Rightarrow> command_approval list \<Rightarrow> execution_log list \<Rightarrow> job list \<Rightarrow> command_db" where
  "sample_state rs ts as ls js = \<lparr>cmRequests = rs, cmTargets = ts, cmApprovals = as, cmLogs = ls, cmJobs = js\<rparr>"

lemma sample_parsed: "createCommandSchema (sample_form gated) = Some (sample_form gated)"
proof -
  have "length (u ''uptime'') = 6" by simp
  moreover have "us_trim (u ''uptime'') = u ''uptime''" by (simp add: us_trim_def us_space_def)
  moreover have "trim ''u1'' = ''u1''" "trim ''t1'' = ''t1''" "trim ''k1'' = ''k1''"
    "normalizedServerIds [''s1''] = Some [''s1'']" by code_simp+
  ultimately show ?thesis
    by (simp add: createCommandSchema_def sample_form_def text_ok_def opt_all_def Let_def)
qed

lemma sample_planned:
  "plan_create sample_servers 10 (sample_form gated) None (sample_state [] [] [] [] [])
     = Inr (Insert (sample_form gated) (Some ''t1''))"
proof -
  have r: "resolveCommandTeamId (ciTeamId (sample_form gated)) None = Inr (Some ''t1'')"
    by (simp add: resolveCommandTeamId_def sample_form_def)
  have "assertCommandTargetServersInScope sample_servers 10 [''s1''] None (Some ''t1'') = Inr ()" by code_simp
  then have a: "assertCommandTargetServersInScope sample_servers 10 (ciServerIds (sample_form gated)) None (Some ''t1'') = Inr ()"
    by (simp add: sample_form_def)
  have "ciIdempotencyKey (sample_form gated) = Some ''k1''" "replay_request ''k1'' None (Some ''t1'') (sample_state [] [] [] [] []) = None"
    by (simp_all add: sample_form_def replay_request_def sample_state_def find_first_None)
  then show ?thesis by (simp add: plan_create_def sample_parsed r a)
qed

theorem create_once_witness:
  "\<exists>r db'. createCommandRequest (sample_queue (\<lambda>_. False)) sample_ids sample_servers 10 (sample_form True) None
       (sample_state [] [] [] [] []) = (Inr (r, True), db')
     \<and> count_where (\<lambda>r. cqIdempotencyKey r = Some ''k1'') (cmRequests db') = 1"
proof -
  have "insert_request sample_ids 10 (sample_form True) (Some ''t1'') (sample_state [] [] [] [] []) \<noteq> None" by code_simp
  then obtain d where d: "insert_request sample_ids 10 (sample_form True) (Some ''t1'') (sample_state [] [] [] [] []) = Some d" by blast
  have "requires_approval (sample_form True)" by code_simp
  then obtain r db' where c: "createCommandRequest (sample_queue (\<lambda>_. False)) sample_ids sample_servers 10 (sample_form True) None
       (sample_state [] [] [] [] []) = (Inr (r, True), db')"
    by (simp add: createCommandRequest_def sample_planned commit_create_def d)
  have k: "ciIdempotencyKey (sample_form True) = Some ''k1''" by (simp add: sample_form_def)
  have "count_where (\<lambda>r. cqIdempotencyKey r = Some ''k1'') (cmRequests (sample_state [] [] [] [] [])) \<le> 1"
    by (simp add: sample_state_def)
  from create_once [OF c sample_parsed k this] c show ?thesis by blast
qed

end
