(* ===== verification/Command_System.thy ===== *)
theory Command_System
  imports Command_Requests
begin

text \<open>
  The command workflow with everything that touches it at once: requests that are created,
  reviewed and cancelled by several users, the workers that queue and execute them, the sweeps
  that recover them, and servers that stop at any point.

  Each handler of \<^verbatim>\<open>src/lib/command\<close> is cut at its database statements.  A process (\<open>proc\<close>) is
  the rest of a handler after its last statement, with the values it has read; \<open>entry\<close> is the
  read a handler starts with, \<open>forks\<close> what an executor starts beside itself (its targets and its
  heartbeat timer), \<open>proc_step\<close> one statement.  The statements are the definitions of the
  component theories.  \<open>sys_step\<close> interleaves the processes in any order; a process may also stop
  for good (an exception, a lost connection, a crash).  The executor may re-read its request
  while targets still run, which the code does not, and everything the transports, the accounts
  and the clock answer is arbitrary: every run of the code is a run of this relation.  Deleting
  old requests (\<^verbatim>\<open>operation-task/retention.ts\<close>) is left out.

  Proved: finished requests and targets never change again, each statement refines the
  workflow \<open>status_move\<close>, and nothing runs that needed a second person's consent and did not
  get it.
\<close>

section \<open>Processes\<close>

datatype effect =
    Silent
  | Created string bool
  | Reviewed command_approval "session option"
  | Dispatched string string

datatype proc =
    Creating new_ids create_input "string option"
  | Reviewing "session option" review_input
  | Rejecting string
  | CancelClaiming "session option" string command_status ustring ustring
  | CancelWaiting string ustring ustring
  | CancelRunning string ustring ustring
  | Enqueueing string ustring
  | Marking string ustring
  | Checking string ustring
  | Scheduling string
  | UndoingRequest string
  | UndoingTargets string
  | Starting string
  | Executing string
  | Beating string
  | Gating string string string
  | Aborting string string
  | Denied string string ustring
  | Transporting string string
  | Finishing string command_status "command_status list" nat nat
  | Acknowledging string "command_status list"
  | GivingUp string ustring
  | FailingTargets string ustring bool ustring
  | Recovering stale_request
  | Logging string "string option" ustring

text \<open>The reads that start a handler.\<close>

inductive entry :: "command_db \<Rightarrow> proc \<Rightarrow> bool" where
  Create: "plan_create servers now input session db = Inr (Insert p team) \<Longrightarrow> entry db (Creating ids p team)"
| Review: "plan_review input session db = Inr (p, r) \<Longrightarrow> entry db (Reviewing session p)"
| Cancel: "plan_cancel rawId actorId session db = Inr r \<Longrightarrow> cqStatus r \<noteq> Cancelling
    \<Longrightarrow> entry db (CancelClaiming session (trim rawId) (cqStatus r) (cancel_stderr reason)
          (cancel_summary intText actorId killed))"
| Sweep: "r \<in> set (queued_requests limit db) \<Longrightarrow> entry db (Enqueueing (cqId r) (reclaim_summary env))"
| Execute: "j \<in> set (cmJobs db) \<Longrightarrow> jType j = COMMAND_EXECUTION_JOB_TYPE
    \<Longrightarrow> parseCommandExecutionJobPayload (jPayload j) = Inr payload
    \<Longrightarrow> find_request db (epRequestId payload) = Some r \<Longrightarrow> cqStatus r \<noteq> Cancelled
    \<Longrightarrow> entry db (Starting (epRequestId payload))"
| Execute_Lost: "j \<in> set (cmJobs db) \<Longrightarrow> jType j = COMMAND_EXECUTION_JOB_TYPE
    \<Longrightarrow> parseCommandExecutionJobPayload (jPayload j) = Inr payload
    \<Longrightarrow> entry db (GivingUp (epRequestId payload) message)"
| Recover: "s \<in> set (stale_requests cutoff db) \<Longrightarrow> entry db (Recovering s)"

inductive forks :: "command_db \<Rightarrow> proc \<Rightarrow> proc \<Rightarrow> bool" where
  Fork_Target: "t \<in> set (targets_of db i) \<Longrightarrow> forks db (Executing i) (Gating i (ctId t) (ctServerId t))"
| Fork_Beat: "forks db (Executing i) (Beating i)"
| Fork_Late_Beat: "forks db (Finishing i st sts n m) (Beating i)"

text \<open>Ids as \<^verbatim>\<open>cuid()\<close> makes them: unused, without blanks at the ends, none of the sentinels of the
  tenant scopes.\<close>

definition cuid_like :: "string \<Rightarrow> bool" where
  "cuid_like i \<longleftrightarrow> i \<noteq> [] \<and> trim i = i \<and> take 2 i \<noteq> ''__''"

definition fresh_ids :: "new_ids \<Rightarrow> create_input \<Rightarrow> command_db \<Rightarrow> bool" where
  "fresh_ids ids p db \<longleftrightarrow> cuid_like (niRequest ids) \<and> niRequest ids \<notin> cqId ` set (cmRequests db)
     \<and> distinct (map (niTarget ids) (ciServerIds p))
     \<and> (\<forall>x \<in> set (ciServerIds p). niTarget ids x \<notin> ctId ` set (cmTargets db))"

inductive proc_step :: "proc \<Rightarrow> command_db \<Rightarrow> effect \<Rightarrow> command_db \<Rightarrow> proc option \<Rightarrow> bool" where
  Creating: "insert_request ids now p team db = Some db' \<Longrightarrow> fresh_ids ids p db
    \<Longrightarrow> proc_step (Creating ids p team) db (Created (niRequest ids) (requires_approval p)) db'
          (if requires_approval p then None else Some (Enqueueing (niRequest ids) created_summary))"
| Reviewing: "review_tx now session p db = Some db'
    \<Longrightarrow> proc_step (Reviewing session p) db (Reviewed (approval_of p) session) db'
          (Some (if riApproved p then Enqueueing (riRequestId p) (u ''backend.command.enqueuedFromApproval'')
                 else Rejecting (riRequestId p)))"
| Rejecting: "proc_step (Rejecting i) db Silent (reject_targets now i db)
    (Some (Logging i None (u ''backend.command.rejectedSummary'')))"
| CancelClaiming: "cancel_claim now session i seen db = (db', n) \<Longrightarrow> n \<noteq> 0
    \<Longrightarrow> proc_step (CancelClaiming session i seen stderr summary) db Silent db' (Some (CancelWaiting i stderr summary))"
| CancelWaiting: "proc_step (CancelWaiting i stderr summary) db Silent (cancel_waiting_targets now i stderr db)
    (Some (CancelRunning i stderr summary))"
| CancelRunning: "proc_step (CancelRunning i stderr summary) db Silent (cancel_running_targets i stderr db)
    (Some (Logging i None summary))"
| Enqueueing: "claim_approved worker now i db = (db', n) \<Longrightarrow> n \<noteq> 0
    \<Longrightarrow> proc_step (Enqueueing i summary) db Silent db' (Some (Marking i summary))"
| Marking: "proc_step (Marking i summary) db Silent (markTargetsRunning i now db) (Some (Checking i summary))"
| Checking: "still_runnable db i \<Longrightarrow> proc_step (Checking i summary) db Silent (add_log i None summary db) (Some (Scheduling i))"
| Scheduling: "scheduleCommandExecution env now i db = Some db' \<Longrightarrow> proc_step (Scheduling i) db Silent db' None"
| Scheduling_Fails: "scheduleCommandExecution env now i db = None
    \<Longrightarrow> proc_step (Scheduling i) db Silent db (Some (UndoingRequest i))"
| UndoingRequest: "proc_step (UndoingRequest i) db Silent (unclaim_request now i db) (Some (UndoingTargets i))"
| UndoingRequest_Fails: "proc_step (UndoingRequest i) db Silent db (Some (UndoingTargets i))"
| UndoingTargets: "proc_step (UndoingTargets i) db Silent (unclaim_targets i db) None"
| Starting: "proc_step (Starting i) db Silent (heartbeatRunningCommandRequest worker now i db) (Some (Executing i))"
| Rereading: "find_request db i = Some latest \<Longrightarrow> cqStatus latest \<noteq> Cancelled
    \<Longrightarrow> proc_step (Executing i) db Silent db
          (Some (Finishing i (cqStatus latest) (map ctStatus (targets_of db i)) total' completed))"
| Starting_Throws: "proc_step (Starting i) db Silent db (Some (GivingUp i message))"
| Executing_Throws: "proc_step (Executing i) db Silent db (Some (GivingUp i message))"
| Beating: "proc_step (Beating i) db Silent (heartbeatRunningCommandRequest worker now i db) None"
| Gate_Skip: "target_gate auth servers db tid srv = GateSkip
    \<Longrightarrow> proc_step (Gating i tid srv) db Silent db (Some (Logging i (Some srv) summary))"
| Gate_Cancel: "target_gate auth servers db tid srv = GateCancel
    \<Longrightarrow> proc_step (Gating i tid srv) db Silent db (Some (Aborting i tid))"
| Gate_Deny: "target_gate auth servers db tid srv = GateDeny reason
    \<Longrightarrow> proc_step (Gating i tid srv) db Silent db (Some (Denied i tid (u ''Command dispatch denied: '' @ u reason)))"
| Gate_Dispatch: "target_gate auth servers db tid srv = GateDispatch
    \<Longrightarrow> proc_step (Gating i tid srv) db (Dispatched i tid) db (Some (Transporting i tid))"
| Gate_Throws: "proc_step (Gating i tid srv) db Silent (executor_threw now i tid host reason db) None"
| Aborting: "proc_step (Aborting i tid) db Silent (cancel_before_dispatch now tid db) None"
| Denied: "proc_step (Denied i tid message) db Silent (failTarget now i tid host message db) None"
| Transport_Answers: "proc_step (Transporting i tid) db Silent (fst (write_result intText now i tid host answer db)) None"
| Transport_Missing: "proc_step (Transporting i tid) db Silent (failTarget now i tid host message db) None"
| Transport_Throws: "proc_step (Transporting i tid) db Silent (executor_threw now i tid host reason db) None"
| Finishing_Cancelled: "final_decision latest statuses total' completed = StopCancelled
    \<Longrightarrow> proc_step (Finishing i latest statuses total' completed) db Silent
          (fst (finish_request now i {Running, Cancelling, Approved} Cancelled (add_log i None cancelled_summary db))) None"
| Finishing: "final_decision latest statuses total' completed = StopWith st
    \<Longrightarrow> finish_request now i ({Running, Approved} \<union> (if latest = Cancelling then {Cancelling} else {})) st
          (add_log i None (final_summary intText total' completed) db) = (db', n)
    \<Longrightarrow> proc_step (Finishing i latest statuses total' completed) db Silent db'
          (if n = 0 then Some (Acknowledging i statuses) else None)"
| Acknowledging: "proc_step (Acknowledging i statuses) db Silent
    (fst (finish_request now i {Cancelling} (if Failed \<in> set statuses then Failed else Cancelled) db)) None"
| GivingUp: "finish_request now i {Running, Cancelling, Approved} Failed db = (db', n) \<Longrightarrow> n \<noteq> 0
    \<Longrightarrow> proc_step (GivingUp i message) db Silent db' (Some (FailingTargets i message False
          (u ''Command background executor startup failed: '' @ message)))"
| FailingTargets: "proc_step (FailingTargets i message unknown summary) db Silent
    (fail_live_targets now i message unknown db) (Some (Logging i None summary))"
| Recovering_Live: "\<exists>st \<in> set (stTargets s). st \<in> set LIVE_STATUSES
    \<Longrightarrow> claim_stale now (stRequest s) Failed db = (db', n) \<Longrightarrow> n \<noteq> 0
    \<Longrightarrow> proc_step (Recovering s) db Silent db'
          (Some (FailingTargets (cqId (stRequest s)) lost_message True summary))"
| Recovering_Archive: "\<not> (\<exists>st \<in> set (stTargets s). st \<in> set LIVE_STATUSES)
    \<Longrightarrow> claim_stale now (stRequest s) (archive_status (cqStatus (stRequest s)) (stTargets s)) db = (db', n) \<Longrightarrow> n \<noteq> 0
    \<Longrightarrow> proc_step (Recovering s) db Silent db' (Some (Logging (cqId (stRequest s)) None summary))"
| Logging: "proc_step (Logging i srv summary) db Silent (add_log i srv summary db) None"

record sys =
  sysDb :: command_db
  sysProcs :: "nat \<Rightarrow> proc option"
  sysTrace :: "effect list"

text \<open>What the job service does meanwhile to the table the executions are queued in: it changes no
  payload and adds no execution job of its own.\<close>

definition execution_payloads :: "job list \<Rightarrow> json set" where
  "execution_payloads jobs = jPayload ` {j \<in> set jobs. jType j = COMMAND_EXECUTION_JOB_TYPE}"

inductive sys_step :: "sys \<Rightarrow> sys \<Rightarrow> bool" where
  Begin: "entry (sysDb s) p \<Longrightarrow> sysProcs s k = None
    \<Longrightarrow> sys_step s (s\<lparr>sysProcs := (sysProcs s)(k \<mapsto> p)\<rparr>)"
| Fork: "sysProcs s k = Some p \<Longrightarrow> forks (sysDb s) p p' \<Longrightarrow> sysProcs s k' = None
    \<Longrightarrow> sys_step s (s\<lparr>sysProcs := (sysProcs s)(k' \<mapsto> p')\<rparr>)"
| Run: "sysProcs s k = Some p \<Longrightarrow> proc_step p (sysDb s) e db' p'
    \<Longrightarrow> sys_step s \<lparr>sysDb = db', sysProcs = (sysProcs s)(k := p'), sysTrace = sysTrace s @ [e]\<rparr>"
| Stop: "sys_step s (s\<lparr>sysProcs := (sysProcs s)(k := None)\<rparr>)"
| Jobs: "execution_payloads jobs \<subseteq> execution_payloads (cmJobs (sysDb s))
    \<Longrightarrow> sys_step s (s\<lparr>sysDb := (sysDb s)\<lparr>cmJobs := jobs\<rparr>\<rparr>)"

definition initial_sys :: sys where
  "initial_sys = \<lparr>sysDb = \<lparr>cmRequests = [], cmTargets = [], cmApprovals = [], cmLogs = [], cmJobs = []\<rparr>,
     sysProcs = (\<lambda>_. None), sysTrace = []\<rparr>"

inductive sys_reachable :: "sys \<Rightarrow> bool" where
  Initial: "sys_reachable initial_sys"
| Step: "sys_reachable s \<Longrightarrow> sys_step s s' \<Longrightarrow> sys_reachable s'"


section \<open>What a statement does to the rows\<close>

text \<open>
  A statement other than the insert and the review touches one request, moves it along the
  workflow, and never grants a waiting one.
\<close>

definition request_write :: "string \<Rightarrow> command_request \<Rightarrow> command_request \<Rightarrow> bool" where
  "request_write i r r' \<longleftrightarrow> request_moves r r' \<and> (cqId r \<noteq> i \<longrightarrow> r' = r)
     \<and> (cqStatus r = PendingApproval \<longrightarrow> cqStatus r' \<in> {PendingApproval, Cancelled})"

lemma request_write_refl [simp]: "request_write i r r"
  by (simp add: request_write_def)

lemma list_all2_refl_on: "(\<And>x. R x x) \<Longrightarrow> list_all2 R xs xs"
  by (simp add: list_all2_conv_all_nth)

locale pinned_update = request_update +
  fixes i :: string
  assumes pinned: "p r \<Longrightarrow> cqId r = i"
    and waits: "p r \<Longrightarrow> cqStatus r = PendingApproval \<Longrightarrow> cqStatus (f r) = Cancelled"
begin

lemma row_writes: "request_write i r (if p r then (f r)\<lparr>cqUpdatedAt := now\<rparr> else r)"
  using row_moves [of r now] pinned [of r] waits [of r] by (auto simp: request_write_def)

lemma update_writes:
  "list_all2 (request_write i) (cmRequests db) (cmRequests (fst (update_requests now p f db)))"
  by (simp add: list_all2_conv_all_nth row_writes)

end

text \<open>The row a session-scoped statement can select.\<close>

definition pinned_id :: "session option \<Rightarrow> string \<Rightarrow> string" where
  "pinned_id session i =
     (case session of None \<Rightarrow> i
      | Some s \<Rightarrow> (case commandRequestTeamWhere s of IdRows k \<Rightarrow> k | _ \<Rightarrow> i))"

lemma request_where_pinned: "request_where session i r \<Longrightarrow> cqId r = pinned_id session i"
  by (auto simp: request_where_def pinned_id_def split: option.splits scope.splits)

lemma request_where_cuid: "request_where session i r \<Longrightarrow> cuid_like (cqId r) \<Longrightarrow> cqId r = i"
  by (auto simp: request_where_def cuid_like_def commandRequestTeamWhere_def strictCustomerScope_def
      split: option.splits if_splits)

lemma cancel_claim_writes:
  assumes "seen \<in> set CANCELLABLE_STATUSES"
  shows "list_all2 (request_write (pinned_id session i)) (cmRequests db)
    (cmRequests (fst (cancel_claim now session i seen db)))"
proof -
  have "pinned_update (\<lambda>r. request_where session i r \<and> cqStatus r = seen) (cancel_request_row seen)
      (pinned_id session i)"
    using assms
    by unfold_locales (auto simp: same_request_def cancel_request_row_def status_lists request_where_pinned)
  then show ?thesis unfolding cancel_claim_def by (rule pinned_update.update_writes)
qed


lemma finish_writes:
  assumes "from \<subseteq> {Running, Cancelling, Approved}" "st \<in> {Completed, Failed, Cancelled}"
  shows "list_all2 (request_write i) (cmRequests db) (cmRequests (fst (finish_request now i from st db)))"
proof -
  have "pinned_update (\<lambda>r. cqId r = i \<and> cqStatus r \<in> from) (release_as st) i"
    by (intro pinned_update.intro finish_update [OF assms] pinned_update_axioms.intro) (use assms in auto)
  then show ?thesis unfolding finish_request_def by (rule pinned_update.update_writes)
qed

lemma claim_stale_writes:
  assumes "cqStatus snap \<in> {Running, Cancelling}" "st \<in> {Completed, Failed, Cancelled}"
  shows "list_all2 (request_write (cqId snap)) (cmRequests db) (cmRequests (fst (claim_stale now snap st db)))"
proof -
  have "pinned_update (stillStale snap) (release_as st) (cqId snap)"
    by (intro pinned_update.intro claim_stale_update [OF assms] pinned_update_axioms.intro)
      (use assms in \<open>auto simp: stillStale_def\<close>)
  then show ?thesis unfolding claim_stale_def by (rule pinned_update.update_writes)
qed

interpretation claim_approved: pinned_update "\<lambda>r. cqId r = i \<and> cqStatus r = Approved"
  "\<lambda>r. r\<lparr>cqStatus := Running, cqWorkerId := Some worker, cqHeartbeatAt := Some now\<rparr>" i
  by unfold_locales auto

interpretation unclaim_request: pinned_update "\<lambda>r. cqId r = i \<and> cqStatus r = Running"
  "\<lambda>r. r\<lparr>cqStatus := Approved, cqWorkerId := None, cqHeartbeatAt := None\<rparr>" i
  by unfold_locales auto

interpretation heartbeat_request: pinned_update "\<lambda>r. cqId r = i \<and> cqStatus r \<in> {Running, Cancelling}"
  "\<lambda>r. r\<lparr>cqWorkerId := Some worker, cqHeartbeatAt := Some now\<rparr>" i
  by unfold_locales auto

lemma claim_approved_writes:
  "list_all2 (request_write i) (cmRequests db) (cmRequests (fst (claim_approved worker now i db)))"
  unfolding claim_approved_def by (rule claim_approved.update_writes)

lemma unclaim_writes:
  "list_all2 (request_write i) (cmRequests db) (cmRequests (unclaim_request now i db))"
  unfolding unclaim_request_def by (rule unclaim_request.update_writes)

lemma heartbeat_writes:
  "list_all2 (request_write i) (cmRequests db) (cmRequests (heartbeatRunningCommandRequest worker now i db))"
  unfolding heartbeatRunningCommandRequest_def by (rule heartbeat_request.update_writes)

lemmas request_writes = finish_writes claim_stale_writes claim_approved_writes unclaim_writes heartbeat_writes

text \<open>The targets a process writes.\<close>

fun concerns :: "proc \<Rightarrow> command_target \<Rightarrow> bool" where
  "concerns (Rejecting i) t = (ctRequestId t = i)"
| "concerns (CancelWaiting i e m) t = (ctRequestId t = i)"
| "concerns (CancelRunning i e m) t = (ctRequestId t = i)"
| "concerns (Marking i m) t = (ctRequestId t = i)"
| "concerns (UndoingTargets i) t = (ctRequestId t = i)"
| "concerns (FailingTargets i m b l) t = (ctRequestId t = i)"
| "concerns (Gating i tid srv) t = (ctId t = tid)"
| "concerns (Aborting i tid) t = (ctId t = tid)"
| "concerns (Denied i tid m) t = (ctId t = tid)"
| "concerns (Transporting i tid) t = (ctId t = tid)"
| "concerns _ t = False"

fun rejecting :: "proc \<Rightarrow> bool" where
  "rejecting (Rejecting i) = True"
| "rejecting _ = False"

text \<open>Only the rejection writes targets without asking for their status.\<close>

definition target_write :: "proc \<Rightarrow> command_target \<Rightarrow> command_target \<Rightarrow> bool" where
  "target_write p t t' \<longleftrightarrow> same_target t t'
     \<and> (t' \<noteq> t \<longrightarrow> concerns p t \<and> (rejecting p \<or> ctStatus t \<notin> set TERMINAL_STATUSES))"

lemma target_write_refl [simp]: "target_write p t t"
  by (simp add: target_write_def)

lemma update_targets_writes:
  assumes "\<And>t. same_target t (g t)"
    and "\<And>t. sel t \<Longrightarrow> concerns p t \<and> (rejecting p \<or> ctStatus t \<notin> set TERMINAL_STATUSES)"
  shows "list_all2 (target_write p) (cmTargets db) (cmTargets (fst (update_targets sel g db)))"
  using assms by (auto simp: list_all2_conv_all_nth target_write_def)

lemma fail_target_targets:
  "cmTargets (failTarget now i tid host m db) = cmTargets (fst (update_targets (live_target tid) (failed_row now m) db))"
  by (simp add: failTarget_def case_prod_unfold del: update_targets_simps)

lemma write_result_targets:
  "cmTargets (fst (write_result intText now i tid host answer db))
     = cmTargets (fst (update_targets (live_target tid) (result_row now answer) db))"
  by (simp add: write_result_def case_prod_unfold del: update_targets_simps)

lemma executor_threw_targets:
  "cmTargets (executor_threw now i tid host reason db)
     = cmTargets (fst (update_targets (\<lambda>t. ctId t = tid \<and> ctStatus t \<in> {Running, Cancelling})
         (\<lambda>t. t\<lparr>ctStatus := Failed, ctStderr := Some (take 4000 (u ''Command executor threw on '' @ server_label host
            @ u '': '' @ reason)), ctExitCode := Some 255, ctFinishedAt := Some now\<rparr>) db))"
  by (simp add: executor_threw_def Let_def del: update_targets_simps)


lemmas target_statements = reject_targets_def cancel_waiting_targets_def cancel_running_targets_def
  markTargetsRunning_def unclaim_targets_def cancel_before_dispatch_def fail_live_targets_def
  fail_target_targets write_result_targets executor_threw_targets

lemma request_statement_targets [simp]:
  "cmTargets (fst (cancel_claim now session i seen db)) = cmTargets db"
  "cmTargets (fst (finish_request now i from st db)) = cmTargets db"
  "cmTargets (fst (claim_stale now snap st db)) = cmTargets db"
  "cmTargets (unclaim_request now i db) = cmTargets db"
  "cmTargets (heartbeatRunningCommandRequest worker now i db) = cmTargets db"
  by (simp_all add: cancel_claim_def finish_request_def claim_stale_def
      unclaim_request_def heartbeatRunningCommandRequest_def)

lemma schedule_frame:
  assumes "scheduleCommandExecution env now i db = Some db'"
  shows "cmRequests db' = cmRequests db" "cmTargets db' = cmTargets db" "cmApprovals db' = cmApprovals db"
  using assms
  by (auto simp: scheduleCommandExecution_def enqueueCommandExecutionJob_def Let_def
      split: if_splits prod.splits)

lemma review_tx_frame:
  assumes "review_tx now session p db = Some db'"
  shows "cmTargets db' = cmTargets db" "cmApprovals db' = cmApprovals db @ [approval_of p]" "cmJobs db' = cmJobs db"
    "cmRequests db' = map (\<lambda>r. if request_where session (riRequestId p) r \<and> cqStatus r = PendingApproval
        then (review_row (riApproved p) r)\<lparr>cqUpdatedAt := now\<rparr> else r) (cmRequests db)"
    "\<exists>r \<in> set (cmRequests db). request_where session (riRequestId p) r \<and> cqStatus r = PendingApproval"
proof -
  let ?sel = "\<lambda>r. request_where session (riRequestId p) r \<and> cqStatus r = PendingApproval"
  let ?u = "update_requests now ?sel (review_row (riApproved p)) db"
  have "snd ?u \<noteq> 0" and e: "db' = (fst ?u)\<lparr>cmApprovals := cmApprovals db @ [approval_of p]\<rparr>"
    using assms unfolding review_tx_def by (auto simp: case_prod_unfold simp del: update_requests_simps split: if_splits)
  then show "\<exists>r \<in> set (cmRequests db). ?sel r" by auto
  show "cmTargets db' = cmTargets db" "cmApprovals db' = cmApprovals db @ [approval_of p]" "cmJobs db' = cmJobs db"
    "cmRequests db' = map (\<lambda>r. if ?sel r then (review_row (riApproved p) r)\<lparr>cqUpdatedAt := now\<rparr> else r) (cmRequests db)"
    unfolding e by simp_all
qed

lemma insert_frame:
  assumes "insert_request ids now p team db = Some db'"
  shows "db' = db\<lparr>cmRequests := cmRequests db @ [new_request ids now p team],
                  cmTargets := cmTargets db @ new_targets ids p\<rparr>"
  using assms by (auto simp: insert_request_def split: if_splits)

lemma pair_parts: "x = (a, b) \<longleftrightarrow> fst x = a \<and> snd x = b"
  by (cases x) auto

lemma proc_step_targets:
  assumes "proc_step p db e db' k" "\<not> (\<exists>i b. e = Created i b)"
  shows "list_all2 (target_write p) (cmTargets db) (cmTargets db')"
proof -
  have id: "list_all2 (target_write q) ts ts" for q ts by (rule list_all2_refl_on) simp
  show ?thesis
    using assms
    by cases (auto simp: id pair_parts target_statements schedule_frame review_tx_frame
        same_target_def live_target_def failed_row_def result_row_def status_lists
        simp del: update_targets_simps intro!: update_targets_writes)
qed

text \<open>Apart from the insert and the review, every statement is a \<open>request_write\<close>.\<close>

definition proc_guards :: "proc \<Rightarrow> bool" where
  "proc_guards p \<longleftrightarrow>
     (case p of
        CancelClaiming session i seen e m \<Rightarrow> seen \<in> set CANCELLABLE_STATUSES
      | Recovering s \<Rightarrow> cqStatus (stRequest s) \<in> {Running, Cancelling}
      | _ \<Rightarrow> True)"

lemma request_statement_rows [simp]:
  "cmRequests (reject_targets now i db) = cmRequests db"
  "cmRequests (cancel_waiting_targets now i m db) = cmRequests db"
  "cmRequests (cancel_running_targets i m db) = cmRequests db"
  "cmRequests (markTargetsRunning i now db) = cmRequests db"
  "cmRequests (unclaim_targets i db) = cmRequests db"
  "cmRequests (cancel_before_dispatch now tid db) = cmRequests db"
  "cmRequests (fail_live_targets now i m unknown db) = cmRequests db"
  "cmRequests (failTarget now i tid host m db) = cmRequests db"
  "cmRequests (fst (write_result intText now i tid host answer db)) = cmRequests db"
  "cmRequests (executor_threw now i tid host reason db) = cmRequests db"
  by (simp_all add: reject_targets_def cancel_waiting_targets_def cancel_running_targets_def
      markTargetsRunning_def unclaim_targets_def cancel_before_dispatch_def fail_live_targets_def
      failTarget_def write_result_def executor_threw_def case_prod_unfold Let_def)

lemma final_decision_statuses: "final_decision a b c d = StopWith st \<Longrightarrow> st \<in> {Completed, Failed}"
  by (auto simp: final_decision_def split: if_splits)

definition rows_written :: "command_request list \<Rightarrow> command_request list \<Rightarrow> bool" where
  "rows_written rs rs' \<longleftrightarrow> (\<exists>i. list_all2 (request_write i) rs rs')"

lemma rows_writtenI: "list_all2 (request_write i) rs rs' \<Longrightarrow> rows_written rs rs'"
  by (auto simp: rows_written_def)

lemma rows_written_refl [simp]: "rows_written rs rs"
  by (rule rows_writtenI, rule list_all2_refl_on) simp

lemma proc_step_requests:
  assumes "proc_step p db e db' k" "proc_guards p" "\<not> (\<exists>i b. e = Created i b)" "\<not> (\<exists>a s. e = Reviewed a s)"
  shows "rows_written (cmRequests db) (cmRequests db')"
proof -
  note stmt = request_writes [THEN rows_writtenI] cancel_claim_writes [THEN rows_writtenI]
  have log: "rows_written (cmRequests db) (cmRequests (fst (finish_request now i old st (add_log j s m db))))"
    if "old \<subseteq> {Running, Cancelling, Approved}" "st \<in> {Completed, Failed, Cancelled}" for now i old st j s m
  proof -
    have "list_all2 (request_write i) (cmRequests (add_log j s m db))
        (cmRequests (fst (finish_request now i old st (add_log j s m db))))"
      by (rule finish_writes [OF that])
    then show ?thesis by (auto intro: rows_writtenI)
  qed
  show ?thesis
    using assms(1)
  proof cases
    case (CancelClaiming now session i seen n stderr summary)
    then show ?thesis using assms(2) by (auto simp: pair_parts proc_guards_def intro!: stmt)
  next
    case (Recovering_Archive s now n summary)
    then show ?thesis using assms(2) archive_statuses [of "cqStatus (stRequest s)" "stTargets s"]
      by (auto simp: pair_parts proc_guards_def intro!: stmt)
  next
    case (Recovering_Live s now n summary)
    then show ?thesis using assms(2) by (auto simp: pair_parts proc_guards_def intro!: stmt)
  next
    case (Finishing latest statuses total' completed st now i intText n)
    then show ?thesis using final_decision_statuses [OF Finishing(4)]
      by (auto simp: pair_parts intro!: log split: if_splits)
  qed (use assms(3,4) in \<open>auto simp: pair_parts schedule_frame intro!: stmt log\<close>)
qed

end
