(* ===== verification/Command_Consent.thy ===== *)
theory Command_Consent
  imports Command_System
begin

text \<open>
  What holds in every reachable state of the command workflow: the rows stay consistent, what
  every process in flight relies on (\<open>proc_ok\<close>) stays true whatever the others do, finished
  rows are final, every statement refines \<open>status_move\<close>, and what needed a second person's
  consent has it before it runs.
\<close>

section \<open>How the tables evolve\<close>

definition evolves :: "command_db \<Rightarrow> command_db \<Rightarrow> bool" where
  "evolves db db' \<longleftrightarrow>
     (\<exists>rs new. cmRequests db' = rs @ new \<and> list_all2 request_moves (cmRequests db) rs)
     \<and> (\<exists>ts new. cmTargets db' = ts @ new \<and> list_all2 same_target (cmTargets db) ts)
     \<and> (\<exists>as. cmApprovals db' = cmApprovals db @ as)"

lemma rows_forward: "list_all2 R xs ys \<Longrightarrow> x \<in> set xs \<Longrightarrow> \<exists>y \<in> set ys. R x y"
  by (induction rule: list_all2_induct) auto

lemma rows_backward: "list_all2 R xs ys \<Longrightarrow> y \<in> set ys \<Longrightarrow> \<exists>x \<in> set xs. R x y"
  by (induction rule: list_all2_induct) auto

lemma rows_keys: "list_all2 R xs ys \<Longrightarrow> (\<And>x y. R x y \<Longrightarrow> key y = key x) \<Longrightarrow> map key ys = map key xs"
  by (induction rule: list_all2_induct) auto

lemma evolves_request:
  assumes "evolves db db'" "r \<in> set (cmRequests db)"
  obtains r' where "r' \<in> set (cmRequests db')" "request_moves r r'"
proof -
  obtain rs new where n: "cmRequests db' = rs @ new" and "list_all2 request_moves (cmRequests db) rs"
    using assms(1) by (auto simp: evolves_def)
  then obtain r' where "r' \<in> set rs" "request_moves r r'" using rows_forward assms(2) by metis
  then show thesis using that n by auto
qed

lemma evolves_target:
  assumes "evolves db db'" "t \<in> set (cmTargets db)"
  obtains t' where "t' \<in> set (cmTargets db')" "same_target t t'"
proof -
  obtain ts new where n: "cmTargets db' = ts @ new" and "list_all2 same_target (cmTargets db) ts"
    using assms(1) by (auto simp: evolves_def)
  then obtain t' where "t' \<in> set ts" "same_target t t'" using rows_forward assms(2) by metis
  then show thesis using that n by auto
qed

lemma evolves_approvals: "evolves db db' \<Longrightarrow> set (cmApprovals db) \<subseteq> set (cmApprovals db')"
  by (auto simp: evolves_def)

lemma request_moves_same: "request_moves r r' \<Longrightarrow> same_request r r'"
  by (simp add: request_moves_def)

definition started :: "command_db \<Rightarrow> string \<Rightarrow> bool" where
  "started db i \<longleftrightarrow> (\<exists>r \<in> set (cmRequests db). cqId r = i \<and> cqStatus r \<notin> {PendingApproval, Rejected})"

definition owns :: "command_db \<Rightarrow> string \<Rightarrow> string \<Rightarrow> bool" where
  "owns db tid i \<longleftrightarrow> (\<exists>t \<in> set (cmTargets db). ctId t = tid \<and> ctRequestId t = i)"

text \<open>The four eyes: somebody else than the requester, or a global manager; and somebody whose
  customer scope holds the request.\<close>

definition second_person :: "session option \<Rightarrow> string \<Rightarrow> command_request \<Rightarrow> bool" where
  "second_person session approver r \<longleftrightarrow> (cqRequesterId r \<noteq> approver
     \<or> (case session of None \<Rightarrow> False | Some s \<Rightarrow> sessionHasPermission s ''team:manage''))
     \<and> request_where session (cqId r) r"

definition reviewable :: "command_db \<Rightarrow> session option \<Rightarrow> string \<Rightarrow> string \<Rightarrow> bool" where
  "reviewable db session approver i \<longleftrightarrow> (\<exists>r \<in> set (cmRequests db). cqId r = i \<and> second_person session approver r)"

lemma status_move_started: "status_move a b \<Longrightarrow> a \<noteq> PendingApproval \<Longrightarrow> b \<notin> {PendingApproval, Rejected}"
  by (cases a) auto

lemma started_mono:
  assumes e: "evolves db db'" and st: "started db i"
  shows "started db' i"
proof -
  obtain r where r: "r \<in> set (cmRequests db)" "cqId r = i" "cqStatus r \<notin> {PendingApproval, Rejected}"
    using st by (auto simp: started_def)
  obtain r' where r': "r' \<in> set (cmRequests db')" "request_moves r r'" using evolves_request [OF e r(1)] .
  then have "cqId r' = i" "cqStatus r' \<notin> {PendingApproval, Rejected}"
    using r status_move_started [of "cqStatus r" "cqStatus r'"]
    by (auto simp: request_moves_def same_request_def)
  then show ?thesis using r'(1) by (auto simp: started_def)
qed

lemma owns_mono:
  assumes "evolves db db'" "owns db tid i"
  shows "owns db' tid i"
proof -
  obtain t where t: "t \<in> set (cmTargets db)" "ctId t = tid" "ctRequestId t = i"
    using assms(2) by (auto simp: owns_def)
  obtain t' where "t' \<in> set (cmTargets db')" "same_target t t'" using evolves_target [OF assms(1) t(1)] .
  then show ?thesis using t by (auto simp: owns_def same_target_def)
qed

lemma second_person_same: "same_request r r' \<Longrightarrow> second_person session a r \<longleftrightarrow> second_person session a r'"
  by (auto simp: second_person_def same_request_def request_where_def split: option.splits)

lemma reviewable_mono:
  assumes e: "evolves db db'" and rv: "reviewable db session a i"
  shows "reviewable db' session a i"
proof -
  obtain r where r: "r \<in> set (cmRequests db)" "cqId r = i" "second_person session a r"
    using rv by (auto simp: reviewable_def)
  obtain r' where r': "r' \<in> set (cmRequests db')" "request_moves r r'" using evolves_request [OF e r(1)] .
  then show ?thesis
    using r second_person_same [OF request_moves_same [OF r'(2)]] by (auto simp: reviewable_def request_moves_def same_request_def)
qed

section \<open>What a process relies on\<close>

definition to_reject :: "command_db \<Rightarrow> string \<Rightarrow> bool" where
  "to_reject db i \<longleftrightarrow> (\<exists>r \<in> set (cmRequests db). cqId r = i \<and> cqStatus r = Rejected)
     \<and> (\<forall>t \<in> set (cmTargets db). ctRequestId t = i \<longrightarrow> ctStatus t = PendingApproval)"

fun proc_ok :: "command_db \<Rightarrow> proc \<Rightarrow> bool" where
  "proc_ok db (Reviewing session p) = reviewable db session (riApproverId p) (riRequestId p)"
| "proc_ok db (Rejecting i) = to_reject db i"
| "proc_ok db (CancelClaiming session i seen e m) = (seen \<in> set CANCELLABLE_STATUSES)"
| "proc_ok db (CancelWaiting i e m) = started db i"
| "proc_ok db (CancelRunning i e m) = started db i"
| "proc_ok db (Marking i m) = started db i"
| "proc_ok db (Checking i m) = started db i"
| "proc_ok db (Scheduling i) = started db i"
| "proc_ok db (UndoingRequest i) = started db i"
| "proc_ok db (UndoingTargets i) = started db i"
| "proc_ok db (Starting i) = started db i"
| "proc_ok db (Executing i) = started db i"
| "proc_ok db (Gating i tid srv) = (started db i \<and> owns db tid i)"
| "proc_ok db (Aborting i tid) = (started db i \<and> owns db tid i)"
| "proc_ok db (Denied i tid m) = (started db i \<and> owns db tid i)"
| "proc_ok db (Transporting i tid) = (started db i \<and> owns db tid i)"
| "proc_ok db (FailingTargets i m b l) = started db i"
| "proc_ok db (Recovering s) = (cqStatus (stRequest s) \<in> {Running, Cancelling})"
| "proc_ok db _ = True"

lemma proc_ok_guards: "proc_ok db p \<Longrightarrow> proc_guards p"
  by (cases p) (auto simp: proc_guards_def)

definition tables_ok :: "command_db \<Rightarrow> bool" where
  "tables_ok db \<longleftrightarrow> distinct_keys cqId (cmRequests db) \<and> distinct_keys ctId (cmTargets db)
     \<and> (\<forall>r \<in> set (cmRequests db). cuid_like (cqId r))
     \<and> (\<forall>t \<in> set (cmTargets db). \<exists>r \<in> set (cmRequests db). cqId r = ctRequestId t)
     \<and> (\<forall>r \<in> set (cmRequests db). \<forall>t \<in> set (cmTargets db).
          cqStatus r = PendingApproval \<and> ctRequestId t = cqId r \<longrightarrow> ctStatus t = PendingApproval)"

lemma tables_request_unique:
  "tables_ok db \<Longrightarrow> r \<in> set (cmRequests db) \<Longrightarrow> r' \<in> set (cmRequests db) \<Longrightarrow> cqId r = cqId r' \<Longrightarrow> r = r'"
  unfolding tables_ok_def using distinct_keys_unique by metis

lemma started_unique:
  assumes "tables_ok db" "started db i" "r \<in> set (cmRequests db)" "cqId r = i"
  shows "cqStatus r \<notin> {PendingApproval, Rejected}"
  using assms tables_request_unique unfolding started_def by metis

lemma find_request_iff:
  "tables_ok db \<Longrightarrow> find_request db i = Some r \<longleftrightarrow> r \<in> set (cmRequests db) \<and> cqId r = i"
proof -
  assume ok: "tables_ok db"
  have "find_request db i = Some r" if "r \<in> set (cmRequests db)" "cqId r = i"
  proof (cases "find_request db i")
    case None
    then show ?thesis using that by (auto simp: find_request_def find_first_None)
  next
    case (Some x)
    then have "x \<in> set (cmRequests db)" "cqId x = i" using find_first_Some [of _ _ x] by (auto simp: find_request_def)
    then show ?thesis using Some that tables_request_unique [OF ok] by metis
  qed
  then show ?thesis using find_first_Some [of _ _ r] by (auto simp: find_request_def)
qed

text \<open>A target is only written below a request that has started, or by its own rejection.\<close>

lemma written_target:
  assumes ok: "tables_ok db" and p: "proc_ok db p" and t: "t \<in> set (cmTargets db)"
    and w: "concerns p t"
  shows "started db (ctRequestId t) \<or> p = Rejecting (ctRequestId t)"
proof -
  have owner: "ctRequestId t = i" if "owns db (ctId t) i" for i
    using that t ok distinct_keys_unique [of ctId "cmTargets db"] unfolding owns_def tables_ok_def by metis
  show ?thesis using p w by (cases p) (auto dest: owner)
qed


section \<open>One statement\<close>

lemma proc_step_created:
  assumes "proc_step p db (Created i b) db' k"
  obtains ids now q team where "p = Creating ids q team" "i = niRequest ids" "b = requires_approval q"
    "fresh_ids ids q db" "db' = db\<lparr>cmRequests := cmRequests db @ [new_request ids now q team],
       cmTargets := cmTargets db @ new_targets ids q\<rparr>"
    "k = (if b then None else Some (Enqueueing i created_summary))"
  using assms by cases (auto dest: insert_frame)

lemma proc_step_reviewed:
  assumes "proc_step p db (Reviewed a session) db' k"
  obtains now q where "p = Reviewing session q" "a = approval_of q" "review_tx now session q db = Some db'"
    "k = Some (if riApproved q then Enqueueing (riRequestId q) (u ''backend.command.enqueuedFromApproval'')
               else Rejecting (riRequestId q))"
  using assms by cases auto

lemma proc_step_approvals:
  assumes "proc_step p db e db' k" "\<not> (\<exists>a s. e = Reviewed a s)"
  shows "cmApprovals db' = cmApprovals db"
  using assms
  by cases (auto simp: pair_parts schedule_frame cancel_claim_def claim_approved_def
      finish_request_def claim_stale_def unclaim_request_def heartbeatRunningCommandRequest_def
      reject_targets_def cancel_waiting_targets_def cancel_running_targets_def
      markTargetsRunning_def unclaim_targets_def cancel_before_dispatch_def fail_live_targets_def
      failTarget_def write_result_def executor_threw_def Let_def case_prod_unfold dest: insert_frame)

interpretation review: request_update "\<lambda>r. request_where session i r \<and> cqStatus r = PendingApproval" "review_row b"
  by unfold_locales (auto simp: same_request_def review_row_def status_lists)

lemma review_moves:
  assumes "review_tx now session q db = Some db'"
  shows "list_all2 request_moves (cmRequests db) (cmRequests db')"
  unfolding review_tx_frame(4) [OF assms] by (simp add: list_all2_conv_all_nth review.row_moves)

lemma written_moves: "rows_written rs rs' \<Longrightarrow> list_all2 request_moves rs rs'"
  unfolding rows_written_def by (auto simp: request_write_def elim!: list_all2_mono)

lemma target_writes_same: "list_all2 (target_write p) ts ts' \<Longrightarrow> list_all2 same_target ts ts'"
  by (erule list_all2_mono) (simp add: target_write_def)

lemma step_moves:
  assumes "proc_ok db p" "proc_step p db e db' k" "\<not> (\<exists>i b. e = Created i b)"
  shows "list_all2 request_moves (cmRequests db) (cmRequests db')"
proof (cases "\<exists>a s. e = Reviewed a s")
  case True
  then show ?thesis using assms(2) by (auto elim!: proc_step_reviewed intro: review_moves)
next
  case False
  show ?thesis
    by (rule written_moves, rule proc_step_requests [OF assms(2) proc_ok_guards [OF assms(1)] assms(3) False])
qed

lemma step_evolves:
  assumes "proc_ok db p" "proc_step p db e db' k"
  shows "evolves db db'"
proof (cases "\<exists>i b. e = Created i b")
  case True
  then obtain i b where "proc_step p db (Created i b) db' k" using assms(2) by auto
  then show ?thesis
    by (rule proc_step_created) (auto simp: evolves_def intro!: exI list_all2_refl_on)
next
  case False
  have "cmRequests db' = cmRequests db' @ []" "cmTargets db' = cmTargets db' @ []" by simp_all
  moreover have "\<exists>as. cmApprovals db' = cmApprovals db @ as"
  proof (cases "\<exists>a s. e = Reviewed a s")
    case True
    then show ?thesis using assms(2) by (auto elim!: proc_step_reviewed dest: review_tx_frame(2))
  next
    case False
    then show ?thesis using proc_step_approvals [OF assms(2)] by simp
  qed
  ultimately show ?thesis
    unfolding evolves_def
    using step_moves [OF assms False] target_writes_same [OF proc_step_targets [OF assms(2) False]] by blast
qed

text \<open>A request that waits is only let go by a review.\<close>

lemma step_backward:
  assumes "proc_ok db p" "proc_step p db e db' k" "\<not> (\<exists>i b. e = Created i b)" "r' \<in> set (cmRequests db')"
  obtains r where "r \<in> set (cmRequests db)" "request_moves r r'"
    "(\<exists>a s. e = Reviewed a s) \<or> (cqStatus r = PendingApproval \<longrightarrow> cqStatus r' \<in> {PendingApproval, Cancelled})"
proof (cases "\<exists>a s. e = Reviewed a s")
  case True
  then show ?thesis using that rows_backward [OF step_moves [OF assms(1-3)] assms(4)] by blast
next
  case False
  have "rows_written (cmRequests db) (cmRequests db')"
    by (rule proc_step_requests [OF assms(2) proc_ok_guards [OF assms(1)] assms(3) False])
  then obtain i where "list_all2 (request_write i) (cmRequests db) (cmRequests db')" by (auto simp: rows_written_def)
  then obtain r where "r \<in> set (cmRequests db)" "request_write i r r'" using rows_backward assms(4) by metis
  then show ?thesis using that by (auto simp: request_write_def)
qed

lemma step_target_backward:
  assumes "tables_ok db" "proc_ok db p" "proc_step p db e db' k" "\<not> (\<exists>i b. e = Created i b)" "t' \<in> set (cmTargets db')"
  obtains t where "t \<in> set (cmTargets db)" "same_target t t'"
    "t' = t \<or> started db (ctRequestId t) \<or> p = Rejecting (ctRequestId t)"
    "t' = t \<or> rejecting p \<or> ctStatus t \<notin> set TERMINAL_STATUSES"
proof -
  obtain t where t: "t \<in> set (cmTargets db)" "target_write p t t'"
    using rows_backward [OF proc_step_targets [OF assms(3,4)] assms(5)] by auto
  then show ?thesis
    using that [OF t(1)] written_target [OF assms(1,2) t(1)] by (auto simp: target_write_def)
qed


lemma status_move_not_waiting: "\<not> status_move a PendingApproval"
  by (cases a) auto

lemma moves_waiting: "request_moves r r' \<Longrightarrow> cqStatus r' = PendingApproval \<Longrightarrow> cqStatus r = PendingApproval"
  by (auto simp: request_moves_def status_move_not_waiting)

lemma fresh_request: "fresh_ids ids q db \<Longrightarrow> r \<in> set (cmRequests db) \<Longrightarrow> cqId r \<noteq> niRequest ids"
  unfolding fresh_ids_def by (metis image_eqI)

lemma create_tables_ok:
  assumes ok: "tables_ok db" and f: "fresh_ids ids q db"
  shows "tables_ok (db\<lparr>cmRequests := cmRequests db @ [new_request ids now q team],
                       cmTargets := cmTargets db @ new_targets ids q\<rparr>)"
proof -
  let ?new = "new_targets ids q"
  have ids: "map ctId ?new = map (niTarget ids) (ciServerIds q)"
    by (simp add: new_targets_def)
  have new: "ctRequestId t = niRequest ids \<and> ctStatus t = initial_status (requires_approval q)" if "t \<in> set ?new" for t
    using that by (auto simp: new_targets_def)
  have "set (map ctId ?new) \<inter> ctId ` set (cmTargets db) = {}"
    unfolding ids using f by (auto simp: fresh_ids_def)
  then have "distinct_keys ctId (cmTargets db @ ?new)"
    using ok f ids unfolding tables_ok_def distinct_keys_def fresh_ids_def by auto
  moreover have "distinct_keys cqId (cmRequests db @ [new_request ids now q team])"
    using ok f by (auto simp: tables_ok_def distinct_keys_def fresh_ids_def new_request_def)
  moreover have "\<forall>t \<in> set (cmTargets db). ctRequestId t \<noteq> niRequest ids"
    using ok f by (auto simp: tables_ok_def fresh_ids_def) (metis imageI)
  moreover have "\<forall>r \<in> set (cmRequests db). cqId r \<noteq> niRequest ids"
    using fresh_request [OF f] by blast
  ultimately show ?thesis
    using ok f new unfolding tables_ok_def
    by (auto simp: new_request_def fresh_ids_def)
qed

lemma update_tables_ok:
  assumes ok: "tables_ok db" and p: "proc_ok db p" and st: "proc_step p db e db' k" and e: "\<not> (\<exists>i b. e = Created i b)"
  shows "tables_ok db'"
proof -
  note rm = step_moves [OF p st e] and tm = target_writes_same [OF proc_step_targets [OF st e]]
  have "map cqId (cmRequests db') = map cqId (cmRequests db)"
    by (rule rows_keys [OF rm]) (simp add: request_moves_def same_request_def)
  moreover have "map ctId (cmTargets db') = map ctId (cmTargets db)"
    by (rule rows_keys [OF tm]) (simp add: same_target_def)
  moreover have "cqId ` set (cmRequests db') = cqId ` set (cmRequests db)"
    using calculation(1) by (metis set_map)
  ultimately have d: "distinct_keys cqId (cmRequests db')" "distinct_keys ctId (cmTargets db')"
      and same: "cqId ` set (cmRequests db') = cqId ` set (cmRequests db)"
    using ok unfolding tables_ok_def distinct_keys_def by simp_all
  have "\<forall>i \<in> cqId ` set (cmRequests db'). cuid_like i"
    using ok unfolding same by (auto simp: tables_ok_def)
  then have "\<forall>r \<in> set (cmRequests db'). cuid_like (cqId r)" by blast
  moreover
  have "\<exists>r \<in> set (cmRequests db'). cqId r = ctRequestId t'" if t': "t' \<in> set (cmTargets db')" for t'
  proof -
    obtain t where "t \<in> set (cmTargets db)" "same_target t t'" using step_target_backward [OF ok p st e t'] .
    then have "ctRequestId t' \<in> cqId ` set (cmRequests db)"
      using ok unfolding tables_ok_def same_target_def by (metis image_eqI)
    then show ?thesis using same by (metis imageE)
  qed
  moreover have "ctStatus t' = PendingApproval"
    if r': "r' \<in> set (cmRequests db')" "cqStatus r' = PendingApproval"
      and t': "t' \<in> set (cmTargets db')" "ctRequestId t' = cqId r'" for r' t'
  proof -
    obtain r where r: "r \<in> set (cmRequests db)" "request_moves r r'" using step_backward [OF p st e r'(1)] .
    obtain t where t: "t \<in> set (cmTargets db)" "same_target t t'"
      "t' = t \<or> started db (ctRequestId t) \<or> p = Rejecting (ctRequestId t)"
      using step_target_backward [OF ok p st e t'(1)] .
    have i: "cqId r = ctRequestId t" and w: "cqStatus r = PendingApproval"
      using r t t'(2) r'(2) by (auto simp: request_moves_same same_target_def moves_waiting dest: request_moves_same [unfolded same_request_def])
    then have "ctStatus t = PendingApproval" using ok r(1) t(1) by (auto simp: tables_ok_def)
    moreover have "\<not> started db (ctRequestId t)" using started_unique [OF ok _ r(1) i] w by auto
    moreover have "p \<noteq> Rejecting (ctRequestId t)"
      using p tables_request_unique [OF ok _ r(1)] i w by (auto simp: to_reject_def)
    ultimately show ?thesis using t(3) by auto
  qed
  ultimately show ?thesis unfolding tables_ok_def using d by blast
qed

lemma step_tables_ok:
  assumes "tables_ok db" "proc_ok db p" "proc_step p db e db' k"
  shows "tables_ok db'"
proof (cases "\<exists>i b. e = Created i b")
  case True
  then show ?thesis using assms by (auto elim!: proc_step_created intro: create_tables_ok)
next
  case False
  then show ?thesis using update_tables_ok assms by blast
qed


section \<open>What every process relies on stays true\<close>

definition jobs_ok :: "command_db \<Rightarrow> bool" where
  "jobs_ok db \<longleftrightarrow> (\<forall>j \<in> execution_payloads (cmJobs db). \<forall>payload.
     parseCommandExecutionJobPayload j = Inr payload \<longrightarrow> started db (epRequestId payload))"

definition sys_ok :: "sys \<Rightarrow> bool" where
  "sys_ok s \<longleftrightarrow> tables_ok (sysDb s) \<and> jobs_ok (sysDb s)
     \<and> (\<forall>k p. sysProcs s k = Some p \<longrightarrow> proc_ok (sysDb s) p)
     \<and> (\<forall>k k' i. sysProcs s k = Some (Rejecting i) \<longrightarrow> sysProcs s k' = Some (Rejecting i) \<longrightarrow> k = k')"

text \<open>Another process keeps its ground while \<open>p\<close> makes its statement; a rejection only if \<open>p\<close> is not
  the same rejection.\<close>

lemma to_reject_kept:
  assumes ok: "tables_ok db" and p: "proc_ok db p" and st: "proc_step p db e db' k"
    and rj: "to_reject db i" and other: "p \<noteq> Rejecting i"
  shows "to_reject db' i"
proof -
  obtain r where r: "r \<in> set (cmRequests db)" "cqId r = i" "cqStatus r = Rejected"
    and ts: "\<And>t. t \<in> set (cmTargets db) \<Longrightarrow> ctRequestId t = i \<Longrightarrow> ctStatus t = PendingApproval"
    using rj by (auto simp: to_reject_def)
  obtain r' where "r' \<in> set (cmRequests db')" "request_moves r r'"
    using evolves_request [OF step_evolves [OF p st] r(1)] .
  then have row: "\<exists>r \<in> set (cmRequests db'). cqId r = i \<and> cqStatus r = Rejected"
    using r by (auto simp: request_moves_def same_request_def TERMINAL_STATUSES_def)
  have "ctStatus t' = PendingApproval" if t': "t' \<in> set (cmTargets db')" "ctRequestId t' = i" for t'
  proof (cases "\<exists>i b. e = Created i b")
    case True
    then obtain ids now q team where f: "fresh_ids ids q db"
      "db' = db\<lparr>cmRequests := cmRequests db @ [new_request ids now q team],
       cmTargets := cmTargets db @ new_targets ids q\<rparr>"
      using st by (auto elim!: proc_step_created)
    then have "t' \<in> set (cmTargets db)"
      using t' r fresh_request [OF f(1) r(1)] by (auto simp: new_targets_def)
    then show ?thesis using ts t'(2) by blast
  next
    case False
    obtain t where t: "t \<in> set (cmTargets db)" "same_target t t'"
      "t' = t \<or> started db (ctRequestId t) \<or> p = Rejecting (ctRequestId t)"
      using step_target_backward [OF ok p st False t'(1)] .
    moreover have "ctRequestId t = i" using t t'(2) by (simp add: same_target_def)
    moreover have "\<not> started db i" using started_unique [OF ok _ r(1,2)] r(3) by auto
    ultimately show ?thesis using ts other by auto
  qed
  then show ?thesis using row by (simp add: to_reject_def)
qed

lemma proc_ok_kept:
  assumes ok: "tables_ok db" and p: "proc_ok db p" and st: "proc_step p db e db' k"
    and q: "proc_ok db q" and other: "\<And>i. q = Rejecting i \<Longrightarrow> p \<noteq> q"
  shows "proc_ok db' q"
proof -
  note e = step_evolves [OF p st]
  show ?thesis
    using q
  proof (cases q)
    case (Rejecting i)
    then show ?thesis using q to_reject_kept [OF ok p st, of i] other by auto
  qed (auto intro: started_mono [OF e] owns_mono [OF e] reviewable_mono [OF e])
qed

lemma targets_of_owned: "t \<in> set (targets_of db i) \<Longrightarrow> owns db (ctId t) i"
  by (auto simp: targets_of_def owns_def)

lemma forks_ok: "forks db p q \<Longrightarrow> proc_ok db p \<Longrightarrow> proc_ok db q"
  by (cases rule: forks.cases) (auto intro: targets_of_owned)

lemma plan_review_ok:
  assumes ok: "tables_ok db" and pl: "plan_review input session db = Inr (p, r)"
  shows "reviewable db session (riApproverId p) (riRequestId p)"
proof -
  have f: "find_first (request_where session (riRequestId p)) (cmRequests db) = Some r"
    and s: "cqRequesterId r \<noteq> riApproverId p \<or> (case session of None \<Rightarrow> False | Some s \<Rightarrow> sessionHasPermission s ''team:manage'')"
    using pl by (auto simp: plan_review_def split: option.splits if_splits)
  have r: "r \<in> set (cmRequests db)" "request_where session (riRequestId p) r"
    using find_first_Some [OF f] by auto
  then have "cqId r = riRequestId p" using ok request_where_cuid by (auto simp: tables_ok_def)
  then show ?thesis using r s by (auto simp: reviewable_def second_person_def)
qed

lemma plan_cancel_ok:
  assumes "plan_cancel rawId actorId session db = Inr r" "cqStatus r \<noteq> Cancelling"
  shows "cqStatus r \<in> set CANCELLABLE_STATUSES"
  using assms by (auto simp: plan_cancel_def Let_def split: if_splits option.splits)

lemma entry_ok:
  assumes ok: "tables_ok db" and j: "jobs_ok db" and en: "entry db p"
  shows "proc_ok db p"
  using en
proof cases
  case (Review input session q r)
  then show ?thesis using plan_review_ok [OF ok] by simp
next
  case (Cancel rawId actorId session r reason intText killed)
  then show ?thesis using plan_cancel_ok by simp
next
  case (Execute job payload r)
  then show ?thesis using j by (auto simp: jobs_ok_def execution_payloads_def)
next
  case (Recover s cutoff)
  then show ?thesis by (auto simp: stale_requests_def dest!: filter_take_in_set)
qed simp_all


lemma update_starts:
  assumes "update_requests now sel f db = (db', n)" "n \<noteq> 0"
    and "\<And>r. r \<in> set (cmRequests db) \<Longrightarrow> sel r \<Longrightarrow> cqId (f r) = i \<and> cqStatus (f r) \<notin> {PendingApproval, Rejected}"
  shows "started db' i"
proof -
  have "count_where sel (cmRequests db) \<noteq> 0" "db' = fst (update_requests now sel f db)"
    using assms(1,2) update_requests_simps(6) [of now sel f db] by (metis snd_conv, simp)
  then obtain r where r: "r \<in> set (cmRequests db)" "sel r" by auto
  then have "(f r)\<lparr>cqUpdatedAt := now\<rparr> \<in> set (cmRequests db')"
    using \<open>db' = _\<close> by (auto intro!: image_eqI [of _ _ r])
  then show ?thesis unfolding started_def by (rule rev_bexI) (use assms(3) [OF r] in simp)
qed

lemma next_ok:
  assumes ok: "tables_ok db" and p: "proc_ok db p" and st: "proc_step p db e db' (Some p')"
  shows "proc_ok db' p'"
proof -
  have mono: "started db i \<Longrightarrow> started db' i" "owns db tid i \<Longrightarrow> owns db' tid i" for i tid
    using started_mono owns_mono step_evolves [OF p st] by blast+
  have cuid: "cqId r = i" if "r \<in> set (cmRequests db)" "request_where session i r" for r session i
    using request_where_cuid [OF that(2)] that(1) ok by (auto simp: tables_ok_def)
  show ?thesis
    using st
  proof cases
    case (Reviewing now session q)
    show ?thesis
    proof (cases "riApproved q")
      case True
      then show ?thesis using Reviewing by simp
    next
      case False
      obtain r where r: "r \<in> set (cmRequests db)" "request_where session (riRequestId q) r" "cqStatus r = PendingApproval"
        using review_tx_frame(5) [OF Reviewing(4)] by auto
      have i: "cqId r = riRequestId q" by (rule cuid [OF r(1,2)])
      have "(review_row False r)\<lparr>cqUpdatedAt := now\<rparr> \<in> set (cmRequests db')"
        unfolding review_tx_frame(4) [OF Reviewing(4)] using r False by (auto intro!: image_eqI [of _ _ r])
      moreover have "\<forall>t \<in> set (cmTargets db'). ctRequestId t = riRequestId q \<longrightarrow> ctStatus t = PendingApproval"
        using ok r(1,3) i unfolding review_tx_frame(1) [OF Reviewing(4)] by (auto simp: tables_ok_def)
      moreover have "\<exists>r' \<in> set (cmRequests db'). cqId r' = riRequestId q \<and> cqStatus r' = Rejected"
        using calculation(1) by (rule rev_bexI) (simp add: review_row_def i)
      ultimately show ?thesis using Reviewing(3) False by (simp add: to_reject_def)
    qed
  next
    case (CancelClaiming now session i seen n stderr summary)
    have "started db' i"
      by (rule update_starts [OF CancelClaiming(4) [unfolded cancel_claim_def] CancelClaiming(5)])
        (use cuid [of _ session i] in \<open>auto simp: cancel_request_row_def\<close>)
    then show ?thesis using CancelClaiming(3) by simp
  next
    case (Enqueueing worker now i n summary)
    then show ?thesis
      using update_starts [OF Enqueueing(4) [unfolded claim_approved_def] Enqueueing(5), of i] by auto
  next
    case (GivingUp now i n message)
    then show ?thesis
      using update_starts [OF GivingUp(4) [unfolded finish_request_def] GivingUp(5), of i]
      by (auto simp: release_as_def)
  next
    case (Recovering_Live s now n summary)
    then show ?thesis
      using update_starts [OF Recovering_Live(5) [unfolded claim_stale_def] Recovering_Live(6), of "cqId (stRequest s)"]
      by (auto simp: release_as_def stillStale_def)
  qed (use p mono in \<open>auto split: if_splits\<close>)
qed

text \<open>Only a request that has started gets an execution job.\<close>

lemma schedule_jobs:
  assumes "scheduleCommandExecution env now i db = Some db'" "trim i = i"
  obtains kvs where "execution_payloads (cmJobs db') \<subseteq> execution_payloads (cmJobs db) \<union> {JObj kvs}"
    "map_of kvs ''commandRequestId'' = Some (JStr i)"
proof -
  let ?kvs = "[(''commandRequestId'', JStr i), (''summary'', JStr (''Command request '' @ i @ '' has been enqueued for background execution'')),
        (''requestedAt'', JStr (qeIsoText env now))]"
  have "execution_payloads (cmJobs db') \<subseteq> execution_payloads (cmJobs db) \<union> {JObj ?kvs}"
    using assms
    by (auto simp: scheduleCommandExecution_def enqueueCommandExecutionJob_def Let_def enqueueJob_def
        execution_job_input_def execution_payloads_def new_job_def split: if_splits)
  then show thesis by (rule that) simp
qed

lemma proc_step_jobs:
  assumes "proc_step p db e db' k" "\<not> (\<exists>i. p = Scheduling i)"
  shows "cmJobs db' = cmJobs db"
  using assms
  by cases (auto simp: pair_parts cancel_claim_def claim_approved_def
      finish_request_def claim_stale_def unclaim_request_def heartbeatRunningCommandRequest_def
      reject_targets_def cancel_waiting_targets_def cancel_running_targets_def
      markTargetsRunning_def unclaim_targets_def cancel_before_dispatch_def fail_live_targets_def
      failTarget_def write_result_def executor_threw_def Let_def case_prod_unfold dest: insert_frame review_tx_frame(3))

lemma step_jobs_ok:
  assumes ok: "tables_ok db" and j: "jobs_ok db" and p: "proc_ok db p" and st: "proc_step p db e db' k"
  shows "jobs_ok db'"
proof -
  note mono = started_mono [OF step_evolves [OF p st]]
  show ?thesis
  proof (cases "\<exists>i. p = Scheduling i")
    case True
    then obtain i where i: "p = Scheduling i" by auto
    have s: "started db i" using p i by simp
    then have t: "trim i = i" using ok by (auto simp: started_def tables_ok_def cuid_like_def)
    from st [unfolded i] show ?thesis
    proof cases
      case (Scheduling env now)
      obtain kvs where kvs: "execution_payloads (cmJobs db') \<subseteq> execution_payloads (cmJobs db) \<union> {JObj kvs}"
        "map_of kvs ''commandRequestId'' = Some (JStr i)"
        using schedule_jobs [OF Scheduling(3) t] .
      have "started db (epRequestId payload)"
        if "x \<in> execution_payloads (cmJobs db')" "parseCommandExecutionJobPayload x = Inr payload" for x payload
      proof (cases "x = JObj kvs")
        case True
        then have "epRequestId payload = i"
          using that(2) kvs(2) t by (auto simp: parseCommandExecutionJobPayload_def Let_def split: if_splits)
        then show ?thesis using s by simp
      next
        case False
        then show ?thesis using that kvs(1) j by (auto simp: jobs_ok_def)
      qed
      then show ?thesis using mono by (auto simp: jobs_ok_def)
    qed (use j in simp)
  next
    case False
    then show ?thesis using j mono proc_step_jobs [OF st False] by (auto simp: jobs_ok_def)
  qed
qed


lemma becomes_rejecting:
  assumes ok: "tables_ok db" and st: "proc_step p db e db' (Some (Rejecting i))" and rj: "to_reject db i"
  shows False
  using st
proof cases
  case (Reviewing now session q)
  obtain r where r: "r \<in> set (cmRequests db)" "request_where session (riRequestId q) r" "cqStatus r = PendingApproval"
    using review_tx_frame(5) [OF Reviewing(4)] by auto
  have "cqId r = riRequestId q" using request_where_cuid [OF r(2)] r(1) ok by (auto simp: tables_ok_def)
  moreover have "i = riRequestId q" using Reviewing(3) by (simp split: if_splits)
  moreover obtain x where "x \<in> set (cmRequests db)" "cqId x = i" "cqStatus x = Rejected"
    using rj by (auto simp: to_reject_def)
  ultimately show False using tables_request_unique [OF ok r(1)] r(3) by auto
qed (auto split: if_splits)

lemma sys_okD:
  assumes "sys_ok s"
  shows "tables_ok (sysDb s)" "jobs_ok (sysDb s)" "sysProcs s k = Some q \<Longrightarrow> proc_ok (sysDb s) q"
    "sysProcs s a = Some (Rejecting i) \<Longrightarrow> sysProcs s b = Some (Rejecting i) \<Longrightarrow> a = b"
  using assms by (simp_all add: sys_ok_def)

lemma sys_run_ok:
  assumes ok: "sys_ok s" and k: "sysProcs s k = Some p" and st: "proc_step p (sysDb s) e db' p'"
  shows "sys_ok \<lparr>sysDb = db', sysProcs = (sysProcs s)(k := p'), sysTrace = tr\<rparr>"
proof -
  note t = sys_okD(1) [OF ok] and j = sys_okD(2) [OF ok] and ps = sys_okD(3) [OF ok] and uniq = sys_okD(4) [OF ok]
  note p = ps [OF k]
  have others: "proc_ok db' q" if a: "sysProcs s a = Some q" and ne: "a \<noteq> k" for a q
  proof (rule proc_ok_kept [OF t p st ps [OF a]])
    fix i assume q: "q = Rejecting i"
    show "p \<noteq> q"
    proof
      assume "p = q"
      then have "sysProcs s k = Some (Rejecting i)" using k q by simp
      then show False using uniq a q ne by blast
    qed
  qed
  have own: "proc_ok db' q" if "p' = Some q" for q
    by (rule next_ok [OF t p st [unfolded that]])
  have fresh: "p' \<noteq> Some (Rejecting i)" if c: "sysProcs s c = Some (Rejecting i)" for c i
  proof
    assume "p' = Some (Rejecting i)"
    from becomes_rejecting [OF t st [unfolded this]] ps [OF c] show False by simp
  qed
  have once: "a = b"
    if a: "((sysProcs s)(k := p')) a = Some (Rejecting i)" and b: "((sysProcs s)(k := p')) b = Some (Rejecting i)" for a b i
  proof (rule ccontr)
    assume ne: "a \<noteq> b"
    then have "(a \<noteq> k \<and> sysProcs s a = Some (Rejecting i)) \<or> (b \<noteq> k \<and> sysProcs s b = Some (Rejecting i))"
      using a b by (cases "a = k") simp_all
    then have "p' \<noteq> Some (Rejecting i)" using fresh by blast
    then have "sysProcs s a = Some (Rejecting i)" "sysProcs s b = Some (Rejecting i)"
      using a b by (simp_all split: if_splits)
    then show False using uniq ne by blast
  qed
  have "proc_ok db' q" if "((sysProcs s)(k := p')) a = Some q" for a q
    using that others own by (cases "a = k") simp_all
  then show ?thesis
    using step_tables_ok [OF t p st] step_jobs_ok [OF t j p st] once by (simp add: sys_ok_def del: fun_upd_apply)
qed

lemma add_proc_ok:
  assumes "sys_ok s" "proc_ok (sysDb s) p" "\<not> rejecting p"
  shows "sys_ok (s\<lparr>sysProcs := (sysProcs s)(k \<mapsto> p)\<rparr>)"
  using assms unfolding sys_ok_def by auto

lemma jobs_frame_ok: "tables_ok (db\<lparr>cmJobs := jobs\<rparr>) = tables_ok db" "started (db\<lparr>cmJobs := jobs\<rparr>) i = started db i"
  "proc_ok (db\<lparr>cmJobs := jobs\<rparr>) p = proc_ok db p"
  by (simp add: tables_ok_def, simp add: started_def)
    (cases p; simp add: started_def owns_def reviewable_def to_reject_def)

lemma sys_step_ok:
  assumes "sys_step s s'" "sys_ok s"
  shows "sys_ok s'"
  using assms
proof cases
  case (Begin p k)
  have "\<not> rejecting p" using Begin(2) by cases auto
  moreover have "proc_ok (sysDb s) p" using entry_ok [OF _ _ Begin(2)] assms(2) by (simp add: sys_ok_def)
  ultimately show ?thesis unfolding Begin(1) by (intro add_proc_ok [OF assms(2)])
next
  case (Fork k p p' k')
  have "\<not> rejecting p'" using Fork(3) by cases auto
  moreover have "proc_ok (sysDb s) p'" using forks_ok [OF Fork(3)] Fork(2) assms(2) by (simp add: sys_ok_def)
  ultimately show ?thesis unfolding Fork(1) by (intro add_proc_ok [OF assms(2)])
next
  case (Run k p e db' p')
  show ?thesis unfolding Run(1) by (rule sys_run_ok [OF assms(2) Run(2,3)])
next
  case (Stop k)
  then show ?thesis using assms(2) by (simp add: sys_ok_def)
next
  case (Jobs jobs)
  then show ?thesis using assms(2) by (auto simp: sys_ok_def jobs_frame_ok jobs_ok_def)
qed

lemma reachable_ok: "sys_reachable s \<Longrightarrow> sys_ok s"
proof (induction rule: sys_reachable.induct)
  case Initial
  show ?case by (simp add: sys_ok_def initial_sys_def tables_ok_def jobs_ok_def distinct_keys_def execution_payloads_def)
next
  case (Step s s')
  then show ?case by (blast intro: sys_step_ok)
qed


section \<open>Consent\<close>

text \<open>Somebody else approved the request: the review is in the trace and its row in the table.\<close>

definition consented :: "command_db \<Rightarrow> effect list \<Rightarrow> string \<Rightarrow> bool" where
  "consented db tr i \<longleftrightarrow> (\<exists>a session. Reviewed a session \<in> set tr \<and> a \<in> set (cmApprovals db)
     \<and> caRequestId a = i \<and> caApproved a \<and> reviewable db session (caApproverId a) i)"

definition trace_ok :: "command_db \<Rightarrow> effect list \<Rightarrow> bool" where
  "trace_ok db tr \<longleftrightarrow>
     (\<forall>i b. Created i b \<in> set tr \<longrightarrow> i \<in> cqId ` set (cmRequests db))
     \<and> (\<forall>i tid. Dispatched i tid \<in> set tr \<longrightarrow> i \<in> cqId ` set (cmRequests db))
     \<and> (\<forall>r \<in> set (cmRequests db). Created (cqId r) True \<in> set tr
          \<longrightarrow> cqStatus r \<notin> {PendingApproval, Rejected, Cancelled} \<longrightarrow> consented db tr (cqId r))
     \<and> (\<forall>i tid. Dispatched i tid \<in> set tr \<longrightarrow> Created i True \<in> set tr \<longrightarrow> consented db tr i)"

lemma consented_mono:
  assumes "evolves db db'" "consented db tr i"
  shows "consented db' (tr @ es) i"
proof -
  obtain a session where a: "Reviewed a session \<in> set tr" "a \<in> set (cmApprovals db)" "caRequestId a = i"
    "caApproved a" "reviewable db session (caApproverId a) i"
    using assms(2) unfolding consented_def by blast
  have "Reviewed a session \<in> set (tr @ es)" "a \<in> set (cmApprovals db')"
    using a(1,2) evolves_approvals [OF assms(1)] by auto
  then show ?thesis using a(3,4) reviewable_mono [OF assms(1) a(5)] unfolding consented_def by blast
qed

lemma trace_okD:
  assumes "trace_ok db tr"
  shows "Created i b \<in> set tr \<Longrightarrow> i \<in> cqId ` set (cmRequests db)"
    "Dispatched i tid \<in> set tr \<Longrightarrow> i \<in> cqId ` set (cmRequests db)"
    "r \<in> set (cmRequests db) \<Longrightarrow> Created (cqId r) True \<in> set tr
       \<Longrightarrow> cqStatus r \<notin> {PendingApproval, Rejected, Cancelled} \<Longrightarrow> consented db tr (cqId r)"
    "Dispatched i tid \<in> set tr \<Longrightarrow> Created i True \<in> set tr \<Longrightarrow> consented db tr i"
  using assms unfolding trace_ok_def by blast+

lemma dispatched_status:
  assumes ok: "tables_ok db" and p: "started db i" "owns db tid i"
    and g: "target_gate auth servers db tid srv = GateDispatch"
  obtains r where "r \<in> set (cmRequests db)" "cqId r = i" "cqStatus r \<in> {Approved, Running}"
proof -
  obtain t where t: "find_target db tid = Some t"
    and "\<exists>r. find_request db (ctRequestId t) = Some r \<and> cqStatus r \<notin> set TERMINAL_STATUSES \<and> cqStatus r \<noteq> Cancelling"
    using g by (auto simp: target_gate_def split: option.splits if_splits)
  then obtain r where r: "find_request db (ctRequestId t) = Some r" "cqStatus r \<notin> set TERMINAL_STATUSES" "cqStatus r \<noteq> Cancelling"
    by blast
  have "t \<in> set (cmTargets db)" "ctId t = tid" using find_first_Some [OF t [unfolded find_target_def]] by auto
  then have i: "ctRequestId t = i"
    using p(2) ok distinct_keys_unique [of ctId "cmTargets db"] unfolding owns_def tables_ok_def by metis
  have m: "r \<in> set (cmRequests db)" "cqId r = i" using r(1) find_request_iff [OF ok] i by auto
  have "cqStatus r \<in> {Approved, Running}"
    using started_unique [OF ok p(1) m] r(2,3) by (cases "cqStatus r") (auto simp: TERMINAL_STATUSES_def)
  then show thesis using that m by blast
qed

text \<open>Whom a review lets go.\<close>

lemma review_consents:
  assumes ok: "tables_ok db" and p: "proc_ok db p" and st: "proc_step p db (Reviewed a session) db' k"
    and r': "r' \<in> set (cmRequests db')" "cqStatus r' \<notin> {PendingApproval, Rejected, Cancelled}"
  shows "(\<exists>r \<in> set (cmRequests db). r' = r) \<or> consented db' (tr @ [Reviewed a session]) (cqId r')"
proof -
  note ev = step_evolves [OF p st]
  from st obtain now q where q: "p = Reviewing session q" "a = approval_of q" "review_tx now session q db = Some db'"
    by (rule proc_step_reviewed)
  note f = review_tx_frame [OF q(3)]
  obtain r where r: "r \<in> set (cmRequests db)"
    "r' = (if request_where session (riRequestId q) r \<and> cqStatus r = PendingApproval
           then (review_row (riApproved q) r)\<lparr>cqUpdatedAt := now\<rparr> else r)"
    using in_set_map_ifD [OF r'(1) [unfolded f(4)]] by blast
  show ?thesis
  proof (cases "request_where session (riRequestId q) r \<and> cqStatus r = PendingApproval")
    case True
    then have "riApproved q" using r r'(2) by (auto simp: review_row_def split: if_splits)
    moreover have "cqId r = riRequestId q" using request_where_cuid True r(1) ok by (auto simp: tables_ok_def)
    moreover have "cqId r' = cqId r" using r(2) True by (simp add: review_row_def)
    moreover have "reviewable db' session (riApproverId q) (riRequestId q)"
      using reviewable_mono [OF ev] p q(1) by simp
    moreover have "approval_of q \<in> set (cmApprovals db')" using f(2) by simp
    ultimately have "consented db' (tr @ [Reviewed a session]) (cqId r')"
      unfolding consented_def q(2)
      by (intro exI [of _ "approval_of q"] exI [of _ session]) (simp add: approval_of_def)
    then show ?thesis ..
  next
    case False
    then show ?thesis using r by auto
  qed
qed

lemma created_trace_ok:
  assumes tr: "trace_ok db tr" and p: "proc_ok db p" and st: "proc_step p db (Created i b) db' k"
  shows "trace_ok db' (tr @ [Created i b])"
proof -
  let ?tr = "tr @ [Created i b]"
  note mono = consented_mono [OF step_evolves [OF p st]]
  from st obtain ids now q team where c: "p = Creating ids q team" "i = niRequest ids" "b = requires_approval q"
    "fresh_ids ids q db" "db' = db\<lparr>cmRequests := cmRequests db @ [new_request ids now q team],
       cmTargets := cmTargets db @ new_targets ids q\<rparr>"
    by (rule proc_step_created)
  have old: "Created (cqId r) True \<in> set tr" if "r \<in> set (cmRequests db)" "Created (cqId r) True \<in> set ?tr" for r
    using that fresh_request [OF c(4)] c(2) by auto
  have new: "Created i x \<notin> set tr" for x
    using trace_okD(1) [OF tr, of i x] c(4) unfolding c(2) by (auto simp: fresh_ids_def)
  have "consented db' ?tr (cqId r)"
    if "r \<in> set (cmRequests db')" "Created (cqId r) True \<in> set ?tr" "cqStatus r \<notin> {PendingApproval, Rejected, Cancelled}" for r
  proof (cases "r \<in> set (cmRequests db)")
    case True
    then show ?thesis by (rule mono [OF trace_okD(3) [OF tr _ old]]) (use True that in auto)
  next
    case False
    then have "r = new_request ids now q team" using that(1) c(5) by simp
    then show ?thesis using that(2,3) new c(2,3) by (auto simp: new_request_def initial_status_def split: if_splits)
  qed
  moreover have "consented db' ?tr j" if "Dispatched j tid \<in> set ?tr" "Created j True \<in> set ?tr" for j tid
  proof -
    have d: "Dispatched j tid \<in> set tr" using that(1) by simp
    then have "j \<noteq> i" using trace_okD(2) [OF tr d] c(4) unfolding c(2) fresh_ids_def by metis
    then have "Created j True \<in> set tr" using that(2) by simp
    then show ?thesis by (rule mono [OF trace_okD(4) [OF tr d]])
  qed
  moreover have "j \<in> cqId ` set (cmRequests db')" if "Created j x \<in> set ?tr" for j x
    using that tr c(2,5) by (auto simp: trace_ok_def new_request_def)
  moreover have "j \<in> cqId ` set (cmRequests db')" if "Dispatched j x \<in> set ?tr" for j x
    using that tr c(5) by (auto simp: trace_ok_def)
  ultimately show ?thesis unfolding trace_ok_def by blast
qed


lemma ids_mono:
  assumes "evolves db db'" "i \<in> cqId ` set (cmRequests db)"
  shows "i \<in> cqId ` set (cmRequests db')"
proof -
  obtain r where r: "r \<in> set (cmRequests db)" "cqId r = i" using assms(2) by blast
  obtain r' where "r' \<in> set (cmRequests db')" "request_moves r r'" using evolves_request [OF assms(1) r(1)] .
  then have "r' \<in> set (cmRequests db')" "cqId r' = i" using r(2) by (simp_all add: request_moves_def same_request_def)
  then show ?thesis by blast
qed

lemma update_trace_ok:
  assumes ok: "tables_ok db" and tr: "trace_ok db tr" and p: "proc_ok db p"
    and st: "proc_step p db e db' k" and e: "\<not> (\<exists>i b. e = Created i b)"
  shows "trace_ok db' (tr @ [e])"
proof -
  note ev = step_evolves [OF p st]
  note mono = consented_mono [OF ev]
  have created: "Created i b \<in> set tr" if "Created i b \<in> set (tr @ [e])" for i b using that e by auto
  have kept: "consented db' (tr @ [e]) (cqId r')"
    if r: "r \<in> set (cmRequests db)" "cqId r' = cqId r" "Created (cqId r) True \<in> set tr"
      "cqStatus r \<notin> {PendingApproval, Rejected, Cancelled}" for r r'
    using mono [OF trace_okD(3) [OF tr r(1,3,4)]] r(2) by simp
  have "consented db' (tr @ [e]) (cqId r')"
    if r': "r' \<in> set (cmRequests db')" "Created (cqId r') True \<in> set (tr @ [e])"
      "cqStatus r' \<notin> {PendingApproval, Rejected, Cancelled}" for r'
  proof (cases "\<exists>a s. e = Reviewed a s")
    case True
    then obtain a s where e': "e = Reviewed a s" by blast
    show ?thesis
      using review_consents [OF ok p st [unfolded e'] r'(1,3), of tr] kept [of r' r'] r'(3) created [OF r'(2)] e' by blast
  next
    case False
    obtain r where r: "r \<in> set (cmRequests db)" "request_moves r r'"
      "(\<exists>a s. e = Reviewed a s) \<or> (cqStatus r = PendingApproval \<longrightarrow> cqStatus r' \<in> {PendingApproval, Cancelled})"
      using step_backward [OF p st e r'(1)] .
    then have i: "cqId r' = cqId r" by (auto simp: request_moves_def same_request_def)
    have "cqStatus r \<notin> {PendingApproval, Rejected, Cancelled}"
      using r(2,3) False r'(3) by (auto simp: request_moves_def TERMINAL_STATUSES_def)
    then show ?thesis using kept [OF r(1) i] created [OF r'(2)] i by simp
  qed
  moreover have "consented db' (tr @ [e]) i" if d: "Dispatched i tid \<in> set (tr @ [e])" "Created i True \<in> set (tr @ [e])" for i tid
  proof (cases "Dispatched i tid \<in> set tr")
    case True
    then show ?thesis by (rule mono [OF trace_okD(4) [OF tr _ created [OF d(2)]]])
  next
    case False
    then have "e = Dispatched i tid" using d(1) by simp
    from st [unfolded this] show ?thesis
    proof cases
      case (Gate_Dispatch auth servers srv)
      have g: "started db i" "owns db tid i" using p Gate_Dispatch(1) by auto
      obtain r where "r \<in> set (cmRequests db)" "cqId r = i" "cqStatus r \<in> {Approved, Running}"
        using dispatched_status [OF ok g Gate_Dispatch(4)] .
      then show ?thesis using kept [of r r] created [OF d(2)] by auto
    qed
  qed
  moreover have "i \<in> cqId ` set (cmRequests db')" if "Dispatched i tid \<in> set (tr @ [e])" for i tid
  proof (cases "Dispatched i tid \<in> set tr")
    case True
    then show ?thesis using tr ids_mono [OF ev] unfolding trace_ok_def by blast
  next
    case False
    then have "e = Dispatched i tid" using that by simp
    from st [unfolded this] have "started db i" using p by cases auto
    then have "i \<in> cqId ` set (cmRequests db)" by (auto simp: started_def)
    then show ?thesis by (rule ids_mono [OF ev])
  qed
  moreover have "i \<in> cqId ` set (cmRequests db')" if "Created i b \<in> set (tr @ [e])" for i b
    using tr created [OF that] ids_mono [OF ev] unfolding trace_ok_def by blast
  ultimately show ?thesis unfolding trace_ok_def by blast
qed

lemma reachable_trace_ok: "sys_reachable s \<Longrightarrow> trace_ok (sysDb s) (sysTrace s)"
proof (induction rule: sys_reachable.induct)
  case Initial
  show ?case by (simp add: trace_ok_def initial_sys_def)
next
  case (Step s s')
  note ok = reachable_ok [OF Step.hyps(1)]
  from Step.hyps(2) show ?case
  proof cases
    case (Run k p e db' p')
    note p = sys_okD(3) [OF ok Run(2)]
    show ?thesis
    proof (cases "\<exists>i b. e = Created i b")
      case True
      then show ?thesis using created_trace_ok [OF Step.IH p] Run by auto
    next
      case False
      then show ?thesis using update_trace_ok [OF sys_okD(1) [OF ok] Step.IH p Run(3)] Run(1) by simp
    qed
  qed (use Step.IH in \<open>simp_all add: trace_ok_def consented_def reviewable_def\<close>)
qed

end
