(* ===== verification/Command_Workflow.thy ===== *)
theory Command_Workflow
  imports Command_Consent
begin

text \<open>
  The properties of the interleaved command workflow, and the run of a sample request.
\<close>

section \<open>Finished rows\<close>

lemma finished_request_kept:
  assumes ok: "sys_ok s" and st: "sys_step s s'"
    and r: "r \<in> set (cmRequests (sysDb s))" "cqStatus r \<in> set TERMINAL_STATUSES"
  shows "r \<in> set (cmRequests (sysDb s'))"
  using st
proof cases
  case (Run k p e db' p')
  obtain r' where "r' \<in> set (cmRequests db')" "request_moves r r'"
    using evolves_request [OF step_evolves [OF sys_okD(3) [OF ok Run(2)] Run(3)] r(1)] .
  then show ?thesis using r(2) Run(1) by (auto simp: request_moves_def)
qed (use r in simp_all)

lemma finished_target_kept:
  assumes ok: "sys_ok s" and st: "sys_step s s'"
    and t: "t \<in> set (cmTargets (sysDb s))" "ctStatus t \<in> set TERMINAL_STATUSES"
  shows "t \<in> set (cmTargets (sysDb s'))"
  using st
proof cases
  case (Run k p e db' p')
  note p = sys_okD(3) [OF ok Run(2)]
  show ?thesis
  proof (cases "\<exists>i b. e = Created i b")
    case True
    then show ?thesis using Run t by (auto elim!: proc_step_created)
  next
    case False
    obtain t' where t': "t' \<in> set (cmTargets db')" "target_write p t t'"
      using rows_forward [OF proc_step_targets [OF Run(3) False] t(1)] by auto
    have "\<not> (concerns p t \<and> rejecting p)"
      using p t by (cases p) (auto simp: to_reject_def TERMINAL_STATUSES_def)
    then have "t' = t" using t' t(2) by (auto simp: target_write_def)
    then show ?thesis using t'(1) Run(1) by simp
  qed
qed (use t in simp_all)

lemma steps_reachable: "sys_step\<^sup>*\<^sup>* s s' \<Longrightarrow> sys_reachable s \<Longrightarrow> sys_reachable s'"
  by (induction rule: rtranclp_induct) (auto intro: Step)

text \<open>
  C3. A command that is over stays over.  Whatever users, workers, sweeps and crashes do from
  any reachable state on, a request that is completed, failed, rejected or cancelled keeps its
  row, and so does every target that reached such a status: no late transport, no rejection and
  no undo of a failed enqueue overwrites it.
\<close>

theorem finished_commands_final:
  assumes "sys_reachable s" "sys_step\<^sup>*\<^sup>* s s'"
  shows "{r \<in> set (cmRequests (sysDb s)). cqStatus r \<in> set TERMINAL_STATUSES} \<subseteq> set (cmRequests (sysDb s'))
       \<and> {t \<in> set (cmTargets (sysDb s)). ctStatus t \<in> set TERMINAL_STATUSES} \<subseteq> set (cmTargets (sysDb s'))"
  using assms(2)
proof (induction rule: rtranclp_induct)
  case (step y z)
  have "sys_ok y" using reachable_ok [OF steps_reachable [OF step.hyps(1) assms(1)]] .
  then show ?case
    using step.IH finished_request_kept [OF _ step.hyps(2)] finished_target_kept [OF _ step.hyps(2)] by blast
qed auto

section \<open>Consent\<close>

text \<open>
  C1. Four eyes.  In no run of the workflow - any number of users, workers and sweeps
  interleaved at their database statements, any of them stopping at any point - is a command
  sent to a server while the consent it was created to need is missing: when a target of a
  request that asked for approval has been dispatched, the approval of that request is in the
  table, given by somebody other than its requester or by a global manager, and by a session
  whose customer scope holds the request.
\<close>

theorem no_run_without_consent:
  assumes "sys_reachable s" "Created i True \<in> set (sysTrace s)" "Dispatched i tid \<in> set (sysTrace s)"
  shows "\<exists>a session r. Reviewed a session \<in> set (sysTrace s) \<and> a \<in> set (cmApprovals (sysDb s))
    \<and> caRequestId a = i \<and> caApproved a \<and> r \<in> set (cmRequests (sysDb s)) \<and> cqId r = i
    \<and> (cqRequesterId r \<noteq> caApproverId a
       \<or> (case session of None \<Rightarrow> False | Some sn \<Rightarrow> sessionHasPermission sn ''team:manage''))
    \<and> request_where session i r"
proof -
  have "consented (sysDb s) (sysTrace s) i"
    by (rule trace_okD(4) [OF reachable_trace_ok [OF assms(1)] assms(3,2)])
  then obtain a session r where "Reviewed a session \<in> set (sysTrace s)" "a \<in> set (cmApprovals (sysDb s))"
      "caRequestId a = i" "caApproved a" "r \<in> set (cmRequests (sysDb s))" "cqId r = i"
      "second_person session (caApproverId a) r"
    unfolding consented_def reviewable_def by blast
  then show ?thesis
    by (intro exI [of _ a] exI [of _ session] exI [of _ r]) (auto simp: second_person_def)
qed

section \<open>Refinement of the workflow\<close>

text \<open>The workflow as its users see it: which request is in which status.\<close>

inductive workflow_step :: "(string \<Rightarrow> command_status option) \<Rightarrow> (string \<Rightarrow> command_status option) \<Rightarrow> bool" where
  Submit: "m i = None \<Longrightarrow> st \<in> {PendingApproval, Approved} \<Longrightarrow> workflow_step m (m(i \<mapsto> st))"
| Move: "m i = Some st \<Longrightarrow> status_move st st' \<Longrightarrow> workflow_step m (m(i \<mapsto> st'))"

definition statuses :: "command_request list \<Rightarrow> string \<Rightarrow> command_status option" where
  "statuses rs = map_of (map (\<lambda>r. (cqId r, cqStatus r)) rs)"

lemma statuses_simps [simp]:
  "statuses [] = (\<lambda>_. None)" "statuses (r # rs) = (statuses rs)(cqId r \<mapsto> cqStatus r)"
  by (simp_all add: statuses_def)

lemma statuses_none: "statuses rs i = None \<longleftrightarrow> i \<notin> cqId ` set rs"
  by (induction rs) auto

lemma statuses_append: "cqId r \<notin> cqId ` set rs \<Longrightarrow> statuses (rs @ [r]) = (statuses rs)(cqId r \<mapsto> cqStatus r)"
  by (induction rs) (auto simp: fun_upd_twist)

lemma statuses_write:
  assumes "list_all2 (\<lambda>r r'. request_moves r r' \<and> (cqId r \<noteq> i \<longrightarrow> r' = r)) rs rs'" "distinct (map cqId rs)"
  shows "statuses rs' = statuses rs
     \<or> (\<exists>a b. statuses rs i = Some a \<and> status_move a b \<and> statuses rs' = (statuses rs)(i \<mapsto> b))"
  using assms
proof (induction rule: list_all2_induct)
  case (Cons r rs r' rs')
  show ?case
  proof (cases "cqId r = i")
    case True
    have len: "length rs' = length rs" using Cons.hyps(2) by (simp add: list_all2_conv_all_nth)
    have "rs' ! n = rs ! n" if n: "n < length rs'" for n
    proof -
      have "cqId (rs ! n) \<in> cqId ` set rs" using n len by simp
      then have "cqId (rs ! n) \<noteq> i" using Cons.prems True by auto
      then show ?thesis using Cons.hyps(2) n by (simp add: list_all2_conv_all_nth)
    qed
    then have "rs' = rs" using len by (simp add: nth_equalityI)
    then have eq: "statuses (r # rs) = (statuses rs)(i \<mapsto> cqStatus r)" "statuses (r' # rs') = (statuses rs)(i \<mapsto> cqStatus r')"
      using Cons.hyps(1) True by (simp_all add: request_moves_def same_request_def)
    have "cqStatus r' = cqStatus r \<or> status_move (cqStatus r) (cqStatus r')"
      using Cons.hyps(1) by (auto simp: request_moves_def)
    then show ?thesis unfolding eq by (metis fun_upd_upd fun_upd_same)
  next
    case False
    then have eq: "r' = r" using Cons.hyps(1) by simp
    from Cons.IH Cons.prems have "statuses rs' = statuses rs
       \<or> (\<exists>a b. statuses rs i = Some a \<and> status_move a b \<and> statuses rs' = (statuses rs)(i \<mapsto> b))"
      by (simp del: fun_upd_apply)
    then show ?thesis
    proof (elim disjE exE conjE)
      fix a b assume h: "statuses rs i = Some a" "status_move a b" "statuses rs' = (statuses rs)(i \<mapsto> b)"
      have "statuses (r # rs) i = Some a" using h(1) False by simp
      moreover have "statuses (r' # rs') = (statuses (r # rs))(i \<mapsto> b)"
        unfolding eq statuses_simps h(3) by (rule fun_upd_twist) (use False in simp)
      ultimately show ?thesis using h(2) by blast
    qed (simp add: eq)
  qed
qed simp


lemma reviewed_writes:
  assumes "proc_step p db (Reviewed a session) db' k"
  shows "\<exists>i. list_all2 (\<lambda>r r'. request_moves r r' \<and> (cqId r \<noteq> i \<longrightarrow> r' = r)) (cmRequests db) (cmRequests db')"
proof -
  from assms obtain now q where "review_tx now session q db = Some db'" by (rule proc_step_reviewed)
  then show ?thesis
    using review.row_moves request_where_pinned
    by (intro exI [of _ "pinned_id session (riRequestId q)"])
      (auto simp: review_tx_frame(4) list_all2_conv_all_nth)
qed

lemma step_statuses:
  assumes ok: "tables_ok db" and p: "proc_ok db p" and st: "proc_step p db e db' k"
  shows "statuses (cmRequests db') = statuses (cmRequests db)
     \<or> workflow_step (statuses (cmRequests db)) (statuses (cmRequests db'))"
proof (cases "\<exists>i b. e = Created i b")
  case True
  then obtain i b where "proc_step p db (Created i b) db' k" using st by auto
  then obtain ids now q team where "fresh_ids ids q db"
    "db' = db\<lparr>cmRequests := cmRequests db @ [new_request ids now q team], cmTargets := cmTargets db @ new_targets ids q\<rparr>"
    by (rule proc_step_created)
  moreover from this have "niRequest ids \<notin> cqId ` set (cmRequests db)" by (simp add: fresh_ids_def)
  ultimately show ?thesis
    using statuses_append [of "new_request ids now q team" "cmRequests db"]
      Submit [of "statuses (cmRequests db)" "niRequest ids" "initial_status (requires_approval q)"]
    by (auto simp: new_request_def statuses_none initial_status_def)
next
  case False
  have "\<exists>i. list_all2 (\<lambda>r r'. request_moves r r' \<and> (cqId r \<noteq> i \<longrightarrow> r' = r)) (cmRequests db) (cmRequests db')"
  proof (cases "\<exists>a s. e = Reviewed a s")
    case True
    then show ?thesis using reviewed_writes st by blast
  next
    case nr: False
    have "rows_written (cmRequests db) (cmRequests db')"
      by (rule proc_step_requests [OF st proc_ok_guards [OF p] False nr])
    then obtain i where "list_all2 (request_write i) (cmRequests db) (cmRequests db')"
      by (auto simp: rows_written_def)
    then show ?thesis by (intro exI [of _ i], elim list_all2_mono) (simp add: request_write_def)
  qed
  then obtain i where "list_all2 (\<lambda>r r'. request_moves r r' \<and> (cqId r \<noteq> i \<longrightarrow> r' = r)) (cmRequests db) (cmRequests db')" ..
  moreover have "distinct (map cqId (cmRequests db))" using ok by (simp add: tables_ok_def distinct_keys_def)
  ultimately have "statuses (cmRequests db') = statuses (cmRequests db)
     \<or> (\<exists>a b. statuses (cmRequests db) i = Some a \<and> status_move a b
          \<and> statuses (cmRequests db') = (statuses (cmRequests db))(i \<mapsto> b))"
    by (rule statuses_write)
  then show ?thesis
  proof (elim disjE exE conjE)
    fix a b assume h: "statuses (cmRequests db) i = Some a" "status_move a b"
      "statuses (cmRequests db') = (statuses (cmRequests db))(i \<mapsto> b)"
    show ?thesis unfolding h(3) by (rule disjI2, rule Move, rule h(1), rule h(2))
  qed simp
qed

text \<open>
  C4. The interleaved system refines the workflow its users are promised.  Every step of every
  process, seen through the statuses of the requests, changes nothing, submits one new request
  that waits or is approved, or moves one request along \<open>status_move\<close>: no statement of the code
  skips the approval, revives a finished request or moves two requests at once.
\<close>

theorem statements_refine_workflow:
  assumes "sys_reachable s" "sys_step s s'"
  shows "statuses (cmRequests (sysDb s')) = statuses (cmRequests (sysDb s))
     \<or> workflow_step (statuses (cmRequests (sysDb s))) (statuses (cmRequests (sysDb s')))"
  using assms(2)
proof cases
  case (Run k p e db' p')
  note ok = reachable_ok [OF assms(1)]
  show ?thesis
    using step_statuses [OF sys_okD(1) [OF ok] sys_okD(3) [OF ok Run(2)] Run(3)] Run(1) by simp
qed simp_all

section \<open>Termination\<close>

text \<open>How many statements a process has left at most.\<close>

fun remaining :: "proc \<Rightarrow> nat" where
  "remaining (Creating ids q team) = 9"
| "remaining (Reviewing session q) = 9"
| "remaining (Enqueueing i m) = 8"
| "remaining (Marking i m) = 7"
| "remaining (Checking i m) = 6"
| "remaining (Scheduling i) = 5"
| "remaining (UndoingRequest i) = 2"
| "remaining (CancelClaiming session i seen e m) = 4"
| "remaining (CancelWaiting i e m) = 3"
| "remaining (CancelRunning i e m) = 2"
| "remaining (Rejecting i) = 2"
| "remaining (Starting i) = 5"
| "remaining (Executing i) = 4"
| "remaining (GivingUp i m) = 3"
| "remaining (Recovering s) = 3"
| "remaining (Finishing i st sts n m) = 2"
| "remaining (FailingTargets i m b l) = 2"
| "remaining (Gating i tid srv) = 2"
| "remaining _ = 1"

text \<open>The statements one process makes, the tables changed by others in between.\<close>

inductive statements :: "proc \<Rightarrow> proc option \<Rightarrow> nat \<Rightarrow> bool" where
  None_Yet: "statements p (Some p) 0"
| One_More: "statements p (Some q) n \<Longrightarrow> proc_step q db e db' q' \<Longrightarrow> statements p q' (Suc n)"

lemma step_remaining: "proc_step p db e db' (Some q) \<Longrightarrow> remaining q < remaining p"
  by (cases rule: proc_step.cases) (auto split: if_splits)

lemma statements_remaining:
  "statements p q n \<Longrightarrow> (case q of None \<Rightarrow> n \<le> remaining p | Some q' \<Rightarrow> n + remaining q' \<le> remaining p)"
proof (induction rule: statements.induct)
  case (One_More p q n db e db' q')
  have "0 < remaining q" by (cases q) simp_all
  then show ?case using One_More step_remaining by (cases q') fastforce+
qed simp



section \<open>A run\<close>

lemma reach_begin:
  assumes "sys_reachable \<lparr>sysDb = db, sysProcs = f, sysTrace = tr\<rparr>" "entry db p" "f k = None"
  shows "sys_reachable \<lparr>sysDb = db, sysProcs = f(k \<mapsto> p), sysTrace = tr\<rparr>"
  using Step [OF assms(1) Begin [of _ p k]] assms(2,3) by simp

lemma reach_fork:
  assumes "sys_reachable \<lparr>sysDb = db, sysProcs = f(k \<mapsto> p), sysTrace = tr\<rparr>" "forks db p q" "k' \<noteq> k" "f k' = None"
  shows "sys_reachable \<lparr>sysDb = db, sysProcs = f(k \<mapsto> p, k' \<mapsto> q), sysTrace = tr\<rparr>"
  using Step [OF assms(1) Fork [of _ k p q k']] assms(2,3,4) by simp

lemma reach_run:
  assumes "sys_reachable \<lparr>sysDb = db, sysProcs = f(k \<mapsto> p), sysTrace = tr\<rparr>" "proc_step p db e db' q"
  shows "sys_reachable \<lparr>sysDb = db', sysProcs = f(k := q), sysTrace = tr @ [e]\<rparr>"
  using Step [OF assms(1) Run [of _ k p e db' q]] assms(2) by simp

lemma none_upd: "(\<lambda>_. None)(k := None) = (\<lambda>_. None)"
  by (rule ext) simp

definition sample_review :: review_input where
  "sample_review = \<lparr>riRequestId = ''r1'', riApproverId = ''u2'', riApproved = True, riComment = None\<rparr>"

definition sample_env :: "bool \<Rightarrow> queue_env" where
  "sample_env fails = \<lparr>qeWorkerId = ''w'', qeJobId = (\<lambda>i. ''j'' @ i), qeFails = (\<lambda>_. fails), qeFallback = 1,
     qeIntText = (\<lambda>_. []), qeIsoText = (\<lambda>_. [])\<rparr>"

definition sample_row :: "command_status \<Rightarrow> time \<Rightarrow> command_request" where
  "sample_row st updated = (new_request sample_ids 10 (sample_form True) (Some ''t1''))
     \<lparr>cqStatus := st, cqWorkerId := (if st = Running then Some ''w'' else None),
      cqHeartbeatAt := (if st = Running then Some updated else None), cqUpdatedAt := updated\<rparr>"

definition sample_target_row :: "command_status \<Rightarrow> time option \<Rightarrow> command_target" where
  "sample_target_row st startedAt = \<lparr>ctId = ''cs1'', ctRequestId = ''r1'', ctServerId = ''s1'', ctStatus = st,
     ctStdout = None, ctStderr = None, ctExitCode = None, ctStartedAt = startedAt, ctFinishedAt = None,
     ctOutcomeUnknown = False\<rparr>"

definition sample_log :: "ustring \<Rightarrow> execution_log" where
  "sample_log m = \<lparr>elRequestId = ''r1'', elServerId = None, elSummary = m\<rparr>"

definition sample_run_job :: job where
  "sample_run_job = new_job ''jr1'' 1 (execution_job_input (sample_env False) 40 ''r1''
     (''Command request r1 has been enqueued for background execution'') (Some (sample_row Running 40))) 40"

lemma created_run:
  "sys_reachable \<lparr>sysDb = sample_state [sample_row PendingApproval 10] [sample_target_row PendingApproval None] [] [] [],
     sysProcs = (\<lambda>_. None), sysTrace = [Created ''r1'' True]\<rparr>"
proof -
  let ?db = "sample_state [] [] [] [] []"
  have "sys_reachable \<lparr>sysDb = ?db, sysProcs = (\<lambda>_. None), sysTrace = []\<rparr>"
    using Initial by (simp add: initial_sys_def sample_state_def)
  moreover have "entry ?db (Creating sample_ids (sample_form True) (Some ''t1''))"
    by (rule Create, rule sample_planned)
  ultimately have *: "sys_reachable \<lparr>sysDb = ?db, sysProcs = (\<lambda>_. None)(0 \<mapsto> Creating sample_ids (sample_form True) (Some ''t1'')),
      sysTrace = []\<rparr>" by (rule reach_begin) simp
  have i: "insert_request sample_ids 10 (sample_form True) (Some ''t1'') ?db
      = Some (sample_state [sample_row PendingApproval 10] [sample_target_row PendingApproval None] [] [] [])" by code_simp
  have f: "fresh_ids sample_ids (sample_form True) ?db" by code_simp
  have r: "requires_approval (sample_form True)" "niRequest sample_ids = ''r1''" by code_simp+
  show ?thesis using reach_run [OF * Creating [OF i f]] r by (simp add: none_upd)
qed


lemma dispatched_run:
  "\<exists>s. sys_reachable s \<and> Created ''r1'' True \<in> set (sysTrace s) \<and> Dispatched ''r1'' ''cs1'' \<in> set (sysTrace s)"
proof -
  let ?tr = "[Created ''r1'' True]" and ?f = "\<lambda>_::nat. None :: proc option"
  let ?p = "sample_row PendingApproval 10" and ?t = "sample_target_row PendingApproval None"
  let ?a = "approval_of sample_review" and ?m = "u ''backend.command.enqueuedFromApproval''"
  let ?db1 = "sample_state [?p] [?t] [] [] []"
  let ?db2 = "sample_state [sample_row Approved 20] [?t] [?a] [] []"
  let ?db3 = "sample_state [sample_row Running 40] [?t] [?a] [] []"
  let ?db4 = "sample_state [sample_row Running 40] [sample_target_row Running (Some 41)] [?a] [] []"
  let ?db5 = "sample_state [sample_row Running 40] [sample_target_row Running (Some 41)] [?a] [sample_log ?m] []"
  let ?db6 = "sample_state [sample_row Running 40] [sample_target_row Running (Some 41)] [?a] [sample_log ?m] [sample_run_job]"
  let ?db7 = "sample_state [sample_row Running 50] [sample_target_row Running (Some 41)] [?a] [sample_log ?m] [sample_run_job]"
  have "entry ?db1 (Reviewing None sample_review)"
    by (rule Review [where input = sample_review and r = ?p]) code_simp
  from reach_begin [OF created_run this, of 0]
  have r1: "sys_reachable \<lparr>sysDb = ?db1, sysProcs = ?f(0 \<mapsto> Reviewing None sample_review), sysTrace = ?tr\<rparr>" by simp
  have "review_tx 20 None sample_review ?db1 = Some ?db2" by code_simp
  from reach_run [OF r1 proc_step.Reviewing [OF this]]
  have r2: "sys_reachable \<lparr>sysDb = ?db2, sysProcs = ?f(0 \<mapsto> Enqueueing ''r1'' ?m), sysTrace = ?tr @ [Reviewed ?a None]\<rparr>"
    by (simp add: sample_review_def)
  have "claim_approved ''w'' 40 ''r1'' ?db2 = (?db3, 1)" by code_simp
  from reach_run [OF r2 proc_step.Enqueueing [OF this]]
  have r3: "sys_reachable \<lparr>sysDb = ?db3, sysProcs = ?f(0 \<mapsto> Marking ''r1'' ?m), sysTrace = ?tr @ [Reviewed ?a None, Silent]\<rparr>"
    by simp
  have "markTargetsRunning ''r1'' 41 ?db3 = ?db4" by code_simp
  with reach_run [OF r3 proc_step.Marking [where now = 41]]
  have r4: "sys_reachable \<lparr>sysDb = ?db4, sysProcs = ?f(0 \<mapsto> Checking ''r1'' ?m), sysTrace = ?tr @ [Reviewed ?a None, Silent, Silent]\<rparr>"
    by simp
  have "still_runnable ?db4 ''r1''" "add_log ''r1'' None ?m ?db4 = ?db5" by code_simp+
  with reach_run [OF r4 proc_step.Checking]
  have r5: "sys_reachable \<lparr>sysDb = ?db5, sysProcs = ?f(0 \<mapsto> Scheduling ''r1''), sysTrace = ?tr @ [Reviewed ?a None, Silent, Silent, Silent]\<rparr>"
    by simp
  have "scheduleCommandExecution (sample_env False) 40 ''r1'' ?db5 = Some ?db6" by code_simp
  from reach_run [OF r5 proc_step.Scheduling [OF this]]
  have r6: "sys_reachable \<lparr>sysDb = ?db6, sysProcs = ?f, sysTrace = ?tr @ [Reviewed ?a None, Silent, Silent, Silent, Silent]\<rparr>"
    by (simp add: none_upd)
  have "entry ?db6 (Starting (epRequestId \<lparr>epRequestId = ''r1'', epSummary = Some
      ''Command request r1 has been enqueued for background execution'', epRequestedAt = Some []\<rparr>))"
    by (rule Execute [where j = sample_run_job and r = "sample_row Running 40"]) code_simp+
  then have "entry ?db6 (Starting ''r1'')" by simp
  from reach_begin [OF r6 this, of 0]
  have r7: "sys_reachable \<lparr>sysDb = ?db6, sysProcs = ?f(0 \<mapsto> Starting ''r1''), sysTrace = ?tr @ [Reviewed ?a None, Silent, Silent, Silent, Silent]\<rparr>"
    by simp
  have "heartbeatRunningCommandRequest ''w'' 50 ''r1'' ?db6 = ?db7" by code_simp
  with reach_run [OF r7 proc_step.Starting [where worker = "''w''" and now = 50]]
  have r8: "sys_reachable \<lparr>sysDb = ?db7, sysProcs = ?f(0 \<mapsto> Executing ''r1''),
      sysTrace = ?tr @ [Reviewed ?a None, Silent, Silent, Silent, Silent, Silent]\<rparr>" by simp
  have "sample_target_row Running (Some 41) \<in> set (targets_of ?db7 ''r1'')" by code_simp
  from reach_fork [OF r8 Fork_Target [OF this], of 1]
  have r9: "sys_reachable \<lparr>sysDb = ?db7, sysProcs = (?f(0 \<mapsto> Executing ''r1''))(1 \<mapsto> Gating ''r1'' ''cs1'' ''s1''),
      sysTrace = ?tr @ [Reviewed ?a None, Silent, Silent, Silent, Silent, Silent]\<rparr>"
    by (simp add: sample_target_row_def)
  have "target_gate exec_db [exec_server] ?db7 ''cs1'' ''s1'' = GateDispatch" by code_simp
  from reach_run [OF r9 Gate_Dispatch [OF this]] show ?thesis by (intro exI conjI, assumption) simp_all
qed

theorem no_run_without_consent_witness:
  "\<exists>(s :: sys) a session. Dispatched ''r1'' ''cs1'' \<in> set (sysTrace s) \<and> Reviewed a session \<in> set (sysTrace s) \<and> caApproved a"
proof -
  obtain s where s: "sys_reachable s" "Created ''r1'' True \<in> set (sysTrace s)" "Dispatched ''r1'' ''cs1'' \<in> set (sysTrace s)"
    using dispatched_run by blast
  from no_run_without_consent [OF s] obtain a session
    where "Reviewed a session \<in> set (sysTrace s)" "caApproved a" by (elim exE conjE) (rule that)
  with s(3) show ?thesis by (intro exI [of _ s] exI [of _ a] exI [of _ session] conjI)
qed

theorem statements_refine_workflow_witness:
  "\<exists>s' :: sys. workflow_step (\<lambda>_. None) (statuses (cmRequests (sysDb s')))"
proof -
  let ?s = "\<lparr>sysDb = sample_state [] [] [] [] [], sysProcs = (\<lambda>_. None)(0 \<mapsto> Creating sample_ids (sample_form True) (Some ''t1'')), sysTrace = []\<rparr>"
  let ?db = "sample_state [sample_row PendingApproval 10] [sample_target_row PendingApproval None] [] [] []"
  have "sys_reachable \<lparr>sysDb = sample_state [] [] [] [] [], sysProcs = (\<lambda>_. None), sysTrace = []\<rparr>"
    using Initial by (simp add: initial_sys_def sample_state_def)
  moreover have "entry (sample_state [] [] [] [] []) (Creating sample_ids (sample_form True) (Some ''t1''))"
    by (rule Create, rule sample_planned)
  ultimately have r: "sys_reachable ?s" by (rule reach_begin) simp
  have i: "insert_request sample_ids 10 (sample_form True) (Some ''t1'') (sample_state [] [] [] [] []) = Some ?db" by code_simp
  have f: "fresh_ids sample_ids (sample_form True) (sample_state [] [] [] [] [])" by code_simp
  have "sys_step ?s \<lparr>sysDb = ?db, sysProcs = (sysProcs ?s)(0 := None),
      sysTrace = sysTrace ?s @ [Created (niRequest sample_ids) (requires_approval (sample_form True))]\<rparr>" (is "sys_step ?s ?s'")
    by (rule Run [where p = "Creating sample_ids (sample_form True) (Some ''t1'')"])
      (use proc_step.Creating [OF i f] in \<open>simp_all add: sample_form_def requires_approval_def\<close>)
  from statements_refine_workflow [OF r this]
  have "statuses [sample_row PendingApproval 10] = statuses [] \<or> workflow_step (statuses []) (statuses [sample_row PendingApproval 10])"
    by (simp add: sample_state_def)
  moreover have "statuses [sample_row PendingApproval 10] ''r1'' \<noteq> statuses [] ''r1''"
    by (simp add: sample_row_def new_request_def sample_ids_def)
  ultimately have "workflow_step (statuses []) (statuses (cmRequests (sysDb ?s')))"
    by (auto simp: sample_state_def simp del: statuses_simps)
  then show ?thesis unfolding statuses_simps by blast
qed



section \<open>A stranded target\<close>

definition free_row :: "command_status \<Rightarrow> time \<Rightarrow> command_request" where
  "free_row st updated = (new_request sample_ids 10 (sample_form False) (Some ''t1''))
     \<lparr>cqStatus := st, cqWorkerId := (if st = Running then Some ''w'' else None),
      cqHeartbeatAt := (if st = Running then Some updated else None), cqUpdatedAt := updated\<rparr>"

definition stopping_row :: command_target where
  "stopping_row = (sample_target_row Cancelling (Some 21))\<lparr>ctStderr := Some (cancel_stderr None)\<rparr>"

lemma cancel_planned:
  "entry (sample_state [free_row Approved 30] ts [] ls []) (CancelClaiming None ''r1'' Approved (cancel_stderr None)
     (cancel_summary (\<lambda>_. []) ''u1'' 0))"
proof -
  have t: "trim ''r1'' = ''r1''" by code_simp
  have f: "find_first (request_where None ''r1'') [free_row Approved 30] = Some (free_row Approved 30)" by code_simp
  have a: "cqStatus (free_row Approved 30) = Approved" by (simp add: free_row_def)
  have "plan_cancel ''r1'' ''u1'' None (sample_state [free_row Approved 30] ts [] ls []) = Inr (free_row Approved 30)"
    using f a by (simp add: plan_cancel_def t sample_state_def CANCELLABLE_STATUSES_def)
  from Cancel [OF this, of None "\<lambda>_. []" 0] show ?thesis by (simp add: a t)
qed

lemma undone_run:
  "\<exists>tr. sys_reachable \<lparr>sysDb = sample_state [free_row Approved 30] [sample_target_row Running (Some 21)] []
       [sample_log created_summary] [], sysProcs = (\<lambda>_. None)(0 \<mapsto> UndoingTargets ''r1''), sysTrace = tr\<rparr>"
proof -
  let ?f = "\<lambda>_::nat. None :: proc option"
  let ?t = "sample_target_row Approved None" and ?run = "sample_target_row Running (Some 21)"
  let ?m = created_summary
  let ?db0 = "sample_state [] [] [] [] []"
  let ?db1 = "sample_state [free_row Approved 10] [?t] [] [] []"
  let ?db2 = "sample_state [free_row Running 20] [?t] [] [] []"
  let ?db3 = "sample_state [free_row Running 20] [?run] [] [] []"
  let ?db4 = "sample_state [free_row Running 20] [?run] [] [sample_log ?m] []"
  let ?db5 = "sample_state [free_row Approved 30] [?run] [] [sample_log ?m] []"
  have "sys_reachable \<lparr>sysDb = ?db0, sysProcs = ?f, sysTrace = []\<rparr>"
    using Initial by (simp add: initial_sys_def sample_state_def)
  moreover have "entry ?db0 (Creating sample_ids (sample_form False) (Some ''t1''))" by (rule Create, rule sample_planned)
  ultimately have r0: "sys_reachable \<lparr>sysDb = ?db0, sysProcs = ?f(0 \<mapsto> Creating sample_ids (sample_form False) (Some ''t1'')), sysTrace = []\<rparr>"
    by (rule reach_begin) simp
  have "insert_request sample_ids 10 (sample_form False) (Some ''t1'') ?db0 = Some ?db1" by code_simp
  moreover have "fresh_ids sample_ids (sample_form False) ?db0" by code_simp
  moreover have "\<not> requires_approval (sample_form False)" "niRequest sample_ids = ''r1''" by code_simp+
  ultimately obtain tr1 where r1: "sys_reachable \<lparr>sysDb = ?db1, sysProcs = ?f(0 \<mapsto> Enqueueing ''r1'' ?m), sysTrace = tr1\<rparr>"
    using reach_run [OF r0 proc_step.Creating] by fastforce
  have "claim_approved ''w'' 20 ''r1'' ?db1 = (?db2, 1)" by code_simp
  then obtain tr2 where r2: "sys_reachable \<lparr>sysDb = ?db2, sysProcs = ?f(0 \<mapsto> Marking ''r1'' ?m), sysTrace = tr2\<rparr>"
    using reach_run [OF r1 proc_step.Enqueueing] by fastforce
  have m: "markTargetsRunning ''r1'' 21 ?db2 = ?db3" by code_simp
  obtain tr3 where r3: "sys_reachable \<lparr>sysDb = ?db3, sysProcs = ?f(0 \<mapsto> Checking ''r1'' ?m), sysTrace = tr3\<rparr>"
    using reach_run [OF r2 proc_step.Marking [where now = 21], unfolded m] by blast
  have "still_runnable ?db3 ''r1''" and l: "add_log ''r1'' None ?m ?db3 = ?db4" by code_simp+
  then obtain tr4 where r4: "sys_reachable \<lparr>sysDb = ?db4, sysProcs = ?f(0 \<mapsto> Scheduling ''r1''), sysTrace = tr4\<rparr>"
    using reach_run [OF r3 proc_step.Checking, unfolded l] by blast
  have "scheduleCommandExecution (sample_env True) 30 ''r1'' ?db4 = None" by code_simp
  then obtain tr5 where r5: "sys_reachable \<lparr>sysDb = ?db4, sysProcs = ?f(0 \<mapsto> UndoingRequest ''r1''), sysTrace = tr5\<rparr>"
    using reach_run [OF r4 Scheduling_Fails] by blast
  have un: "unclaim_request 30 ''r1'' ?db4 = ?db5" by code_simp
  obtain tr6 where r6: "sys_reachable \<lparr>sysDb = ?db5, sysProcs = ?f(0 \<mapsto> UndoingTargets ''r1''), sysTrace = tr6\<rparr>"
    using reach_run [OF r5 proc_step.UndoingRequest [where now = 30], unfolded un] by blast
  then show ?thesis by blast
qed

lemma stranded_run:
  "\<exists>tr. sys_reachable \<lparr>sysDb = sample_state [free_row Cancelled 40] [stopping_row] []
       [sample_log created_summary, sample_log (cancel_summary (\<lambda>_. []) ''u1'' 0)] [], sysProcs = (\<lambda>_. None), sysTrace = tr\<rparr>"
proof -
  let ?f = "\<lambda>_::nat. None :: proc option"
  let ?run = "sample_target_row Running (Some 21)"
  let ?m = created_summary and ?e = "cancel_stderr None" and ?c = "cancel_summary (\<lambda>_. []) ''u1'' 0"
  let ?cancel = "CancelClaiming None ''r1'' Approved ?e ?c"
  let ?db5 = "sample_state [free_row Approved 30] [?run] [] [sample_log ?m] []"
  let ?db6 = "sample_state [free_row Cancelled 40] [?run] [] [sample_log ?m] []"
  let ?db7 = "sample_state [free_row Cancelled 40] [stopping_row] [] [sample_log ?m] []"
  let ?db8 = "sample_state [free_row Cancelled 40] [stopping_row] [] [sample_log ?m, sample_log ?c] []"
  obtain tr6 where r6: "sys_reachable \<lparr>sysDb = ?db5, sysProcs = ?f(0 \<mapsto> UndoingTargets ''r1''), sysTrace = tr6\<rparr>"
    using undone_run by blast
  have r7: "sys_reachable \<lparr>sysDb = ?db5, sysProcs = (?f(0 \<mapsto> UndoingTargets ''r1''))(1 \<mapsto> ?cancel), sysTrace = tr6\<rparr>"
    by (rule reach_begin [OF r6 cancel_planned]) simp
  have "cancel_claim 40 None ''r1'' Approved ?db5 = (?db6, 1)" by code_simp
  then obtain tr8 where r8: "sys_reachable \<lparr>sysDb = ?db6, sysProcs = (?f(0 \<mapsto> UndoingTargets ''r1''))(1 \<mapsto> CancelWaiting ''r1'' ?e ?c), sysTrace = tr8\<rparr>"
    using reach_run [OF r7 proc_step.CancelClaiming] by fastforce
  have w: "cancel_waiting_targets 40 ''r1'' ?e ?db6 = ?db6" by code_simp
  obtain tr9 where r9: "sys_reachable \<lparr>sysDb = ?db6, sysProcs = (?f(0 \<mapsto> UndoingTargets ''r1''))(1 \<mapsto> CancelRunning ''r1'' ?e ?c), sysTrace = tr9\<rparr>"
    using reach_run [OF r8 proc_step.CancelWaiting [where now = 40], unfolded w] by blast
  have x: "cancel_running_targets ''r1'' ?e ?db6 = ?db7" by code_simp
  obtain tr10 where r10: "sys_reachable \<lparr>sysDb = ?db7, sysProcs = (?f(0 \<mapsto> UndoingTargets ''r1''))(1 \<mapsto> Logging ''r1'' None ?c), sysTrace = tr10\<rparr>"
    using reach_run [OF r9 proc_step.CancelRunning, unfolded x] by blast
  have y: "add_log ''r1'' None ?c ?db7 = ?db8" by code_simp
  obtain tr11 where "sys_reachable \<lparr>sysDb = ?db8, sysProcs = (?f(0 \<mapsto> UndoingTargets ''r1''))(1 := None), sysTrace = tr11\<rparr>"
    using reach_run [OF r10 proc_step.Logging, unfolded y] by blast
  moreover have "(?f(0 \<mapsto> UndoingTargets ''r1''))(1 := None) = ?f(0 \<mapsto> UndoingTargets ''r1'')" by (rule ext) simp
  ultimately have r11: "sys_reachable \<lparr>sysDb = ?db8, sysProcs = ?f(0 \<mapsto> UndoingTargets ''r1''), sysTrace = tr11\<rparr>" by simp
  have z: "unclaim_targets ''r1'' ?db8 = ?db8" by code_simp
  have r12: "sys_reachable \<lparr>sysDb = ?db8, sysProcs = ?f(0 := None), sysTrace = tr11 @ [Silent]\<rparr>"
    using reach_run [OF r11 proc_step.UndoingTargets, unfolded z] .
  then show ?thesis unfolding none_upd by blast
qed

text \<open>
  C25. The undo of a failed enqueue can strand a target.  The undo puts the request back to
  approved and its targets in a second statement; a cancellation between the two finds an
  approved request with running targets, cancels the request and asks the targets to stop, and
  the second statement no longer finds them.  The system reaches a state with no process and no
  job left where a target is still stopping below a cancelled request, and neither the stale
  sweep nor the sweep over approved requests selects that request.
\<close>

theorem failed_enqueue_strands_target:
  "\<exists>s r t. sys_reachable s \<and> (\<forall>k. sysProcs s k = None) \<and> cmJobs (sysDb s) = []
     \<and> r \<in> set (cmRequests (sysDb s)) \<and> cqStatus r = Cancelled
     \<and> t \<in> set (cmTargets (sysDb s)) \<and> ctRequestId t = cqId r \<and> ctStatus t = Cancelling
     \<and> (\<forall>cutoff. stale_requests cutoff (sysDb s) = []) \<and> (\<forall>limit. queued_requests limit (sysDb s) = [])"
proof -
  obtain tr where r: "sys_reachable \<lparr>sysDb = sample_state [free_row Cancelled 40] [stopping_row] []
       [sample_log created_summary, sample_log (cancel_summary (\<lambda>_. []) ''u1'' 0)] [], sysProcs = (\<lambda>_. None), sysTrace = tr\<rparr>"
    (is "sys_reachable ?s") using stranded_run by blast
  have "stale_requests cutoff (sysDb ?s) = []" "queued_requests limit (sysDb ?s) = []" for cutoff limit
    by (simp_all add: stale_requests_def queued_requests_def sample_state_def free_row_def)
  then show ?thesis
    using r by (intro exI [of _ ?s] exI [of _ "free_row Cancelled 40"] exI [of _ stopping_row])
      (simp add: sample_state_def free_row_def stopping_row_def sample_target_row_def new_request_def sample_ids_def)
qed

theorem finished_commands_final_witness:
  "\<exists>(s :: sys) s' r. sys_step s s' \<and> r \<in> set (cmRequests (sysDb s)) \<and> cqStatus r = Cancelled
     \<and> r \<in> set (cmRequests (sysDb s'))"
proof -
  obtain tr where r: "sys_reachable \<lparr>sysDb = sample_state [free_row Cancelled 40] [stopping_row] []
       [sample_log created_summary, sample_log (cancel_summary (\<lambda>_. []) ''u1'' 0)] [], sysProcs = (\<lambda>_. None), sysTrace = tr\<rparr>"
    (is "sys_reachable ?s") using stranded_run by blast
  have st: "sys_step ?s (?s\<lparr>sysProcs := (sysProcs ?s)(0 := None)\<rparr>)" (is "sys_step ?s ?s'") by (rule Stop)
  have m: "free_row Cancelled 40 \<in> set (cmRequests (sysDb ?s))" "cqStatus (free_row Cancelled 40) = Cancelled"
    by (simp_all add: sample_state_def free_row_def)
  have "sys_step\<^sup>*\<^sup>* ?s ?s'" using st by (rule r_into_rtranclp)
  from finished_commands_final [OF r this] m have "free_row Cancelled 40 \<in> set (cmRequests (sysDb ?s'))"
    by (auto simp: TERMINAL_STATUSES_def)
  then show ?thesis using st m by blast
qed

end
