(* ===== verification/Spec2Isabelle.thy ===== *)
theory Spec2Isabelle
  imports Session Job_Events Job_Runner Rate_Limit Remote_Path Storage_Access Download_Source Command_Workflow
begin

text \<open>
  VControlHub is a multi-tenant control panel for servers: a Next.js application whose services
  under \<^verbatim>\<open>src/lib\<close> keep their state in PostgreSQL through Prisma.  This development models the
  services that carry its rules - who may do what, which customer's rows a request sees, how
  durable jobs are claimed and recovered, how much and where a user may write, which addresses
  the server may contact - and proves what they promise.

  \<^bold>\<open>Conventions.\<close>  A table is the list of its rows, a row the record of the columns the code
  reads or writes, a \<open>where\<close> clause a predicate, one Prisma call one atomic step
  (\<^verbatim>\<open>Prelude\<close>).  An exception is a value: \<open>result\<close> of \<^verbatim>\<open>Errors\<close> carries the typed errors of
  \<^verbatim>\<open>src/lib/errors.ts\<close>, other failures have an own constructor.  Where an operation reads first
  and writes later, the definition takes both tables, so that another writer may have acted in
  between.  Clock, random ids, HMAC and digest functions, the URL parser, DNS and translations
  are arguments; what is assumed of them is a hypothesis of the theorem that needs it, and its
  witness instantiates it.

  \<^bold>\<open>Theories.\<close>
  \<^item> \<^verbatim>\<open>Prelude\<close>: tables, sorting, JavaScript strings and JSON; \<^verbatim>\<open>Errors\<close>: \<^verbatim>\<open>errors.ts\<close>.
  \<^item> \<^verbatim>\<open>Rbac\<close>: permissions, roles and identity templates (\<^verbatim>\<open>auth/rbac.ts\<close>,
    \<^verbatim>\<open>auth/identity-templates.ts\<close>, \<^verbatim>\<open>auth/authorization.ts\<close>).  \<^verbatim>\<open>Team_Scope\<close>: the \<open>where\<close>
    fragments that confine a session to its customer (\<^verbatim>\<open>auth/team-scope.ts\<close>,
    \<^verbatim>\<open>server/resource-access.ts\<close>); the locale \<open>tenant_scope\<close> is what all of them promise.
  \<^item> \<^verbatim>\<open>Session\<close>: signed session and pending two-factor tokens (\<^verbatim>\<open>auth/session.ts\<close>,
    \<^verbatim>\<open>auth/hmac-token.ts\<close>).  \<^verbatim>\<open>Api_Access\<close>: API tokens, the session derived from their owner,
    bearer authentication, and the re-check before a stored command runs
    (\<^verbatim>\<open>api-token/\<close>, \<^verbatim>\<open>auth/bearer-token.ts\<close>, \<^verbatim>\<open>auth/command-execution-authz.ts\<close>).
  \<^item> \<^verbatim>\<open>Job_Model\<close>, \<^verbatim>\<open>Job_Lifecycle\<close>, \<^verbatim>\<open>Job_Queue\<close>, \<^verbatim>\<open>Job_Maintenance\<close>, \<^verbatim>\<open>Job_Events\<close>: the durable
    job table of \<^verbatim>\<open>src/lib/job/\<close> and its writers.  The locale \<open>job_update\<close> states what a guarded
    update keeps, \<open>fenced_update\<close> adds the worker's fence; every writer is an interpretation.
    \<^verbatim>\<open>Job_System\<close> interleaves all writers as a step relation; \<^verbatim>\<open>Job_Runner\<close> is the heartbeat
    runner with its timers and late answers, and the lease length (\<^verbatim>\<open>job/lease.ts\<close>,
    \<^verbatim>\<open>job/heartbeat-runner.ts\<close>) with the rounding of the double product written out.
  \<^item> \<^verbatim>\<open>Rate_Limit_Store\<close>, \<^verbatim>\<open>Rate_Limit\<close>: the in-memory sliding window and lockout store, the
    client address and the login lockout (\<^verbatim>\<open>rate-limit-store.ts\<close>, \<^verbatim>\<open>rate-limit.ts\<close>).
  \<^item> \<^verbatim>\<open>Storage_Path\<close>, \<^verbatim>\<open>Remote_Path\<close>: path validation and normalisation on UTF-16 code units
    (\<^verbatim>\<open>storage/path-utils.ts\<close>, \<^verbatim>\<open>storage/remote-path.ts\<close>).  \<^verbatim>\<open>Like_Pattern\<close>: the escape of LIKE
    patterns.  \<^verbatim>\<open>Storage_Access\<close>: path grants, quotas, capacities and capability tables
    (\<^verbatim>\<open>storage/access-control.ts\<close>).
  \<^item> \<^verbatim>\<open>Ip_Blocklist\<close>, \<^verbatim>\<open>Outbound_Url\<close>, \<^verbatim>\<open>Download_Source\<close>: which addresses the server may contact
    - the block list against CIDR ranges, webhook and pinned requests, download sources,
    redirects and magnet links (\<^verbatim>\<open>security/\<close>, \<^verbatim>\<open>storage/direct-access-url.ts\<close>,
    \<^verbatim>\<open>downloads/\<close>).

  \<^bold>\<open>Bounds and fuel.\<close>  No definition takes fuel.  The paging and sweep loops recurse on what is
  left of the table, the redirect loop on the redirects left, path and pattern matching on the
  text; each is a \<open>function\<close> with its measure.

  \<^bold>\<open>Not modelled.\<close>  Pages, components and route handlers (rendering and glue), translations,
  SSH, SFTP, RDP, WebSocket and Docker transports, the AI providers, backups and deployment
  scripts (external programs and network protocols), the Redis rate-limit store and the Prisma
  client themselves.
\<close>

end
